theory Spec2Isabelle
  imports Complex_Main "HOL-Library.Word" "HOL-Library.AList"
begin

unbundle bit_operations_syntax

section \<open>JavaScript strings and numbers\<close>

text \<open>
  A JavaScript string is a sequence of UTF-16 code units; \<open>charCodeAt\<close> reads one of them.
  \<open>js\<close> writes an ASCII literal as such a sequence.
\<close>

type_synonym jsstring = "16 word list"

definition js :: "string \<Rightarrow> jsstring" where
  "js s = map (\<lambda>c. of_nat (of_char c)) s"

text \<open>
  The integers that \<open>getFileHash\<close> computes with stay below \<open>2 ^ 53\<close> (lemma
  \<open>hash_step_exact\<close> below), where double-precision arithmetic is exact, so they are
  modelled as \<open>int\<close>. The operator \<open>&\<close> converts both operands with ToInt32 first.
\<close>

definition ToInt32 :: "int \<Rightarrow> int" where
  "ToInt32 x = (let m = x mod 2 ^ 32 in if 2 ^ 31 \<le> m then m - 2 ^ 32 else m)"

definition js_bitand :: "int \<Rightarrow> int \<Rightarrow> int" where
  "js_bitand a b = ToInt32 a AND ToInt32 b"

text \<open>\<open>Number.prototype.toString(36)\<close> on an integer: digits \<open>0-9\<close>, then \<open>a-z\<close>.\<close>

definition digit36 :: "nat \<Rightarrow> 16 word" where
  "digit36 d = (if d < 10 then of_nat (48 + d) else of_nat (87 + d))"

function digits36 :: "nat \<Rightarrow> jsstring" where
  "digits36 n = (if n < 36 then [digit36 n] else digits36 (n div 36) @ [digit36 (n mod 36)])"
  by pat_completeness auto
termination
  by (relation "measure id") auto

declare digits36.simps [simp del]

definition toString36 :: "int \<Rightarrow> jsstring" where
  "toString36 i = (if i < 0 then js ''-'' @ digits36 (nat (- i)) else digits36 (nat i))"

section \<open>Key derivation: \<open>getFileHash\<close> and \<open>getDbFilePath\<close>\<close>

text \<open>
  The loop of \<open>getFileHash\<close> over the code units of the path, carrying \<open>hash1\<close> and
  \<open>hash2\<close>.
\<close>

fun hash_loop :: "jsstring \<Rightarrow> int \<times> int \<Rightarrow> int \<times> int" where
  "hash_loop [] (hash1, hash2) = (hash1, hash2)"
| "hash_loop (char # rest) (hash1, hash2) =
     hash_loop rest
       (js_bitand (hash1 * 31 + uint char) 0x7fffffff,
        js_bitand (hash2 * 37 + uint char) 0x7fffffff)"

definition getFileHash :: "jsstring \<Rightarrow> jsstring" where
  "getFileHash filePath =
     (case hash_loop filePath (0, 0) of
        (hash1, hash2) \<Rightarrow>
          toString36 hash1 @ toString36 hash2 @ toString36 (int (length filePath)))"

definition getDbFilePath :: "jsstring \<Rightarrow> jsstring \<Rightarrow> jsstring" where
  "getDbFilePath dbDir filePath = dbDir @ js ''/'' @ getFileHash filePath @ js ''.json''"

text \<open>
  The algorithm in the words of the specification: a rolling hash with a prime multiplier,
  reduced into \<open>[0, 2 ^ 31)\<close>, and the characters a base-36 token may contain.
\<close>

definition rolling_hash :: "nat \<Rightarrow> jsstring \<Rightarrow> nat" where
  "rolling_hash prime path = foldl (\<lambda>h c. (h * prime + unat c) mod 2 ^ 31) 0 path"

definition is_base36_char :: "16 word \<Rightarrow> bool" where
  "is_base36_char c = ((48 \<le> unat c \<and> unat c \<le> 57) \<or> (97 \<le> unat c \<and> unat c \<le> 122))"

section \<open>JavaScript values\<close>

text \<open>
  Numbers are the finite values (as rationals, with \<open>-0\<close> and \<open>0\<close> identified: they are
  equal under \<open>===\<close>, both falsy, and both serialise as \<open>0\<close>), the infinities and NaN.
  An array carries its elements and the named properties assigned to it
  (\<open>ensureLockDefaults\<close> assigns \<open>protected\<close> to whatever object \<open>JSON.parse\<close> returned).
  An object is the list of its own properties in insertion order.
\<close>

datatype jsnum = Fin rat | PosInf | NegInf | NaN

datatype jsval =
    JUndefined
  | JNull
  | JBool bool
  | JNum jsnum
  | JStr jsstring
  | JArr "jsval list" "(jsstring \<times> jsval) list"
  | JObj "(jsstring \<times> jsval) list"

datatype jstype = TUndefined | TObject | TBoolean | TNumber | TString

fun typeof :: "jsval \<Rightarrow> jstype" where
  "typeof JUndefined = TUndefined"
| "typeof JNull = TObject"
| "typeof (JBool b) = TBoolean"
| "typeof (JNum n) = TNumber"
| "typeof (JStr s) = TString"
| "typeof (JArr xs ps) = TObject"
| "typeof (JObj ps) = TObject"

fun truthy :: "jsval \<Rightarrow> bool" where
  "truthy JUndefined = False"
| "truthy JNull = False"
| "truthy (JBool b) = b"
| "truthy (JNum n) = (n \<noteq> Fin 0 \<and> n \<noteq> NaN)"
| "truthy (JStr s) = (s \<noteq> [])"
| "truthy (JArr xs ps) = True"
| "truthy (JObj ps) = True"

text \<open>
  \<open>a === b\<close>. Two numbers are compared by value, NaN being unequal to itself; other
  primitives by value. Objects are compared by reference, which a model of values cannot
  express: an object operand gives \<open>False\<close>, as for two separately built objects. The
  program applies \<open>===\<close> and \<open>!==\<close> to \<open>scroll\<close>, \<open>col\<close> and \<open>line\<close>, declared
  \<open>number\<close>, and to strings.
\<close>

fun strict_eq :: "jsval \<Rightarrow> jsval \<Rightarrow> bool" where
  "strict_eq (JNum a) (JNum b) = (a = b \<and> a \<noteq> NaN)"
| "strict_eq (JArr xs ps) b = False"
| "strict_eq (JObj ps) b = False"
| "strict_eq a b = (a = b)"

text \<open>The decimal form of an array index, as a property name.\<close>

function decimal :: "nat \<Rightarrow> jsstring" where
  "decimal n = (if n < 10 then [of_nat (48 + n)] else decimal (n div 10) @ [of_nat (48 + n mod 10)])"
  by pat_completeness auto
termination
  by (relation "measure id") auto

declare decimal.simps [simp del]

definition indexed :: "jsval list \<Rightarrow> (jsstring \<times> jsval) list" where
  "indexed xs = zip (map decimal [0..<length xs]) xs"

text \<open>
  The own enumerable properties of a value, in order: what \<open>Object.keys\<close> lists and what
  an object spread \<open>{...v}\<close> copies. A spread of \<open>null\<close> or \<open>undefined\<close> copies nothing.
\<close>

fun own_props :: "jsval \<Rightarrow> (jsstring \<times> jsval) list" where
  "own_props (JObj ps) = ps"
| "own_props (JArr xs ps) = indexed xs @ ps"
| "own_props (JStr s) = indexed (map (\<lambda>c. JStr [c]) s)"
| "own_props v = []"

text \<open>
  Reading a property, \<open>v.k\<close> or \<open>v?.k\<close>: an own property, else \<open>undefined\<close>. The program
  reads the names \<open>protected\<close>, \<open>timestamp\<close>, \<open>viewState\<close>, \<open>file\<close>, \<open>cursor\<close>,
  \<open>scroll\<close>, \<open>start\<close>, \<open>end\<close>, \<open>col\<close>, \<open>line\<close>, \<open>mode\<close> and \<open>mtime\<close>, none of
  which a prototype defines. On \<open>null\<close> and \<open>undefined\<close> this is the result of \<open>?.\<close>; a
  plain \<open>.\<close> there throws, which \<open>member_of\<close> models where the source does not guard.
\<close>

definition prop_of :: "jsval \<Rightarrow> jsstring \<Rightarrow> jsval" where
  "prop_of v k = (case map_of (own_props v) k of None \<Rightarrow> JUndefined | Some x \<Rightarrow> x)"

text \<open>
  Assigning a named property, \<open>v.k = x\<close>, on an object or an array: an existing property
  keeps its place, a new one is appended. The program assigns only \<open>protected\<close>,
  \<open>timestamp\<close> and \<open>file\<close>, and only after a check that \<open>v\<close> is an object.
\<close>

fun set_prop :: "jsval \<Rightarrow> jsstring \<Rightarrow> jsval \<Rightarrow> jsval" where
  "set_prop (JObj ps) k x = JObj (AList.update k x ps)"
| "set_prop (JArr xs ps) k x = JArr xs (AList.update k x ps)"
| "set_prop v k x = v"

text \<open>
  \<open>{...a, ...b}\<close> on the property lists of \<open>a\<close> and \<open>b\<close>: a property of \<open>a\<close> keeps its
  place and takes the value \<open>b\<close> has for it; the properties only \<open>b\<close> has follow.
\<close>

definition assign :: "(jsstring \<times> jsval) list \<Rightarrow> (jsstring \<times> jsval) list \<Rightarrow> (jsstring \<times> jsval) list" where
  "assign target source =
     map (\<lambda>(k, v). (k, case map_of source k of None \<Rightarrow> v | Some v' \<Rightarrow> v')) target
     @ filter (\<lambda>(k, v). map_of target k = None) source"

definition key_protected :: jsstring where "key_protected = js ''protected''"
definition key_timestamp :: jsstring where "key_timestamp = js ''timestamp''"
definition key_viewState :: jsstring where "key_viewState = js ''viewState''"
definition key_file :: jsstring where "key_file = js ''file''"
definition key_cursor :: jsstring where "key_cursor = js ''cursor''"
definition key_scroll :: jsstring where "key_scroll = js ''scroll''"
definition key_start :: jsstring where "key_start = js ''start''"
definition key_end :: jsstring where "key_end = js ''end''"
definition key_col :: jsstring where "key_col = js ''col''"
definition key_line :: jsstring where "key_line = js ''line''"
definition key_mode :: jsstring where "key_mode = js ''mode''"
definition key_mtime :: jsstring where "key_mtime = js ''mtime''"

datatype error = TypeError | SyntaxError | AdapterError | NoMtimeError

text \<open>\<open>v.a.b\<close> where neither access is guarded: a \<open>TypeError\<close> when \<open>v.a\<close> is nullish.\<close>

definition member_of :: "jsval \<Rightarrow> jsstring \<Rightarrow> jsstring \<Rightarrow> error + jsval" where
  "member_of v a b =
     (let x = prop_of v a in
      if x = JUndefined \<or> x = JNull then Inl TypeError else Inr (prop_of x b))"

subsection \<open>JSON text\<close>

text \<open>
  A stored text is represented by what \<open>JSON.parse\<close> makes of it: a syntax error, or a
  value. \<open>to_json\<close> is the value that the text \<open>JSON.stringify(v)\<close> denotes: properties
  whose value is \<open>undefined\<close> are left out, \<open>undefined\<close> in an array and the non-finite
  numbers become \<open>null\<close>, the named properties of an array are not written, and
  \<open>JSON.stringify(undefined)\<close> is \<open>undefined\<close> (\<open>None\<close>). Two values have the same
  \<open>JSON.stringify\<close> string exactly when their \<open>to_json\<close> agree.
\<close>

datatype jstext = Unparsable | Json jsval

fun to_json :: "jsval \<Rightarrow> jsval option"
  and to_json_elems :: "jsval list \<Rightarrow> jsval list"
  and to_json_props :: "(jsstring \<times> jsval) list \<Rightarrow> (jsstring \<times> jsval) list" where
  "to_json JUndefined = None"
| "to_json JNull = Some JNull"
| "to_json (JBool b) = Some (JBool b)"
| "to_json (JNum n) = Some (case n of Fin r \<Rightarrow> JNum (Fin r) | _ \<Rightarrow> JNull)"
| "to_json (JStr s) = Some (JStr s)"
| "to_json (JArr xs ps) = Some (JArr (to_json_elems xs) [])"
| "to_json (JObj ps) = Some (JObj (to_json_props ps))"
| "to_json_elems [] = []"
| "to_json_elems (x # xs) = (case to_json x of None \<Rightarrow> JNull | Some j \<Rightarrow> j) # to_json_elems xs"
| "to_json_props [] = []"
| "to_json_props (p # ps) =
     (case to_json (snd p) of
        None \<Rightarrow> to_json_props ps
      | Some j \<Rightarrow> (fst p, j) # to_json_props ps)"

definition JSON_stringify :: "jsval \<Rightarrow> jstext" where
  "JSON_stringify v = (case to_json v of None \<Rightarrow> Unparsable | Some j \<Rightarrow> Json j)"

definition JSON_parse :: "jstext \<Rightarrow> error + jsval" where
  "JSON_parse t = (case t of Unparsable \<Rightarrow> Inl SyntaxError | Json v \<Rightarrow> Inr v)"

text \<open>A value that JSON text can denote; \<open>JSON.parse\<close> returns no other.\<close>

fun is_json :: "jsval \<Rightarrow> bool"
  and is_json_elems :: "jsval list \<Rightarrow> bool"
  and is_json_props :: "(jsstring \<times> jsval) list \<Rightarrow> bool" where
  "is_json JUndefined = False"
| "is_json JNull = True"
| "is_json (JBool b) = True"
| "is_json (JNum n) = (case n of Fin r \<Rightarrow> True | _ \<Rightarrow> False)"
| "is_json (JStr s) = True"
| "is_json (JArr xs ps) = (is_json_elems xs \<and> ps = [])"
| "is_json (JObj ps) = is_json_props ps"
| "is_json_elems [] = True"
| "is_json_elems (x # xs) = (is_json x \<and> is_json_elems xs)"
| "is_json_props [] = True"
| "is_json_props (p # ps) = (is_json (snd p) \<and> is_json_props ps)"

section \<open>The plugin and its host\<close>

text \<open>
  The state the operations read and change, passed explicitly. The first four fields are
  the vault adapter: its files in insertion order, its directories, what \<open>stat\<close> resolves
  to for a path, and the calls that it rejects (every adapter call is asynchronous and may
  fail). \<open>flashing\<close> says whether \<open>containerEl.querySelector("span.is-flashing")\<close> finds an
  element. \<open>capture\<close> holds the properties of the object that \<open>getTemporaryState()\<close>
  builds from the editor at this moment. \<open>debounced\<close> holds the arguments of the armed
  \<open>debouncedSave\<close> call; a new call replaces them. \<open>applied\<close> records the states handed
  to \<open>setTemporaryState\<close>, whose cursor and scroll go to the editor once the layout is
  ready.
\<close>

datatype io_op = OpExists | OpRead | OpWrite | OpMkdir | OpRemove | OpList | OpStat

datatype icon = Unlocked | Locked | Corrupted

record markdown_view =
  view_file :: "jsstring option"
  view_state :: jsval

record world =
  files :: "(jsstring \<times> jstext) list"
  directories :: "jsstring list"
  stats :: "jsstring \<Rightarrow> jsval"
  rejects :: "io_op \<Rightarrow> jsstring \<Rightarrow> bool"
  flashing :: bool
  dbDir :: jsstring
  activeFile :: "jsstring option"
  activeView :: "markdown_view option"
  lastLoadedFileName :: "jsstring option"
  loadingFile :: bool
  lastTemporaryState :: jsval
  capture :: "(jsstring \<times> jsval) list"
  debounced :: "(jsstring \<times> jsval) option"
  lockStatusBar :: "icon option"
  applied :: "jsval list"
  notices :: "jsstring list"

subsection \<open>The vault adapter\<close>

text \<open>
  A rejected call changes nothing. \<open>read\<close> of a path that is no file fails; \<open>list\<close>
  returns the files directly inside a directory, with their full paths.
\<close>

definition adapter_exists :: "world \<Rightarrow> jsstring \<Rightarrow> error + bool" where
  "adapter_exists w path =
     (if rejects w OpExists path then Inl AdapterError
      else Inr (map_of (files w) path \<noteq> None \<or> path \<in> set (directories w)))"

definition adapter_read :: "world \<Rightarrow> jsstring \<Rightarrow> error + jstext" where
  "adapter_read w path =
     (if rejects w OpRead path then Inl AdapterError
      else case map_of (files w) path of None \<Rightarrow> Inl AdapterError | Some data \<Rightarrow> Inr data)"

definition adapter_write :: "world \<Rightarrow> jsstring \<Rightarrow> jstext \<Rightarrow> error + world" where
  "adapter_write w path data =
     (if rejects w OpWrite path then Inl AdapterError
      else Inr (w\<lparr>files := AList.update path data (files w)\<rparr>))"

definition adapter_mkdir :: "world \<Rightarrow> jsstring \<Rightarrow> error + world" where
  "adapter_mkdir w path =
     (if rejects w OpMkdir path then Inl AdapterError
      else Inr (w\<lparr>directories := List.insert path (directories w)\<rparr>))"

definition adapter_remove :: "world \<Rightarrow> jsstring \<Rightarrow> error + world" where
  "adapter_remove w path =
     (if rejects w OpRemove path then Inl AdapterError
      else Inr (w\<lparr>files := AList.delete path (files w),
                  directories := removeAll path (directories w)\<rparr>))"

definition in_directory :: "jsstring \<Rightarrow> jsstring \<Rightarrow> bool" where
  "in_directory dir path =
     (let pre = dir @ js ''/'' in
      take (length pre) path = pre \<and> drop (length pre) path \<noteq> []
      \<and> 47 \<notin> set (drop (length pre) path))"

definition adapter_list :: "world \<Rightarrow> jsstring \<Rightarrow> error + jsstring list" where
  "adapter_list w dir =
     (if rejects w OpList dir then Inl AdapterError
      else Inr (filter (in_directory dir) (map fst (files w))))"

definition adapter_stat :: "world \<Rightarrow> jsstring \<Rightarrow> error + jsval" where
  "adapter_stat w path =
     (if rejects w OpStat path then Inl AdapterError else Inr (stats w path))"

section \<open>RecordStore: \<open>readFileState\<close>, \<open>writeFileState\<close>, \<open>validateDatabase\<close>, \<open>renameFile\<close>\<close>

definition isObject :: "jsval \<Rightarrow> bool" where
  "isObject v = (typeof v = TObject \<and> v \<noteq> JNull)"

definition isParsedStateMinimal :: "jsval \<Rightarrow> bool" where
  "isParsedStateMinimal v =
     (if \<not> isObject v then False
      else let vs = prop_of v key_viewState in
        if vs = JUndefined then True
        else if \<not> isObject vs then False
        else let file = prop_of vs key_file in
          file = JUndefined \<or> typeof file = TString)"

text \<open>The local function \<open>validateViewStateFile\<close> of \<open>readFileState\<close>.\<close>

definition validateViewStateFile :: "jsval \<Rightarrow> jsstring \<Rightarrow> bool" where
  "validateViewStateFile parsedData expectedFilePath =
     (if \<not> isParsedStateMinimal parsedData then True
      else let fileVal = prop_of (prop_of parsedData key_viewState) key_file in
        if typeof fileVal = TString \<and> fileVal \<noteq> JStr expectedFilePath then False
        else True)"

text \<open>
  The local function \<open>ensureLockDefaults\<close>, which changes its argument in place: the
  result is the object afterwards and the flag \<open>changed\<close>.
\<close>

definition ensureLockDefaults :: "jsval \<Rightarrow> jsval \<times> bool" where
  "ensureLockDefaults obj =
     (if \<not> isObject obj then (obj, False)
      else
        let (rec1, changed1) =
              (if typeof (prop_of obj key_protected) \<noteq> TBoolean
               then (set_prop obj key_protected (JBool False), True)
               else (obj, False));
            ts = prop_of rec1 key_timestamp
        in if ts = JUndefined \<or> (typeof ts \<noteq> TNumber \<and> ts \<noteq> JNull)
           then (set_prop rec1 key_timestamp JNull, True)
           else (rec1, changed1))"

text \<open>
  The body of the \<open>try\<close> block of \<open>readFileState\<close>; \<open>JNull\<close> is \<open>null\<close>. No statement
  follows a successful write except the \<open>return\<close>, so an exception leaves the store as it
  was.
\<close>

definition readFileState_try :: "world \<Rightarrow> jsstring \<Rightarrow> error + world \<times> jsval" where
  "readFileState_try w filePath =
     (let dbFilePath = getDbFilePath (dbDir w) filePath in
      case adapter_exists w dbFilePath of
        Inl e \<Rightarrow> Inl e
      | Inr present \<Rightarrow>
          if \<not> present then Inr (w, JNull)
          else case adapter_read w dbFilePath of
            Inl e \<Rightarrow> Inl e
          | Inr data \<Rightarrow>
              (case JSON_parse data of
                 Inl e \<Rightarrow> Inl e
               | Inr parsed \<Rightarrow>
                   let (parsedData, changedDefaults) = ensureLockDefaults parsed in
                   if \<not> validateViewStateFile parsedData filePath then
                     let corrected =
                           (if truthy (prop_of parsedData key_viewState)
                            then set_prop parsedData key_viewState
                                   (set_prop (prop_of parsedData key_viewState) key_file (JStr filePath))
                            else parsedData)
                     in case adapter_write w dbFilePath (JSON_stringify corrected) of
                          Inl e \<Rightarrow> Inl e
                        | Inr w' \<Rightarrow> Inr (w', corrected)
                   else if \<not> flashing w then
                     (if changedDefaults then
                        case adapter_write w dbFilePath (JSON_stringify parsedData) of
                          Inl e \<Rightarrow> Inl e
                        | Inr w' \<Rightarrow> Inr (w', parsedData)
                      else Inr (w, parsedData))
                   else Inr (w, JNull)))"

definition readFileState :: "world \<Rightarrow> jsstring \<Rightarrow> world \<times> jsval" where
  "readFileState w filePath =
     (case readFileState_try w filePath of Inl e \<Rightarrow> (w, JNull) | Inr r \<Rightarrow> r)"

text \<open>
  \<open>stateToSave\<close> of \<open>writeFileState\<close>: the spread of \<open>state\<close> with the defaults for the
  lock fields.
\<close>

definition stateToSave :: "jsval \<Rightarrow> jsval" where
  "stateToSave state =
     (let s0 = JObj (own_props state);
          s1 = (if typeof (prop_of s0 key_protected) \<noteq> TBoolean
                then set_prop s0 key_protected (JBool False) else s0);
          ts = prop_of s1 key_timestamp
      in if ts = JUndefined \<or> (typeof ts \<noteq> TNumber \<and> ts \<noteq> JNull)
         then set_prop s1 key_timestamp JNull else s1)"

text \<open>
  \<open>writeFileState\<close> catches every exception; a directory it created before a failed write
  stays.
\<close>

definition writeFileState :: "world \<Rightarrow> jsstring \<Rightarrow> jsval \<Rightarrow> world" where
  "writeFileState w filePath state =
     (let dbFilePath = getDbFilePath (dbDir w) filePath in
      case adapter_exists w (dbDir w) of
        Inl e \<Rightarrow> w
      | Inr present \<Rightarrow>
          (case (if \<not> present then adapter_mkdir w (dbDir w) else Inr w) of
             Inl e \<Rightarrow> w
           | Inr w1 \<Rightarrow>
               (case adapter_write w1 dbFilePath (JSON_stringify (stateToSave state)) of
                  Inl e \<Rightarrow> w1
                | Inr w2 \<Rightarrow> w2)))"

definition renameFile :: "world \<Rightarrow> jsstring \<Rightarrow> jsstring \<Rightarrow> world" where
  "renameFile w newPath oldPath =
     (case readFileState w oldPath of
        (w1, oldState) \<Rightarrow>
          if truthy oldState then
            let w2 = writeFileState w1 newPath oldState;
                oldDbFilePath = getDbFilePath (dbDir w2) oldPath
            in case adapter_exists w2 oldDbFilePath of
                 Inl e \<Rightarrow> w2
               | Inr present \<Rightarrow>
                   if present then
                     (case adapter_remove w2 oldDbFilePath of Inl e \<Rightarrow> w2 | Inr w3 \<Rightarrow> w3)
                   else w2
          else w1)"

subsection \<open>\<open>validateDatabase\<close>\<close>

text \<open>
  \<open>f.toLowerCase().endsWith(".json")\<close>. The only characters whose lower case is one of
  \<open>.\<close>, \<open>j\<close>, \<open>s\<close>, \<open>o\<close>, \<open>n\<close> are these and \<open>J\<close>, \<open>S\<close>, \<open>O\<close>, \<open>N\<close>, each one code
  unit long, so the test reads the last five code units.
\<close>

definition lower_ascii :: "16 word \<Rightarrow> 16 word" where
  "lower_ascii c = (if 65 \<le> unat c \<and> unat c \<le> 90 then c + 32 else c)"

definition endsWith_json :: "jsstring \<Rightarrow> bool" where
  "endsWith_json f =
     (5 \<le> length f \<and> map lower_ascii (drop (length f - 5) f) = js ''.json'')"

record report =
  total_count :: nat
  fixedViewStatePath :: nat
  removedMissingNote :: nat
  removedInvalidEntry :: nat
  errors_count :: nat

datatype entry_outcome = RemovedInvalid | RemovedMissing | Fixed | Kept

datatype validation_notice = DirectoryNotFound | Completed report | ValidationFailed

text \<open>
  \<open>notePath\<close> of the loop body: \<open>viewState.file\<close> when it is a string, else
  \<open>undefined\<close> (\<open>None\<close>).
\<close>

definition notePath_of :: "jsval \<Rightarrow> jsstring option" where
  "notePath_of parsed =
     (if isParsedStateMinimal parsed then
        (case prop_of (prop_of parsed key_viewState) key_file of
           JStr fileVal \<Rightarrow> Some fileVal
         | _ \<Rightarrow> None)
      else None)"

text \<open>
  The body of the inner \<open>try\<close> block for one entry. Each path through it ends after at
  most one successful \<open>remove\<close> or \<open>write\<close>, so an exception leaves the store as it was.
\<close>

definition validate_entry :: "world \<Rightarrow> jsstring \<Rightarrow> error + world \<times> entry_outcome" where
  "validate_entry w dbFilePath =
     (case adapter_read w dbFilePath of
        Inl e \<Rightarrow> Inl e
      | Inr raw \<Rightarrow>
          (case JSON_parse raw of
             Inl e \<Rightarrow>
               (case adapter_remove w dbFilePath of
                  Inl e' \<Rightarrow> Inl e'
                | Inr w' \<Rightarrow> Inr (w', RemovedInvalid))
           | Inr parsed \<Rightarrow>
               (case notePath_of parsed of
                  None \<Rightarrow>
                    (case adapter_remove w dbFilePath of
                       Inl e \<Rightarrow> Inl e
                     | Inr w' \<Rightarrow> Inr (w', RemovedInvalid))
                | Some notePath \<Rightarrow>
                    if notePath = [] then
                      (case adapter_remove w dbFilePath of
                         Inl e \<Rightarrow> Inl e
                       | Inr w' \<Rightarrow> Inr (w', RemovedInvalid))
                    else
                      let (parsed', changed) =
                            (if isParsedStateMinimal parsed
                                \<and> \<not> strict_eq (prop_of (prop_of parsed key_viewState) key_file)
                                      (JStr notePath)
                             then
                               (let vs = (if \<not> truthy (prop_of parsed key_viewState) then JObj []
                                          else prop_of parsed key_viewState)
                                in (set_prop parsed key_viewState
                                      (set_prop vs key_file (JStr notePath)), True))
                             else (parsed, False))
                      in case adapter_exists w notePath of
                           Inl e \<Rightarrow> Inl e
                         | Inr present \<Rightarrow>
                             if \<not> present then
                               (case adapter_remove w dbFilePath of
                                  Inl e \<Rightarrow> Inl e
                                | Inr w' \<Rightarrow> Inr (w', RemovedMissing))
                             else if changed then
                               (case adapter_write w dbFilePath (JSON_stringify parsed') of
                                  Inl e \<Rightarrow> Inl e
                                | Inr w' \<Rightarrow> Inr (w', Fixed))
                             else Inr (w, Kept))))"

definition count_outcome :: "entry_outcome \<Rightarrow> report \<Rightarrow> report" where
  "count_outcome out r =
     (case out of
        RemovedInvalid \<Rightarrow> r\<lparr>removedInvalidEntry := removedInvalidEntry r + 1\<rparr>
      | RemovedMissing \<Rightarrow> r\<lparr>removedMissingNote := removedMissingNote r + 1\<rparr>
      | Fixed \<Rightarrow> r\<lparr>fixedViewStatePath := fixedViewStatePath r + 1\<rparr>
      | Kept \<Rightarrow> r)"

text \<open>The \<open>for\<close> loop over the listed files.\<close>

fun validate_loop :: "jsstring list \<Rightarrow> world \<Rightarrow> report \<Rightarrow> world \<times> report" where
  "validate_loop [] w r = (w, r)"
| "validate_loop (dbFilePath # rest) w r =
     (let r1 = r\<lparr>total_count := total_count r + 1\<rparr> in
      case validate_entry w dbFilePath of
        Inl e \<Rightarrow> validate_loop rest w (r1\<lparr>errors_count := errors_count r1 + 1\<rparr>)
      | Inr (w', out) \<Rightarrow> validate_loop rest w' (count_outcome out r1))"

definition report0 :: report where
  "report0 = \<lparr>total_count = 0, fixedViewStatePath = 0, removedMissingNote = 0,
               removedInvalidEntry = 0, errors_count = 0\<rparr>"

text \<open>
  \<open>validateDatabase\<close> returns nothing; its result here is the store afterwards and the
  notice it shows, which carries the counters.
\<close>

definition validateDatabase :: "world \<Rightarrow> world \<times> validation_notice" where
  "validateDatabase w =
     (case adapter_exists w (dbDir w) of
        Inl e \<Rightarrow> (w, ValidationFailed)
      | Inr present \<Rightarrow>
          if \<not> present then (w, DirectoryNotFound)
          else case adapter_list w (dbDir w) of
            Inl e \<Rightarrow> (w, ValidationFailed)
          | Inr entries \<Rightarrow>
              (case validate_loop (filter endsWith_json entries) w report0 of
                 (w', r) \<Rightarrow> (w', Completed r)))"

text \<open>
  The store after \<open>adapter.remove(path)\<close> succeeded, and the entries \<open>validateDatabase\<close>
  visits: the listed files of the storage root whose name ends in \<open>.json\<close>.
\<close>

definition removed :: "world \<Rightarrow> jsstring \<Rightarrow> world" where
  "removed w path = w\<lparr>files := AList.delete path (files w),
                       directories := removeAll path (directories w)\<rparr>"


definition stored_entries :: "world \<Rightarrow> jsstring list" where
  "stored_entries w = filter endsWith_json (filter (in_directory (dbDir w)) (map fst (files w)))"


section \<open>ChangeDetector: \<open>TemporaryStatesSame\<close> and \<open>performStateCheck\<close>\<close>

text \<open>
  The local function \<open>isEmptyState\<close>, on a value that is not nullish (\<open>Object.keys\<close>
  throws on \<open>null\<close> and \<open>undefined\<close>; both callers pass an object).
\<close>

definition isEmptyState :: "jsval \<Rightarrow> bool" where
  "isEmptyState state =
     (length (own_props state) = 0
      \<or> (\<not> truthy (prop_of state key_cursor) \<and> \<not> truthy (prop_of state key_scroll)
          \<and> \<not> truthy (prop_of state key_viewState)))"

text \<open>
  \<open>lc.a.b !== rc.a.b\<close>: the left operand is evaluated first, and either may throw.
\<close>

definition members_differ :: "jsval \<Rightarrow> jsval \<Rightarrow> jsstring \<Rightarrow> jsstring \<Rightarrow> error + bool" where
  "members_differ lc rc a b =
     (case member_of lc a b of
        Inl e \<Rightarrow> Inl e
      | Inr x \<Rightarrow> (case member_of rc a b of Inl e \<Rightarrow> Inl e | Inr y \<Rightarrow> Inr (\<not> strict_eq x y)))"

definition cursors_differ :: "jsval \<Rightarrow> jsval \<Rightarrow> error + bool" where
  "cursors_differ lc rc =
     (case members_differ lc rc key_start key_col of
        Inl e \<Rightarrow> Inl e
      | Inr True \<Rightarrow> Inr True
      | Inr False \<Rightarrow>
     (case members_differ lc rc key_start key_line of
        Inl e \<Rightarrow> Inl e
      | Inr True \<Rightarrow> Inr True
      | Inr False \<Rightarrow>
     (case members_differ lc rc key_end key_col of
        Inl e \<Rightarrow> Inl e
      | Inr True \<Rightarrow> Inr True
      | Inr False \<Rightarrow> members_differ lc rc key_end key_line)))"

definition TemporaryStatesSame :: "jsval \<Rightarrow> jsval \<Rightarrow> error + bool" where
  "TemporaryStatesSame left right =
     (if \<not> truthy left \<and> \<not> truthy right then Inr True
      else if \<not> truthy left \<or> \<not> truthy right then Inr False
      else
        let leftEmpty = isEmptyState left; rightEmpty = isEmptyState right in
        if leftEmpty \<and> rightEmpty then Inr True
        else if leftEmpty \<noteq> rightEmpty then Inr False
        else
          let leftHasCursor = truthy (prop_of left key_cursor);
              rightHasCursor = truthy (prop_of right key_cursor)
          in if leftHasCursor \<noteq> rightHasCursor then Inr False
          else
            case (if leftHasCursor
                  then cursors_differ (prop_of left key_cursor) (prop_of right key_cursor)
                  else Inr False) of
              Inl e \<Rightarrow> Inl e
            | Inr True \<Rightarrow> Inr False
            | Inr False \<Rightarrow>
                let leftHasScroll = truthy (prop_of left key_scroll);
                    rightHasScroll = truthy (prop_of right key_scroll)
                in if leftHasScroll \<noteq> rightHasScroll then Inr False
                else if leftHasScroll
                        \<and> \<not> strict_eq (prop_of left key_scroll) (prop_of right key_scroll)
                then Inr False
                else if to_json (prop_of left key_viewState) \<noteq> to_json (prop_of right key_viewState)
                then Inr False
                else Inr True)"

text \<open>
  \<open>performStateCheck\<close>. The result is the plugin afterwards and either the exception
  that left the function, or the argument of the \<open>saveTemporaryState\<close> call it started
  (\<open>None\<close> when it started none). The call is not awaited: its body runs later.
\<close>

definition performStateCheck :: "world \<Rightarrow> world \<times> (error + jsval option)" where
  "performStateCheck w =
     (if activeFile w = None \<or> activeFile w = Some []
         \<or> lastLoadedFileName w = None \<or> lastLoadedFileName w = Some []
         \<or> activeFile w \<noteq> lastLoadedFileName w
         \<or> loadingFile w
      then (w, Inr None)
      else
        let state = JObj (capture w) in
        if isEmptyState state then (w, Inr None)
        else
          let w1 = (if \<not> truthy (lastTemporaryState w)
                    then w\<lparr>lastTemporaryState := state\<rparr> else w)
          in case TemporaryStatesSame state (lastTemporaryState w1) of
               Inl e \<Rightarrow> (w1, Inl e)
             | Inr same \<Rightarrow>
                 if \<not> same then (w1\<lparr>lastTemporaryState := state\<rparr>, Inr (Some state))
                 else (w1, Inr None))"

section \<open>Merge on save: \<open>saveTemporaryState\<close> and the debounced write\<close>

text \<open>\<open>merged\<close> of \<open>saveTemporaryState\<close>, from what \<open>readFileState\<close> returned.\<close>

definition merge_state :: "jsval \<Rightarrow> jsval \<Rightarrow> jsval \<Rightarrow> jsval" where
  "merge_state existing lastState state =
     (if truthy existing then
        let m0 = JObj (assign (own_props existing) (own_props state));
            m1 = (if typeof (prop_of existing key_protected) = TBoolean
                  then set_prop m0 key_protected (prop_of existing key_protected) else m0)
        in if prop_of existing key_timestamp = JNull
              \<or> typeof (prop_of existing key_timestamp) = TNumber
           then set_prop m1 key_timestamp (prop_of existing key_timestamp) else m1
      else if truthy lastState then
        JObj (AList.update key_timestamp (prop_of lastState key_timestamp)
               (AList.update key_protected (prop_of lastState key_protected) (own_props state)))
      else state)"

definition saveTemporaryState :: "world \<Rightarrow> jsval \<Rightarrow> world" where
  "saveTemporaryState w state =
     (case activeFile w of
        None \<Rightarrow> w
      | Some fileName \<Rightarrow>
          if fileName \<noteq> [] \<and> Some fileName = lastLoadedFileName w then
            (case readFileState w fileName of
               (w1, existing) \<Rightarrow>
                 w1\<lparr>debounced := Some (fileName, merge_state existing (lastTemporaryState w1) state)\<rparr>)
          else w)"

text \<open>The debounce timer expires: the armed call writes.\<close>

definition debounce_fire :: "world \<Rightarrow> world" where
  "debounce_fire w =
     (case debounced w of
        None \<Rightarrow> w
      | Some (filePath, state) \<Rightarrow> writeFileState (w\<lparr>debounced := None\<rparr>) filePath state)"

section \<open>Lock mode: \<open>getFileTimestamp\<close>, \<open>toggleLockState\<close>, \<open>enforceReadOnlyMode\<close>\<close>

definition getFileTimestamp :: "world \<Rightarrow> jsstring \<Rightarrow> error + jsval" where
  "getFileTimestamp w filePath =
     (case adapter_stat w filePath of
        Inl e \<Rightarrow> Inl e
      | Inr s \<Rightarrow>
          if \<not> truthy s \<or> typeof (prop_of s key_mtime) \<noteq> TNumber then Inl NoMtimeError
          else Inr (prop_of s key_mtime))"

definition isFileLocked :: "world \<Rightarrow> jsstring \<Rightarrow> world \<times> bool" where
  "isFileLocked w filePath =
     (case readFileState w filePath of
        (w1, current) \<Rightarrow> (w1, truthy (prop_of current key_protected)))"

text \<open>
  \<open>setTemporaryState\<close>: the view state goes to the view at once; cursor and scroll are
  handed to the editor when the layout is ready, recorded in \<open>applied\<close>.
\<close>

definition setTemporaryState :: "world \<Rightarrow> jsval \<Rightarrow> world" where
  "setTemporaryState w state =
     (let w1 = (case activeView w of
                  None \<Rightarrow> w
                | Some view \<Rightarrow>
                    if truthy (prop_of state key_viewState)
                    then w\<lparr>activeView := Some (view\<lparr>view_state := prop_of state key_viewState\<rparr>)\<rparr>
                    else w)
      in w1\<lparr>applied := applied w1 @ [state]\<rparr>)"

definition enforceReadOnlyMode :: "world \<Rightarrow> jsstring \<Rightarrow> world" where
  "enforceReadOnlyMode w filePath =
     (case activeView w of
        None \<Rightarrow> w
      | Some active \<Rightarrow>
          if view_file active \<noteq> Some filePath then w
          else case isFileLocked w filePath of
            (w1, locked) \<Rightarrow>
              if \<not> locked then w1
              else
                let rawState = view_state active;
                    mode = (if typeof (prop_of rawState key_mode) = TString
                            then prop_of rawState key_mode else JUndefined)
                in if mode = JStr (js ''preview'') then w1
                   else
                     let ephemeral = JObj (capture w1);
                         toRestore = JObj [(key_cursor, prop_of ephemeral key_cursor),
                                           (key_scroll, prop_of ephemeral key_scroll)];
                         w2 = w1\<lparr>activeView := Some (active\<lparr>view_state :=
                                 JObj (AList.update key_mode (JStr (js ''preview''))
                                        (own_props rawState))\<rparr>)\<rparr>;
                         w3 = setTemporaryState w2 toRestore
                     in w3\<lparr>notices := notices w3 @ [js ''Lock mode enabled'']\<rparr>)"

definition toggleLockState :: "world \<Rightarrow> jsstring \<Rightarrow> world" where
  "toggleLockState w filePath =
     (case readFileState w filePath of
        (w1, existing) \<Rightarrow>
          let current = (if truthy existing then existing else JObj []);
              nextProtected = (\<not> truthy (prop_of current key_protected));
              w2 = (case lockStatusBar w1 of
                      None \<Rightarrow> w1
                    | Some i \<Rightarrow> w1\<lparr>lockStatusBar := Some (if nextProtected then Locked else Unlocked)\<rparr>);
              timestamp = (if nextProtected then
                             (case getFileTimestamp w2 filePath of Inl e \<Rightarrow> JNull | Inr t \<Rightarrow> t)
                           else JNull);
              newState = JObj (AList.update key_timestamp timestamp
                                (AList.update key_protected (JBool nextProtected)
                                  (own_props current)));
              w3 = writeFileState w2 filePath newState;
              w4 = w3\<lparr>lastTemporaryState :=
                      JObj (assign (own_props (if truthy (lastTemporaryState w3)
                                               then lastTemporaryState w3 else JObj []))
                                   (own_props newState))\<rparr>
          in if nextProtected then enforceReadOnlyMode w4 filePath else w4)"

section \<open>States\<close>

text \<open>
  The properties of a state other than the lock fields: two states that differ by adding,
  removing or altering \<open>protected\<close> and \<open>timestamp\<close> only have the same.
\<close>

definition without_lock :: "(jsstring \<times> jsval) list \<Rightarrow> (jsstring \<times> jsval) list" where
  "without_lock ps = AList.delete key_timestamp (AList.delete key_protected ps)"

text \<open>
  The interface \<open>TemporaryState\<close> as a predicate: an object whose \<open>cursor\<close>, when
  present, has \<open>start\<close> and \<open>end\<close> with numeric \<open>col\<close> and \<open>line\<close> (editor positions,
  which are finite), whose \<open>scroll\<close> is a number, whose \<open>viewState\<close> is an object, whose
  \<open>protected\<close> is a boolean and whose \<open>timestamp\<close> is a number or \<open>null\<close>.
\<close>

definition is_position :: "jsval \<Rightarrow> bool" where
  "is_position p =
     (case p of
        JObj ps \<Rightarrow>
          (case (prop_of p key_col, prop_of p key_line) of
             (JNum (Fin c), JNum (Fin l)) \<Rightarrow> True
           | _ \<Rightarrow> False)
      | _ \<Rightarrow> False)"

definition is_cursor :: "jsval \<Rightarrow> bool" where
  "is_cursor c =
     (case c of
        JObj ps \<Rightarrow> is_position (prop_of c key_start) \<and> is_position (prop_of c key_end)
      | _ \<Rightarrow> False)"

definition isTemporaryState :: "jsval \<Rightarrow> bool" where
  "isTemporaryState s =
     (case s of
        JObj ps \<Rightarrow>
          (prop_of s key_cursor = JUndefined \<or> is_cursor (prop_of s key_cursor))
          \<and> (prop_of s key_scroll = JUndefined \<or> typeof (prop_of s key_scroll) = TNumber)
          \<and> (prop_of s key_viewState = JUndefined \<or> isObject (prop_of s key_viewState))
          \<and> (prop_of s key_protected = JUndefined \<or> typeof (prop_of s key_protected) = TBoolean)
          \<and> (prop_of s key_timestamp = JUndefined \<or> prop_of s key_timestamp = JNull
               \<or> typeof (prop_of s key_timestamp) = TNumber)
      | _ \<Rightarrow> False)"


text \<open>The storage invariant of a record: \<open>protected\<close> is a boolean, \<open>timestamp\<close> a number or \<open>null\<close>.\<close>

definition has_lock_fields :: "jsval \<Rightarrow> bool" where
  "has_lock_fields r =
     (typeof (prop_of r key_protected) = TBoolean
      \<and> (prop_of r key_timestamp = JNull \<or> typeof (prop_of r key_timestamp) = TNumber))"


text \<open>What \<open>JSON.stringify\<close> writes for a timestamp: the non-finite numbers become \<open>null\<close>.\<close>

definition json_number :: "jsval \<Rightarrow> jsval" where
  "json_number t = (case t of JNum (Fin r) \<Rightarrow> JNum (Fin r) | _ \<Rightarrow> JNull)"


section \<open>Example states\<close>

text \<open>An empty vault whose adapter rejects nothing, with no note open.\<close>

definition world0 :: world where
  "world0 = \<lparr>files = [], directories = [], stats = (\<lambda>p. JNull), rejects = (\<lambda>opn p. False),
     flashing = False, dbDir = js ''db'', activeFile = None, activeView = None,
     lastLoadedFileName = None, loadingFile = False, lastTemporaryState = JNull,
     capture = [], debounced = None, lockStatusBar = None, applied = [], notices = []\<rparr>"


text \<open>
  A vault holding, under the key of \<open>correct.md\<close>, a record whose \<open>viewState.file\<close> names
  another path, while a flashing span is shown.
\<close>

definition world_wrong_path :: world where
  "world_wrong_path = world0\<lparr>
     files := [(getDbFilePath (js ''db'') (js ''correct.md''),
                Json (JObj [(key_cursor, JNum (Fin 3)),
                            (key_viewState, JObj [(key_file, JStr (js ''wrong/path.md''))])]))],
     flashing := True\<rparr>"


text \<open>
  The note \<open>note.md\<close> is open and loaded; the last snapshot has scroll 5 and an empty
  view state; the editor reports nothing.
\<close>

definition world_editing :: world where
  "world_editing = world0\<lparr>
     activeFile := Some (js ''note.md''),
     lastLoadedFileName := Some (js ''note.md''),
     lastTemporaryState := JObj [(key_scroll, JNum (Fin 5)), (key_viewState, JObj [])]\<rparr>"


text \<open>
  \<open>note.md\<close> is open and loaded and its stored record is locked with timestamp 1000;
  in \<open>world_flashing\<close> a flashing span is shown, in \<open>world_locked\<close> none is. In
  \<open>world_flashing_scrolled\<close> and \<open>world_locked_scrolled\<close> the last snapshot is the stored
  record and the editor reports scroll 5.
\<close>

definition world_flashing :: world where
  "world_flashing = world0\<lparr>
     files := [(getDbFilePath (js ''db'') (js ''note.md''),
                Json (JObj [(key_scroll, JNum (Fin 1)), (key_protected, JBool True),
                            (key_timestamp, JNum (Fin 1000))]))],
     flashing := True,
     activeFile := Some (js ''note.md''),
     lastLoadedFileName := Some (js ''note.md'')\<rparr>"


definition world_locked :: world where
  "world_locked = world_flashing\<lparr>flashing := False\<rparr>"

definition world_flashing_scrolled :: world where
  "world_flashing_scrolled = world_flashing\<lparr>
     lastTemporaryState := JObj [(key_scroll, JNum (Fin 1)), (key_protected, JBool True),
                                 (key_timestamp, JNum (Fin 1000))],
     capture := [(key_scroll, JNum (Fin 5))]\<rparr>"

definition world_locked_scrolled :: world where
  "world_locked_scrolled = world_flashing_scrolled\<lparr>flashing := False\<rparr>"


text \<open>A vault with the directory \<open>db\<close> and a settled record stored for \<open>old.md\<close>.\<close>

definition world_rename :: world where
  "world_rename = world0\<lparr>
     files := [(getDbFilePath (js ''db'') (js ''old.md''),
                Json (JObj [(key_scroll, JNum (Fin 250)),
                            (key_viewState, JObj [(key_file, JStr (js ''old.md''))]),
                            (key_protected, JBool False), (key_timestamp, JNull)]))],
     directories := [js ''db'']\<rparr>"


text \<open>
  The storage root \<open>db\<close> with four records: one whose note exists, one whose note is
  missing, one that does not parse, one without \<open>viewState\<close>; and a storage root with one
  record whose \<open>viewState.file\<close> is the empty string.
\<close>

definition world_four :: world where
  "world_four = world0\<lparr>
     files := [(js ''db/a.json'',
                Json (JObj [(key_viewState, JObj [(key_file, JStr (js ''valid.md''))]),
                            (key_scroll, JNum (Fin 1))])),
               (js ''db/b.json'',
                Json (JObj [(key_viewState, JObj [(key_file, JStr (js ''missing.md''))])])),
               (js ''db/c.json'', Unparsable),
               (js ''db/d.json'', Json (JObj [(key_scroll, JNum (Fin 100))])),
               (js ''valid.md'', Unparsable)],
     directories := [js ''db'']\<rparr>"

definition world_empty_path :: world where
  "world_empty_path = world0\<lparr>
     files := [(js ''db/e.json'', Json (JObj [(key_viewState, JObj [(key_file, JStr [])])]))],
     directories := [js ''db'']\<rparr>"


text \<open>An empty vault in which \<open>stat\<close> reports the modification time 42 for every path.\<close>

definition world_mtime :: world where
  "world_mtime = world0\<lparr>stats := (\<lambda>p. JObj [(key_mtime, JNum (Fin 42))])\<rparr>"


section \<open>Key derivation: the hash\<close>


lemma ToInt32_mask: "ToInt32 0x7fffffff = 0x7fffffff"
  by (simp add: ToInt32_def)

lemma ToInt32_mod: "ToInt32 x mod 2 ^ 31 = x mod 2 ^ 31"
proof -
  have d: "(2::int) ^ 31 dvd 2 ^ 32" by simp
  have "(x mod 2 ^ 32 - 2 ^ 32) mod 2 ^ 31 = (x mod 2 ^ 32) mod (2 ^ 31 :: int)"
    by (metis d dvd_imp_mod_0 mod_diff_right_eq diff_zero mod_mod_trivial)
  moreover have "(x mod 2 ^ 32) mod (2 ^ 31 :: int) = x mod 2 ^ 31"
    using d by (rule mod_mod_cancel)
  ultimately show ?thesis by (simp add: ToInt32_def Let_def)
qed

lemma js_bitand_mask: "js_bitand x 0x7fffffff = x mod 2 ^ 31"
proof -
  have m: "(0x7fffffff :: int) = mask 31" by (simp add: mask_eq_exp_minus_1)
  have "js_bitand x 0x7fffffff = ToInt32 x AND mask 31"
    unfolding js_bitand_def ToInt32_mask by (simp only: m)
  also have "\<dots> = take_bit 31 (ToInt32 x)" by (simp only: take_bit_eq_mask)
  also have "\<dots> = ToInt32 x mod 2 ^ 31" by (simp only: take_bit_eq_mod)
  finally show ?thesis by (simp only: ToInt32_mod)
qed

lemma hash_loop_rolling:
  "hash_loop p (int a, int b) =
     (int (foldl (\<lambda>h c. (h * 31 + unat c) mod 2 ^ 31) a p),
      int (foldl (\<lambda>h c. (h * 37 + unat c) mod 2 ^ 31) b p))"
proof (induction p arbitrary: a b)
  case Nil
  show ?case by simp
next
  case (Cons c cs)
  have s1: "js_bitand (int a * 31 + uint c) 0x7fffffff = int ((a * 31 + unat c) mod 2 ^ 31)"
    by (simp add: js_bitand_mask zmod_int)
  have s2: "js_bitand (int b * 37 + uint c) 0x7fffffff = int ((b * 37 + unat c) mod 2 ^ 31)"
    by (simp add: js_bitand_mask zmod_int)
  show ?case
    by (simp only: hash_loop.simps s1 s2 Cons.IH foldl_Cons)
qed

lemma foldl_mod_bound:
  "a < 2 ^ 31 \<Longrightarrow> foldl (\<lambda>h c. (h * m + unat (c :: 16 word)) mod 2 ^ 31) a p < (2 ^ 31 :: nat)"
  by (induction p arbitrary: a) simp_all

lemma rolling_hash_bound: "rolling_hash m p < 2 ^ 31"
  unfolding rolling_hash_def by (rule foldl_mod_bound) simp

text \<open>
  Every value the loop computes before masking is below \<open>2 ^ 53\<close>: the double-precision
  arithmetic of the source is exact on it.
\<close>

lemma hash_step_exact:
  "h < 2 ^ 31 \<Longrightarrow> h * 37 + unat (c :: 16 word) < (2 ^ 53 :: nat)"
proof -
  assume h: "h < 2 ^ 31"
  have "unat c < 2 ^ 16" using unsigned_less [of c] by simp
  with h show ?thesis by simp
qed

lemma digit36_base36: "d < 36 \<Longrightarrow> is_base36_char (digit36 d)"
proof -
  assume d: "d < 36"
  have a: "unat (of_nat (48 + d) :: 16 word) = 48 + d"
    using d by (simp add: unat_of_nat del: of_nat_add)
  have b: "unat (of_nat (87 + d) :: 16 word) = 87 + d"
    using d by (simp add: unat_of_nat del: of_nat_add)
  show ?thesis
    using d unfolding digit36_def is_base36_char_def
    by (simp only: a b split: if_split) auto
qed

lemma digits36_base36: "list_all is_base36_char (digits36 n)"
proof (induction n rule: digits36.induct)
  case (1 n)
  show ?case
  proof (cases "n < 36")
    case True
    then show ?thesis by (subst digits36.simps) (simp add: digit36_base36)
  next
    case False
    then have "list_all is_base36_char (digits36 (n div 36))" by (rule "1.IH")
    with False show ?thesis
      by (subst digits36.simps) (simp add: digit36_base36)
  qed
qed

lemma toString36_nat: "toString36 (int n) = digits36 n"
  by (simp add: toString36_def)

lemma getFileHash_rolling:
  "getFileHash p = digits36 (rolling_hash 31 p) @ digits36 (rolling_hash 37 p) @ digits36 (length p)"
  using hash_loop_rolling [of p 0 0]
  by (simp add: getFileHash_def rolling_hash_def toString36_nat)

lemmas hash_eval =
  js_bitand_mask js_def getFileHash_def toString36_def digits36.simps digit36_def

text \<open>
  C8. For every string \<open>path\<close>, \<open>getFileHash path\<close> is the concatenation of three base-36
  tokens: the rolling hash of the code units with multiplier 31, the one with multiplier
  37, both in \<open>[0, 2 ^ 31)\<close>, and the length of the path; it consists of the characters
  \<open>0-9\<close> and \<open>a-z\<close> only. The function is total on code-unit sequences (the empty one, any
  code unit, any length), and as a function it is deterministic.
\<close>

theorem getFileHash_tokens:
  "getFileHash path =
     digits36 (rolling_hash 31 path) @ digits36 (rolling_hash 37 path) @ digits36 (length path)
   \<and> rolling_hash 31 path < 2 ^ 31 \<and> rolling_hash 37 path < 2 ^ 31
   \<and> list_all is_base36_char (getFileHash path)"
  using rolling_hash_bound [of 31 path] rolling_hash_bound [of 37 path] digits36_base36
  by (simp add: getFileHash_rolling)

theorem getFileHash_tokens_witness:
  "getFileHash (js ''ab'') = js ''2e92uf2'' \<and> list_all is_base36_char (js ''2e92uf2'')"
proof -
  have e: "getFileHash (js ''ab'') = js ''2e92uf2''"
    by (simp add: hash_eval)
  from getFileHash_tokens [of "js ''ab''"] have "list_all is_base36_char (getFileHash (js ''ab''))"
    by blast
  with e show ?thesis by simp
qed

section \<open>Properties of values and of JSON text\<close>

lemma key_neqs [simp]:
  "key_protected \<noteq> key_timestamp"
  "key_protected \<noteq> key_viewState"
  "key_protected \<noteq> key_file"
  "key_protected \<noteq> key_cursor"
  "key_protected \<noteq> key_scroll"
  "key_protected \<noteq> key_start"
  "key_protected \<noteq> key_end"
  "key_protected \<noteq> key_col"
  "key_protected \<noteq> key_line"
  "key_protected \<noteq> key_mode"
  "key_protected \<noteq> key_mtime"
  "key_timestamp \<noteq> key_protected"
  "key_timestamp \<noteq> key_viewState"
  "key_timestamp \<noteq> key_file"
  "key_timestamp \<noteq> key_cursor"
  "key_timestamp \<noteq> key_scroll"
  "key_timestamp \<noteq> key_start"
  "key_timestamp \<noteq> key_end"
  "key_timestamp \<noteq> key_col"
  "key_timestamp \<noteq> key_line"
  "key_timestamp \<noteq> key_mode"
  "key_timestamp \<noteq> key_mtime"
  "key_viewState \<noteq> key_protected"
  "key_viewState \<noteq> key_timestamp"
  "key_viewState \<noteq> key_file"
  "key_viewState \<noteq> key_cursor"
  "key_viewState \<noteq> key_scroll"
  "key_viewState \<noteq> key_start"
  "key_viewState \<noteq> key_end"
  "key_viewState \<noteq> key_col"
  "key_viewState \<noteq> key_line"
  "key_viewState \<noteq> key_mode"
  "key_viewState \<noteq> key_mtime"
  "key_file \<noteq> key_protected"
  "key_file \<noteq> key_timestamp"
  "key_file \<noteq> key_viewState"
  "key_file \<noteq> key_cursor"
  "key_file \<noteq> key_scroll"
  "key_file \<noteq> key_start"
  "key_file \<noteq> key_end"
  "key_file \<noteq> key_col"
  "key_file \<noteq> key_line"
  "key_file \<noteq> key_mode"
  "key_file \<noteq> key_mtime"
  "key_cursor \<noteq> key_protected"
  "key_cursor \<noteq> key_timestamp"
  "key_cursor \<noteq> key_viewState"
  "key_cursor \<noteq> key_file"
  "key_cursor \<noteq> key_scroll"
  "key_cursor \<noteq> key_start"
  "key_cursor \<noteq> key_end"
  "key_cursor \<noteq> key_col"
  "key_cursor \<noteq> key_line"
  "key_cursor \<noteq> key_mode"
  "key_cursor \<noteq> key_mtime"
  "key_scroll \<noteq> key_protected"
  "key_scroll \<noteq> key_timestamp"
  "key_scroll \<noteq> key_viewState"
  "key_scroll \<noteq> key_file"
  "key_scroll \<noteq> key_cursor"
  "key_scroll \<noteq> key_start"
  "key_scroll \<noteq> key_end"
  "key_scroll \<noteq> key_col"
  "key_scroll \<noteq> key_line"
  "key_scroll \<noteq> key_mode"
  "key_scroll \<noteq> key_mtime"
  "key_start \<noteq> key_protected"
  "key_start \<noteq> key_timestamp"
  "key_start \<noteq> key_viewState"
  "key_start \<noteq> key_file"
  "key_start \<noteq> key_cursor"
  "key_start \<noteq> key_scroll"
  "key_start \<noteq> key_end"
  "key_start \<noteq> key_col"
  "key_start \<noteq> key_line"
  "key_start \<noteq> key_mode"
  "key_start \<noteq> key_mtime"
  "key_end \<noteq> key_protected"
  "key_end \<noteq> key_timestamp"
  "key_end \<noteq> key_viewState"
  "key_end \<noteq> key_file"
  "key_end \<noteq> key_cursor"
  "key_end \<noteq> key_scroll"
  "key_end \<noteq> key_start"
  "key_end \<noteq> key_col"
  "key_end \<noteq> key_line"
  "key_end \<noteq> key_mode"
  "key_end \<noteq> key_mtime"
  "key_col \<noteq> key_protected"
  "key_col \<noteq> key_timestamp"
  "key_col \<noteq> key_viewState"
  "key_col \<noteq> key_file"
  "key_col \<noteq> key_cursor"
  "key_col \<noteq> key_scroll"
  "key_col \<noteq> key_start"
  "key_col \<noteq> key_end"
  "key_col \<noteq> key_line"
  "key_col \<noteq> key_mode"
  "key_col \<noteq> key_mtime"
  "key_line \<noteq> key_protected"
  "key_line \<noteq> key_timestamp"
  "key_line \<noteq> key_viewState"
  "key_line \<noteq> key_file"
  "key_line \<noteq> key_cursor"
  "key_line \<noteq> key_scroll"
  "key_line \<noteq> key_start"
  "key_line \<noteq> key_end"
  "key_line \<noteq> key_col"
  "key_line \<noteq> key_mode"
  "key_line \<noteq> key_mtime"
  "key_mode \<noteq> key_protected"
  "key_mode \<noteq> key_timestamp"
  "key_mode \<noteq> key_viewState"
  "key_mode \<noteq> key_file"
  "key_mode \<noteq> key_cursor"
  "key_mode \<noteq> key_scroll"
  "key_mode \<noteq> key_start"
  "key_mode \<noteq> key_end"
  "key_mode \<noteq> key_col"
  "key_mode \<noteq> key_line"
  "key_mode \<noteq> key_mtime"
  "key_mtime \<noteq> key_protected"
  "key_mtime \<noteq> key_timestamp"
  "key_mtime \<noteq> key_viewState"
  "key_mtime \<noteq> key_file"
  "key_mtime \<noteq> key_cursor"
  "key_mtime \<noteq> key_scroll"
  "key_mtime \<noteq> key_start"
  "key_mtime \<noteq> key_end"
  "key_mtime \<noteq> key_col"
  "key_mtime \<noteq> key_line"
  "key_mtime \<noteq> key_mode"
  by (simp_all add: key_protected_def key_timestamp_def key_viewState_def key_file_def
      key_cursor_def key_scroll_def key_start_def key_end_def key_col_def key_line_def
      key_mode_def key_mtime_def js_def)

lemma prop_of_JObj: "prop_of (JObj ps) k = (case map_of ps k of None \<Rightarrow> JUndefined | Some x \<Rightarrow> x)"
  by (simp add: prop_of_def)

lemma prop_of_update:
  "prop_of (JObj (AList.update k x ps)) k' = (if k' = k then x else prop_of (JObj ps) k')"
  by (simp add: prop_of_def update_conv')

lemma prop_of_own_props: "prop_of (JObj (own_props v)) k = prop_of v k"
  by (simp add: prop_of_def)

lemma map_of_to_json_props_None:
  "map_of ps k = None \<Longrightarrow> map_of (to_json_props ps) k = None"
  by (induction ps) (auto split: option.splits if_splits)

lemma map_of_to_json_props_Some:
  "map_of ps k = Some v \<Longrightarrow> to_json v = Some j \<Longrightarrow> map_of (to_json_props ps) k = Some j"
  by (induction ps) (auto split: option.splits if_splits)

lemma to_json_is_json:
  "(to_json v = Some j \<longrightarrow> is_json j)"
  "is_json_elems (to_json_elems xs)"
  "is_json_props (to_json_props ps)"
  by (induction v and xs and ps arbitrary: j rule: to_json_to_json_elems_to_json_props.induct)
     (auto split: option.splits jsnum.splits)

lemma is_json_to_json:
  "(is_json v \<longrightarrow> to_json v = Some v)"
  "(is_json_elems xs \<longrightarrow> to_json_elems xs = xs)"
  "(is_json_props ps \<longrightarrow> to_json_props ps = ps)"
  by (induction v and xs and ps rule: to_json_to_json_elems_to_json_props.induct)
     (auto split: option.splits jsnum.splits)

lemma map_of_assign:
  "map_of (assign t s) k = (case map_of s k of None \<Rightarrow> map_of t k | Some v \<Rightarrow> Some v)"
proof -
  have a: "map_of (map (\<lambda>(k, v). (k, case map_of s k of None \<Rightarrow> v | Some v' \<Rightarrow> v')) t) k
        = (case map_of t k of None \<Rightarrow> None | Some v \<Rightarrow> Some (case map_of s k of None \<Rightarrow> v | Some v' \<Rightarrow> v'))"
    by (induction t) (auto split: option.splits)
  have b: "map_of (filter (\<lambda>(k, v). map_of t k = None) s) k
        = (if map_of t k = None then map_of s k else None)"
    by (induction s) (auto split: option.splits)
  show ?thesis
    unfolding assign_def by (simp add: map_add_def a b split: option.splits)
qed

section \<open>\<open>writeFileState\<close>\<close>

lemma stateToSave_JObj: "\<exists>ps. stateToSave state = JObj ps"
  by (simp add: stateToSave_def Let_def)

lemma stateToSave_protected:
  "prop_of (stateToSave state) key_protected = JBool (prop_of state key_protected = JBool True)"
  by (cases "prop_of state key_protected")
     (auto simp: stateToSave_def Let_def prop_of_update prop_of_own_props)

lemma stateToSave_timestamp:
  "prop_of (stateToSave state) key_timestamp =
     (case prop_of state key_timestamp of JNum n \<Rightarrow> JNum n | _ \<Rightarrow> JNull)"
  by (cases "prop_of state key_timestamp")
     (auto simp: stateToSave_def Let_def prop_of_update prop_of_own_props)

lemma stateToSave_other:
  "k \<noteq> key_protected \<Longrightarrow> k \<noteq> key_timestamp \<Longrightarrow>
   map_of (own_props (stateToSave state)) k = map_of (own_props state) k"
  by (auto simp: stateToSave_def Let_def update_conv')

lemma prop_of_Some: "prop_of v k \<noteq> JUndefined \<Longrightarrow> map_of (own_props v) k = Some (prop_of v k)"
  by (auto simp: prop_of_def split: option.splits)

lemma to_json_Some_defined: "to_json v = Some j \<Longrightarrow> v \<noteq> JUndefined"
  by auto

lemma writeFileState_files:
  assumes "\<not> rejects w OpExists (dbDir w)" "\<not> rejects w OpMkdir (dbDir w)"
    "\<not> rejects w OpWrite (getDbFilePath (dbDir w) filePath)"
  shows "files (writeFileState w filePath state) =
         AList.update (getDbFilePath (dbDir w) filePath) (JSON_stringify (stateToSave state)) (files w)"
  using assms
  by (simp add: writeFileState_def adapter_exists_def adapter_mkdir_def adapter_write_def Let_def)

text \<open>
  C6. When the adapter accepts the calls, the record that \<open>writeFileState\<close> leaves at
  the derived location is JSON for an object whose \<open>protected\<close> is a boolean (the
  input's when that is a boolean, else \<open>false\<close>) and whose \<open>timestamp\<close> is a number or
  \<open>null\<close> (the input's when that is a finite number, else \<open>null\<close>); every other property
  of the input is serialised as it is, no property is added, the text depends on the input
  alone (a full overwrite), and no other file changes.
\<close>

theorem writeFileState_storage_invariant:
  assumes "\<not> rejects w OpExists (dbDir w)" "\<not> rejects w OpMkdir (dbDir w)"
    "\<not> rejects w OpWrite (getDbFilePath (dbDir w) filePath)"
  shows "\<exists>ps. map_of (files (writeFileState w filePath state)) (getDbFilePath (dbDir w) filePath)
             = Some (Json (JObj ps))
     \<and> Json (JObj ps) = JSON_stringify (stateToSave state)
     \<and> map_of ps key_protected = Some (JBool (prop_of state key_protected = JBool True))
     \<and> map_of ps key_timestamp
          = Some (case prop_of state key_timestamp of JNum (Fin r) \<Rightarrow> JNum (Fin r) | _ \<Rightarrow> JNull)
     \<and> (\<forall>k j. k \<noteq> key_protected \<and> k \<noteq> key_timestamp \<and> to_json (prop_of state k) = Some j
            \<longrightarrow> map_of ps k = Some j)
     \<and> (\<forall>k. k \<noteq> key_protected \<and> k \<noteq> key_timestamp \<and> map_of (own_props state) k = None
            \<longrightarrow> map_of ps k = None)
     \<and> (\<forall>q. q \<noteq> getDbFilePath (dbDir w) filePath
            \<longrightarrow> map_of (files (writeFileState w filePath state)) q = map_of (files w) q)"
proof -
  obtain qs where qs: "stateToSave state = JObj qs"
    using stateToSave_JObj by blast
  let ?ps = "to_json_props qs"
  have str: "JSON_stringify (stateToSave state) = Json (JObj ?ps)"
    by (simp add: JSON_stringify_def qs)
  have fl: "files (writeFileState w filePath state) =
         AList.update (getDbFilePath (dbDir w) filePath) (Json (JObj ?ps)) (files w)"
    using writeFileState_files [OF assms] str by simp
  have p: "map_of qs key_protected = Some (JBool (prop_of state key_protected = JBool True))"
    using stateToSave_protected [of state] qs prop_of_Some [of "JObj qs" key_protected] by simp
  have t: "map_of qs key_timestamp =
       Some (case prop_of state key_timestamp of JNum n \<Rightarrow> JNum n | _ \<Rightarrow> JNull)"
    using stateToSave_timestamp [of state] qs prop_of_Some [of "JObj qs" key_timestamp]
    by (auto split: jsval.splits)
  have c1: "map_of ?ps key_protected = Some (JBool (prop_of state key_protected = JBool True))"
    by (rule map_of_to_json_props_Some [OF p]) simp
  have c2: "map_of ?ps key_timestamp
          = Some (case prop_of state key_timestamp of JNum (Fin r) \<Rightarrow> JNum (Fin r) | _ \<Rightarrow> JNull)"
    by (rule map_of_to_json_props_Some [OF t]) (auto split: jsval.splits jsnum.splits)
  have c3: "map_of ?ps k = Some j"
    if "k \<noteq> key_protected" "k \<noteq> key_timestamp" "to_json (prop_of state k) = Some j" for k j
  proof -
    have "prop_of state k \<noteq> JUndefined" using that(3) by auto
    then have "map_of (own_props state) k = Some (prop_of state k)" by (rule prop_of_Some)
    then have "map_of qs k = Some (prop_of state k)"
      using stateToSave_other [OF that(1,2), of state] qs by simp
    then show ?thesis using that(3) by (rule map_of_to_json_props_Some)
  qed
  have c4: "map_of ?ps k = None"
    if "k \<noteq> key_protected" "k \<noteq> key_timestamp" "map_of (own_props state) k = None" for k
  proof -
    have "map_of qs k = None"
      using stateToSave_other [OF that(1,2), of state] qs that(3) by simp
    then show ?thesis by (rule map_of_to_json_props_None)
  qed
  have c5: "map_of (files (writeFileState w filePath state)) q = map_of (files w) q"
    if "q \<noteq> getDbFilePath (dbDir w) filePath" for q
    using that by (simp add: fl update_conv')
  have c0: "map_of (files (writeFileState w filePath state)) (getDbFilePath (dbDir w) filePath)
             = Some (Json (JObj ?ps))"
    by (simp add: fl update_conv')
  show ?thesis
    using c0 str c1 c2 c3 c4 c5 by (intro exI [of _ ?ps]) simp
qed

theorem writeFileState_storage_invariant_witness:
  "\<exists>ps. map_of (files (writeFileState world0 (js ''a.md'')
                 (JObj [(key_scroll, JNum (Fin 5)), (key_protected, JStr (js ''yes''))])))
            (getDbFilePath (js ''db'') (js ''a.md'')) = Some (Json (JObj ps))
     \<and> map_of ps key_protected = Some (JBool False)
     \<and> map_of ps key_timestamp = Some JNull
     \<and> map_of ps key_scroll = Some (JNum (Fin 5))"
proof -
  let ?s = "JObj [(key_scroll, JNum (Fin 5)), (key_protected, JStr (js ''yes''))]"
  have h: "\<not> rejects world0 OpExists (dbDir world0)" "\<not> rejects world0 OpMkdir (dbDir world0)"
    "\<not> rejects world0 OpWrite (getDbFilePath (dbDir world0) (js ''a.md''))"
    by (simp_all add: world0_def)
  have d: "dbDir world0 = js ''db''" by (simp add: world0_def)
  have v: "prop_of ?s key_protected = JStr (js ''yes'')" "prop_of ?s key_timestamp = JUndefined"
    "prop_of ?s key_scroll = JNum (Fin 5)"
    by (simp_all add: prop_of_def)
  from writeFileState_storage_invariant [OF h, of ?s]
  obtain ps where ps:
    "map_of (files (writeFileState world0 (js ''a.md'') ?s)) (getDbFilePath (dbDir world0) (js ''a.md''))
       = Some (Json (JObj ps))"
    "map_of ps key_protected = Some (JBool (prop_of ?s key_protected = JBool True))"
    "map_of ps key_timestamp
          = Some (case prop_of ?s key_timestamp of JNum (Fin r) \<Rightarrow> JNum (Fin r) | _ \<Rightarrow> JNull)"
    "\<forall>k j. k \<noteq> key_protected \<and> k \<noteq> key_timestamp \<and> to_json (prop_of ?s k) = Some j
            \<longrightarrow> map_of ps k = Some j"
    by blast
  have "map_of ps key_scroll = Some (JNum (Fin 5))"
    using ps(4) v(3) by simp
  with ps(1-3) v d show ?thesis by (intro exI [of _ ps]) (simp add: js_def)
qed

section \<open>\<open>readFileState\<close>\<close>

lemma isObject_JObj [simp]: "isObject (JObj ps)"
  by (simp add: isObject_def)

lemma ensureLockDefaults_JObj: "\<exists>qs. fst (ensureLockDefaults (JObj ps)) = JObj qs"
  by (simp add: ensureLockDefaults_def Let_def split: prod.splits if_splits)

lemma ensureLockDefaults_other:
  "k \<noteq> key_protected \<Longrightarrow> k \<noteq> key_timestamp \<Longrightarrow>
   prop_of (fst (ensureLockDefaults (JObj ps))) k = prop_of (JObj ps) k"
  by (simp add: ensureLockDefaults_def Let_def prop_of_update split: prod.splits if_splits)

lemma ensureLockDefaults_protected:
  "prop_of (fst (ensureLockDefaults (JObj ps))) key_protected
     = JBool (prop_of (JObj ps) key_protected = JBool True)"
  by (cases "prop_of (JObj ps) key_protected")
     (auto simp: ensureLockDefaults_def Let_def prop_of_update split: prod.splits if_splits)

lemma ensureLockDefaults_timestamp:
  "prop_of (fst (ensureLockDefaults (JObj ps))) key_timestamp
     = (case prop_of (JObj ps) key_timestamp of JNum n \<Rightarrow> JNum n | _ \<Rightarrow> JNull)"
  by (cases "prop_of (JObj ps) key_timestamp")
     (auto simp: ensureLockDefaults_def Let_def prop_of_update split: prod.splits if_splits)

lemma ensureLockDefaults_unchanged:
  "\<not> snd (ensureLockDefaults v) \<Longrightarrow> fst (ensureLockDefaults v) = v"
  by (auto simp: ensureLockDefaults_def Let_def split: prod.splits if_splits)

lemma validateViewStateFile_mismatch:
  assumes "prop_of (JObj qs) key_viewState = JObj vs" "prop_of (JObj vs) key_file = JStr f" "f \<noteq> p"
  shows "\<not> validateViewStateFile (JObj qs) p"
  using assms by (simp add: validateViewStateFile_def isParsedStateMinimal_def Let_def)

text \<open>
  C2. When the record stored for \<open>path\<close> parses to an object whose \<open>viewState\<close> is an
  object with a string \<open>file\<close> different from \<open>path\<close>, and the adapter accepts the calls,
  \<open>readFileState\<close> returns the record with \<open>viewState.file\<close> set to \<open>path\<close>, having
  written its JSON text to the derived location: the stored copy has \<open>viewState.file\<close> equal
  to \<open>path\<close> too. The other properties of \<open>viewState\<close> and of the record are kept (the
  lock fields get their defaults). Nothing is assumed about \<open>flashing\<close>: the branch returns
  the record also while the signal is active.
\<close>

theorem readFileState_corrects_path:
  assumes "map_of (files w) (getDbFilePath (dbDir w) path) = Some (Json (JObj ps))"
    and "prop_of (JObj ps) key_viewState = JObj vs"
    and "prop_of (JObj vs) key_file = JStr f" and "f \<noteq> path"
    and "\<not> rejects w OpExists (getDbFilePath (dbDir w) path)"
    and "\<not> rejects w OpRead (getDbFilePath (dbDir w) path)"
    and "\<not> rejects w OpWrite (getDbFilePath (dbDir w) path)"
  shows "\<exists>r j. readFileState w path
           = (w\<lparr>files := AList.update (getDbFilePath (dbDir w) path) (Json j) (files w)\<rparr>, r)
     \<and> JSON_stringify r = Json j
     \<and> prop_of r key_viewState = JObj (AList.update key_file (JStr path) vs)
     \<and> prop_of (prop_of r key_viewState) key_file = JStr path
     \<and> prop_of (prop_of j key_viewState) key_file = JStr path
     \<and> (\<forall>k. k \<noteq> key_viewState \<and> k \<noteq> key_protected \<and> k \<noteq> key_timestamp
            \<longrightarrow> prop_of r k = prop_of (JObj ps) k)"
proof -
  let ?db = "getDbFilePath (dbDir w) path"
  obtain qs where qs: "fst (ensureLockDefaults (JObj ps)) = JObj qs"
    using ensureLockDefaults_JObj by blast
  obtain c where eld: "ensureLockDefaults (JObj ps) = (JObj qs, c)"
    using qs by (cases "ensureLockDefaults (JObj ps)") simp
  have vs: "prop_of (JObj qs) key_viewState = JObj vs"
    using ensureLockDefaults_other [of key_viewState ps] qs assms(2) by simp
  have bad: "\<not> validateViewStateFile (JObj qs) path"
    using vs assms(3,4) by (rule validateViewStateFile_mismatch)
  let ?r = "JObj (AList.update key_viewState (JObj (AList.update key_file (JStr path) vs)) qs)"
  let ?j = "JObj (to_json_props (AList.update key_viewState (JObj (AList.update key_file (JStr path) vs)) qs))"
  have str: "JSON_stringify ?r = Json ?j"
    by (simp add: JSON_stringify_def)
  have rd: "readFileState w path = (w\<lparr>files := AList.update ?db (Json ?j) (files w)\<rparr>, ?r)"
    using assms(1,5,6,7) eld bad vs str
    by (simp add: readFileState_def readFileState_try_def adapter_exists_def adapter_read_def
        adapter_write_def JSON_parse_def Let_def)
  have r1: "prop_of ?r key_viewState = JObj (AList.update key_file (JStr path) vs)"
    by (simp add: prop_of_update)
  have r2: "prop_of (prop_of ?r key_viewState) key_file = JStr path"
    by (simp add: prop_of_update)
  have j0: "map_of (to_json_props (AList.update key_viewState (JObj (AList.update key_file (JStr path) vs)) qs))
             key_viewState = Some (JObj (to_json_props (AList.update key_file (JStr path) vs)))"
    by (rule map_of_to_json_props_Some [where v = "JObj (AList.update key_file (JStr path) vs)"])
       (simp_all add: update_conv')
  have j1: "map_of (to_json_props (AList.update key_file (JStr path) vs)) key_file = Some (JStr path)"
    by (rule map_of_to_json_props_Some [where v = "JStr path"]) (simp_all add: update_conv')
  have r3: "prop_of (prop_of ?j key_viewState) key_file = JStr path"
    by (simp add: prop_of_def j0 j1)
  have r4: "prop_of ?r k = prop_of (JObj ps) k"
    if "k \<noteq> key_viewState \<and> k \<noteq> key_protected \<and> k \<noteq> key_timestamp" for k
    using that ensureLockDefaults_other [of k ps] qs by (simp add: prop_of_update)
  show ?thesis
    using rd str r1 r2 r3 r4 by blast
qed

theorem readFileState_corrects_path_witness:
  "flashing world_wrong_path \<and>
   (\<exists>r j. readFileState world_wrong_path (js ''correct.md'')
           = (world_wrong_path\<lparr>files :=
                AList.update (getDbFilePath (dbDir world_wrong_path) (js ''correct.md'')) (Json j)
                  (files world_wrong_path)\<rparr>, r)
     \<and> prop_of (prop_of r key_viewState) key_file = JStr (js ''correct.md'')
     \<and> prop_of (prop_of j key_viewState) key_file = JStr (js ''correct.md'')
     \<and> prop_of r key_cursor = JNum (Fin 3))"
proof -
  let ?ps = "[(key_cursor, JNum (Fin 3)),
              (key_viewState, JObj [(key_file, JStr (js ''wrong/path.md''))])]"
  have h1: "map_of (files world_wrong_path) (getDbFilePath (dbDir world_wrong_path) (js ''correct.md''))
            = Some (Json (JObj ?ps))"
    by (simp add: world_wrong_path_def world0_def)
  have h2: "prop_of (JObj ?ps) key_viewState = JObj [(key_file, JStr (js ''wrong/path.md''))]"
    by (simp add: prop_of_def)
  have h3: "prop_of (JObj [(key_file, JStr (js ''wrong/path.md''))]) key_file = JStr (js ''wrong/path.md'')"
    by (simp add: prop_of_def)
  have h4: "js ''wrong/path.md'' \<noteq> js ''correct.md''"
    by (simp add: js_def)
  have h5: "\<not> rejects world_wrong_path OpExists (getDbFilePath (dbDir world_wrong_path) (js ''correct.md''))"
    "\<not> rejects world_wrong_path OpRead (getDbFilePath (dbDir world_wrong_path) (js ''correct.md''))"
    "\<not> rejects world_wrong_path OpWrite (getDbFilePath (dbDir world_wrong_path) (js ''correct.md''))"
    by (simp_all add: world_wrong_path_def world0_def)
  have c: "prop_of (JObj ?ps) key_cursor = JNum (Fin 3)"
    by (simp add: prop_of_def)
  have f: "flashing world_wrong_path"
    by (simp add: world_wrong_path_def world0_def)
  from readFileState_corrects_path [OF h1 h2 h3 h4 h5]
  obtain r j where rj:
    "readFileState world_wrong_path (js ''correct.md'')
           = (world_wrong_path\<lparr>files :=
                AList.update (getDbFilePath (dbDir world_wrong_path) (js ''correct.md'')) (Json j)
                  (files world_wrong_path)\<rparr>, r)"
    "prop_of (prop_of r key_viewState) key_file = JStr (js ''correct.md'')"
    "prop_of (prop_of j key_viewState) key_file = JStr (js ''correct.md'')"
    "\<forall>k. k \<noteq> key_viewState \<and> k \<noteq> key_protected \<and> k \<noteq> key_timestamp
            \<longrightarrow> prop_of r k = prop_of (JObj ?ps) k"
    by blast
  have "prop_of r key_cursor = JNum (Fin 3)"
    using rj(4) c by simp
  with rj(1-3) f show ?thesis by blast
qed

section \<open>\<open>TemporaryStatesSame\<close> and \<open>performStateCheck\<close>\<close>

lemma isEmptyState_JObj:
  "isEmptyState (JObj ps) =
     (\<not> truthy (prop_of (JObj ps) key_cursor) \<and> \<not> truthy (prop_of (JObj ps) key_scroll)
      \<and> \<not> truthy (prop_of (JObj ps) key_viewState))"
  by (cases ps) (auto simp: isEmptyState_def prop_of_def)

lemma TemporaryStatesSame_cong:
  assumes "truthy a = truthy a'" "isEmptyState a = isEmptyState a'"
    "prop_of a key_cursor = prop_of a' key_cursor"
    "truthy (prop_of a key_scroll) = truthy (prop_of a' key_scroll)"
    "truthy (prop_of a key_scroll) \<Longrightarrow> prop_of a key_scroll = prop_of a' key_scroll"
    "to_json (prop_of a key_viewState) = to_json (prop_of a' key_viewState)"
    "truthy b = truthy b'" "isEmptyState b = isEmptyState b'"
    "prop_of b key_cursor = prop_of b' key_cursor"
    "truthy (prop_of b key_scroll) = truthy (prop_of b' key_scroll)"
    "truthy (prop_of b key_scroll) \<Longrightarrow> prop_of b key_scroll = prop_of b' key_scroll"
    "to_json (prop_of b key_viewState) = to_json (prop_of b' key_viewState)"
  shows "TemporaryStatesSame a b = TemporaryStatesSame a' b'"
proof (cases "truthy (prop_of a key_scroll) \<and> truthy (prop_of b key_scroll)")
  case True
  then have "prop_of a key_scroll = prop_of a' key_scroll" "prop_of b key_scroll = prop_of b' key_scroll"
    using assms(5,11) by simp_all
  then show ?thesis
    unfolding TemporaryStatesSame_def Let_def
    using assms(1-4,6-10,12) by auto
next
  case False
  then show ?thesis
    unfolding TemporaryStatesSame_def Let_def
    using assms(1-4,6-10,12) by auto
qed

lemma map_of_without_lock:
  "k \<noteq> key_protected \<Longrightarrow> k \<noteq> key_timestamp \<Longrightarrow> map_of (without_lock ps) k = map_of ps k"
  by (simp add: without_lock_def delete_conv')

lemma prop_of_without_lock:
  assumes "without_lock ps = without_lock qs" "k \<noteq> key_protected" "k \<noteq> key_timestamp"
  shows "prop_of (JObj ps) k = prop_of (JObj qs) k"
proof -
  have "map_of ps k = map_of qs k"
    using map_of_without_lock [OF assms(2,3), of ps] map_of_without_lock [OF assms(2,3), of qs] assms(1)
    by simp
  then show ?thesis by (simp add: prop_of_def)
qed

lemma TemporaryStatesSame_lock_fields:
  assumes "without_lock as' = without_lock as" "without_lock bs' = without_lock bs"
  shows "TemporaryStatesSame (JObj as') (JObj bs') = TemporaryStatesSame (JObj as) (JObj bs)"
proof -
  have a: "prop_of (JObj as') k = prop_of (JObj as) k"
    if "k \<noteq> key_protected" "k \<noteq> key_timestamp" for k
    using prop_of_without_lock [OF assms(1) that] .
  have b: "prop_of (JObj bs') k = prop_of (JObj bs) k"
    if "k \<noteq> key_protected" "k \<noteq> key_timestamp" for k
    using prop_of_without_lock [OF assms(2) that] .
  show ?thesis
    by (rule TemporaryStatesSame_cong) (simp_all add: isEmptyState_JObj a b)
qed

lemma prop_of_no_props [simp]: "own_props a = [] \<Longrightarrow> prop_of a k = JUndefined"
  by (simp add: prop_of_def)

lemma falsy_no_props: "\<not> truthy a \<Longrightarrow> own_props a = []"
  by (cases a) (auto simp: indexed_def)

lemma member_of_position:
  "is_cursor c \<Longrightarrow> (a = key_start \<or> a = key_end) \<Longrightarrow> (b = key_col \<or> b = key_line) \<Longrightarrow>
   \<exists>x. member_of c a b = Inr (JNum (Fin x))"
  by (auto simp: is_cursor_def is_position_def member_of_def Let_def
      split: jsval.splits jsnum.splits)

lemma members_differ_typed:
  assumes "is_cursor c" "is_cursor d" "a = key_start \<or> a = key_end" "b = key_col \<or> b = key_line"
  shows "\<exists>x. members_differ c d a b = Inr x"
proof -
  obtain x where x: "member_of c a b = Inr (JNum (Fin x))"
    using member_of_position [OF assms(1,3,4)] by blast
  obtain y where y: "member_of d a b = Inr (JNum (Fin y))"
    using member_of_position [OF assms(2,3,4)] by blast
  show ?thesis by (simp add: members_differ_def x y)
qed

lemma members_differ_refl:
  assumes "is_cursor c" "a = key_start \<or> a = key_end" "b = key_col \<or> b = key_line"
  shows "members_differ c c a b = Inr False"
proof -
  obtain x where x: "member_of c a b = Inr (JNum (Fin x))"
    using member_of_position [OF assms] by blast
  show ?thesis by (simp add: members_differ_def x)
qed

lemma cursors_differ_typed:
  assumes "is_cursor c" "is_cursor d"
  shows "\<exists>x. cursors_differ c d = Inr x"
proof -
  obtain x1 where x1: "members_differ c d key_start key_col = Inr x1"
    using members_differ_typed [OF assms] by blast
  obtain x2 where x2: "members_differ c d key_start key_line = Inr x2"
    using members_differ_typed [OF assms] by blast
  obtain x3 where x3: "members_differ c d key_end key_col = Inr x3"
    using members_differ_typed [OF assms] by blast
  obtain x4 where x4: "members_differ c d key_end key_line = Inr x4"
    using members_differ_typed [OF assms] by blast
  show ?thesis
    by (auto simp: cursors_differ_def x1 x2 x3 x4 split: bool.splits)
qed

lemma cursors_differ_refl: "is_cursor c \<Longrightarrow> cursors_differ c c = Inr False"
  by (simp add: cursors_differ_def members_differ_refl)

lemma is_cursor_truthy: "is_cursor c \<Longrightarrow> truthy c"
  by (auto simp: is_cursor_def split: jsval.splits)

lemma isTemporaryState_cursor:
  "isTemporaryState a \<Longrightarrow> truthy (prop_of a key_cursor) \<Longrightarrow> is_cursor (prop_of a key_cursor)"
  by (auto simp: isTemporaryState_def split: jsval.splits)

lemma isTemporaryState_scroll:
  "isTemporaryState a \<Longrightarrow> truthy (prop_of a key_scroll) \<Longrightarrow>
   \<exists>n. prop_of a key_scroll = JNum n \<and> n \<noteq> NaN"
  by (cases "prop_of a key_scroll") (auto simp: isTemporaryState_def split: jsval.splits)

lemma isTemporaryState_truthy: "isTemporaryState a \<Longrightarrow> truthy a"
  by (auto simp: isTemporaryState_def split: jsval.splits)

lemma TemporaryStatesSame_not_isl:
  assumes "isTemporaryState a" "isTemporaryState b"
  shows "\<not> isl (TemporaryStatesSame a b)"
proof (cases "truthy (prop_of a key_cursor)")
  case True
  note ta = True
  show ?thesis
  proof (cases "truthy (prop_of b key_cursor)")
    case True
    obtain x where x: "cursors_differ (prop_of a key_cursor) (prop_of b key_cursor) = Inr x"
      using cursors_differ_typed isTemporaryState_cursor assms ta True by blast
    show ?thesis
      unfolding TemporaryStatesSame_def Let_def x by (cases x) simp_all
  next
    case False
    show ?thesis
      unfolding TemporaryStatesSame_def Let_def using ta False by simp
  qed
next
  case False
  show ?thesis
    unfolding TemporaryStatesSame_def Let_def using False by simp
qed

lemma TemporaryStatesSame_total:
  assumes "isTemporaryState a" "isTemporaryState b"
  shows "\<exists>r. TemporaryStatesSame a b = Inr r"
  using TemporaryStatesSame_not_isl [OF assms] by (cases "TemporaryStatesSame a b") simp_all

lemma TemporaryStatesSame_refl:
  assumes "isTemporaryState a"
  shows "TemporaryStatesSame a a = Inr True"
proof -
  have t: "truthy a" using assms by (rule isTemporaryState_truthy)
  have c: "truthy (prop_of a key_cursor) \<Longrightarrow> cursors_differ (prop_of a key_cursor) (prop_of a key_cursor) = Inr False"
    using isTemporaryState_cursor [OF assms] cursors_differ_refl by blast
  have s: "truthy (prop_of a key_scroll) \<Longrightarrow> strict_eq (prop_of a key_scroll) (prop_of a key_scroll)"
    using isTemporaryState_scroll [OF assms] by auto
  show ?thesis
    using t c s by (auto simp: TemporaryStatesSame_def Let_def)
qed

lemma TemporaryStatesSame_True_iff:
  assumes "truthy a" "truthy b"
  shows "TemporaryStatesSame a b = Inr True \<longleftrightarrow>
     (isEmptyState a \<and> isEmptyState b)
     \<or> (\<not> isEmptyState a \<and> \<not> isEmptyState b
        \<and> truthy (prop_of a key_cursor) = truthy (prop_of b key_cursor)
        \<and> (truthy (prop_of a key_cursor)
             \<longrightarrow> cursors_differ (prop_of a key_cursor) (prop_of b key_cursor) = Inr False)
        \<and> truthy (prop_of a key_scroll) = truthy (prop_of b key_scroll)
        \<and> (truthy (prop_of a key_scroll)
             \<longrightarrow> strict_eq (prop_of a key_scroll) (prop_of b key_scroll))
        \<and> to_json (prop_of a key_viewState) = to_json (prop_of b key_viewState))"
proof (cases "cursors_differ (prop_of a key_cursor) (prop_of b key_cursor)")
  case (Inl e)
  then show ?thesis
    using assms unfolding TemporaryStatesSame_def Let_def by auto
next
  case (Inr d)
  then show ?thesis
    using assms unfolding TemporaryStatesSame_def Let_def by (cases d) auto
qed

lemma isEmptyState_scroll: "isEmptyState a \<Longrightarrow> \<not> truthy (prop_of a key_scroll)"
  by (auto simp: isEmptyState_def)

lemma TemporaryStatesSame_scroll_presence:
  assumes "isTemporaryState a" "isTemporaryState b"
    and "truthy (prop_of a key_scroll) \<noteq> truthy (prop_of b key_scroll)"
  shows "TemporaryStatesSame a b = Inr False"
proof -
  obtain r where r: "TemporaryStatesSame a b = Inr r"
    using TemporaryStatesSame_total [OF assms(1,2)] by blast
  have "\<not> r"
  proof
    assume r
    then have "TemporaryStatesSame a b = Inr True" using r by simp
    then show False
      using assms(3) isEmptyState_scroll [of a] isEmptyState_scroll [of b]
        TemporaryStatesSame_True_iff [OF isTemporaryState_truthy [OF assms(1)]
          isTemporaryState_truthy [OF assms(2)]]
      by blast
  qed
  then show ?thesis using r by simp
qed

lemma TemporaryStatesSame_scroll_equal:
  assumes "TemporaryStatesSame a b = Inr True"
    and "truthy (prop_of a key_scroll)" "truthy (prop_of b key_scroll)"
  shows "strict_eq (prop_of a key_scroll) (prop_of b key_scroll)"
proof -
  have ta: "truthy a"
    using assms(2) falsy_no_props [of a] by (cases "truthy a") simp_all
  have tb: "truthy b"
    using assms(3) falsy_no_props [of b] by (cases "truthy b") simp_all
  show ?thesis
    using assms TemporaryStatesSame_True_iff [OF ta tb]
      isEmptyState_scroll [of a] by blast
qed

lemma TemporaryStatesSame_scroll_unequal:
  assumes "isTemporaryState a" "isTemporaryState b"
    and "truthy (prop_of a key_scroll)" "truthy (prop_of b key_scroll)"
    and "\<not> strict_eq (prop_of a key_scroll) (prop_of b key_scroll)"
  shows "TemporaryStatesSame a b = Inr False"
proof -
  obtain r where r: "TemporaryStatesSame a b = Inr r"
    using TemporaryStatesSame_total [OF assms(1,2)] by blast
  have "\<not> r"
    using TemporaryStatesSame_scroll_equal [OF _ assms(3,4)] assms(5) r by (cases r) auto
  then show ?thesis using r by simp
qed

lemma prop_of_delete:
  "prop_of (JObj (AList.delete k ps)) k' = (if k' = k then JUndefined else prop_of (JObj ps) k')"
  by (simp add: prop_of_def delete_conv')

lemma isTemporaryState_delete_scroll:
  "isTemporaryState (JObj ps) \<Longrightarrow> isTemporaryState (JObj (AList.delete key_scroll ps))"
  by (simp add: isTemporaryState_def prop_of_delete)

lemma TemporaryStatesSame_scroll_zero_left:
  "TemporaryStatesSame (JObj (AList.update key_scroll (JNum (Fin 0)) ps)) b
     = TemporaryStatesSame (JObj (AList.delete key_scroll ps)) b"
  by (rule TemporaryStatesSame_cong)
     (simp_all add: isEmptyState_JObj prop_of_update prop_of_delete)

lemma TemporaryStatesSame_scroll_zero_right:
  "TemporaryStatesSame b (JObj (AList.update key_scroll (JNum (Fin 0)) ps))
     = TemporaryStatesSame b (JObj (AList.delete key_scroll ps))"
  by (rule TemporaryStatesSame_cong)
     (simp_all add: isEmptyState_JObj prop_of_update prop_of_delete)

text \<open>
  C5. For states \<open>a\<close> and \<open>b\<close> (objects of the interface \<open>TemporaryState\<close>):
  if exactly one of \<open>a.scroll\<close>, \<open>b.scroll\<close> is truthy the result is \<open>false\<close>; if both
  are truthy, the result \<open>true\<close> requires \<open>a.scroll === b.scroll\<close>, and the result is
  \<open>false\<close> when they differ; a scroll of exactly 0 is treated as an absent scroll, on
  either side; so a state with scroll 0 and the same state with no scroll compare as equal.
  The theorem needs no assumption that the states are non-empty.
\<close>

theorem TemporaryStatesSame_scroll_truthiness:
  assumes "isTemporaryState (JObj as)" "isTemporaryState (JObj bs)"
  shows "(truthy (prop_of (JObj as) key_scroll) \<noteq> truthy (prop_of (JObj bs) key_scroll)
            \<longrightarrow> TemporaryStatesSame (JObj as) (JObj bs) = Inr False)
     \<and> (truthy (prop_of (JObj as) key_scroll) \<and> truthy (prop_of (JObj bs) key_scroll)
            \<longrightarrow> (TemporaryStatesSame (JObj as) (JObj bs) = Inr True
                   \<longrightarrow> strict_eq (prop_of (JObj as) key_scroll) (prop_of (JObj bs) key_scroll))
              \<and> (\<not> strict_eq (prop_of (JObj as) key_scroll) (prop_of (JObj bs) key_scroll)
                   \<longrightarrow> TemporaryStatesSame (JObj as) (JObj bs) = Inr False))
     \<and> TemporaryStatesSame (JObj (AList.update key_scroll (JNum (Fin 0)) as)) (JObj bs)
         = TemporaryStatesSame (JObj (AList.delete key_scroll as)) (JObj bs)
     \<and> TemporaryStatesSame (JObj bs) (JObj (AList.update key_scroll (JNum (Fin 0)) as))
         = TemporaryStatesSame (JObj bs) (JObj (AList.delete key_scroll as))
     \<and> TemporaryStatesSame (JObj (AList.update key_scroll (JNum (Fin 0)) as))
           (JObj (AList.delete key_scroll as)) = Inr True"
proof -
  have 1: "truthy (prop_of (JObj as) key_scroll) \<noteq> truthy (prop_of (JObj bs) key_scroll)
            \<longrightarrow> TemporaryStatesSame (JObj as) (JObj bs) = Inr False"
    using TemporaryStatesSame_scroll_presence [OF assms] by blast
  have 2: "truthy (prop_of (JObj as) key_scroll) \<and> truthy (prop_of (JObj bs) key_scroll)
            \<longrightarrow> (TemporaryStatesSame (JObj as) (JObj bs) = Inr True
                   \<longrightarrow> strict_eq (prop_of (JObj as) key_scroll) (prop_of (JObj bs) key_scroll))
              \<and> (\<not> strict_eq (prop_of (JObj as) key_scroll) (prop_of (JObj bs) key_scroll)
                   \<longrightarrow> TemporaryStatesSame (JObj as) (JObj bs) = Inr False)"
    using TemporaryStatesSame_scroll_equal [of "JObj as" "JObj bs"]
      TemporaryStatesSame_scroll_unequal [OF assms] by blast
  have 5: "TemporaryStatesSame (JObj (AList.update key_scroll (JNum (Fin 0)) as))
           (JObj (AList.delete key_scroll as)) = Inr True"
    using TemporaryStatesSame_scroll_zero_left [of as "JObj (AList.delete key_scroll as)"]
      TemporaryStatesSame_refl [OF isTemporaryState_delete_scroll [OF assms(1)]] by simp
  show ?thesis
    using 1 2 5 TemporaryStatesSame_scroll_zero_left [of as "JObj bs"]
      TemporaryStatesSame_scroll_zero_right [of "JObj bs" as] by blast
qed

theorem TemporaryStatesSame_scroll_truthiness_witness:
  "TemporaryStatesSame (JObj [(key_viewState, JObj []), (key_scroll, JNum (Fin 5))])
      (JObj [(key_viewState, JObj [])]) = Inr False
   \<and> TemporaryStatesSame (JObj [(key_viewState, JObj []), (key_scroll, JNum (Fin 5))])
      (JObj [(key_viewState, JObj []), (key_scroll, JNum (Fin 7))]) = Inr False
   \<and> TemporaryStatesSame (JObj [(key_viewState, JObj []), (key_scroll, JNum (Fin 0))])
      (JObj [(key_viewState, JObj [])]) = Inr True"
proof -
  let ?a5 = "[(key_viewState, JObj []), (key_scroll, JNum (Fin 5))]"
  let ?a7 = "[(key_viewState, JObj []), (key_scroll, JNum (Fin 7))]"
  let ?b = "[(key_viewState, JObj [])]"
  have t: "isTemporaryState (JObj ?a5)" "isTemporaryState (JObj ?a7)" "isTemporaryState (JObj ?b)"
    by (simp_all add: isTemporaryState_def prop_of_def isObject_def)
  have s: "prop_of (JObj ?a5) key_scroll = JNum (Fin 5)" "prop_of (JObj ?a7) key_scroll = JNum (Fin 7)"
    "prop_of (JObj ?b) key_scroll = JUndefined"
    by (simp_all add: prop_of_def)
  have 1: "TemporaryStatesSame (JObj ?a5) (JObj ?b) = Inr False"
    using TemporaryStatesSame_scroll_truthiness [OF t(1) t(3)] s by simp
  have 2: "TemporaryStatesSame (JObj ?a5) (JObj ?a7) = Inr False"
    using TemporaryStatesSame_scroll_truthiness [OF t(1) t(2)] s by simp
  have u: "AList.update key_scroll (JNum (Fin 0)) ?b = [(key_viewState, JObj []), (key_scroll, JNum (Fin 0))]"
    "AList.delete key_scroll ?b = ?b"
    by simp_all
  have "TemporaryStatesSame (JObj (AList.update key_scroll (JNum (Fin 0)) ?b))
           (JObj (AList.delete key_scroll ?b)) = Inr True"
    using TemporaryStatesSame_scroll_truthiness [OF t(3) t(3)] by blast
  then have 3: "TemporaryStatesSame (JObj [(key_viewState, JObj []), (key_scroll, JNum (Fin 0))]) (JObj ?b) = Inr True"
    by (simp only: u)
  show ?thesis using 1 2 3 by simp
qed

text \<open>
  C9. When \<open>a'\<close> and \<open>b'\<close> come from \<open>a\<close> and \<open>b\<close> by adding, removing or altering
  \<open>protected\<close> and \<open>timestamp\<close> only, \<open>TemporaryStatesSame a' b'\<close> equals
  \<open>TemporaryStatesSame a b\<close>. In particular a state and its variant with other lock
  fields are judged the same, and \<open>performStateCheck\<close> starts no save when the capture
  differs from the last snapshot in lock fields only.
\<close>

theorem TemporaryStatesSame_ignores_lock_fields:
  assumes "without_lock as' = without_lock as" "without_lock bs' = without_lock bs"
  shows "TemporaryStatesSame (JObj as') (JObj bs') = TemporaryStatesSame (JObj as) (JObj bs)
     \<and> (isTemporaryState (JObj as)
          \<longrightarrow> TemporaryStatesSame (JObj as') (JObj as) = Inr True
            \<and> TemporaryStatesSame (JObj as) (JObj as') = Inr True)
     \<and> (isTemporaryState (JObj as) \<and> capture w = as' \<and> lastTemporaryState w = JObj as
          \<longrightarrow> snd (performStateCheck w) = Inr None)"
proof -
  have 1: "TemporaryStatesSame (JObj as') (JObj as) = TemporaryStatesSame (JObj as) (JObj as)"
    using assms(1) by (intro TemporaryStatesSame_lock_fields) simp_all
  have 2: "TemporaryStatesSame (JObj as) (JObj as') = TemporaryStatesSame (JObj as) (JObj as)"
    using assms(1) by (intro TemporaryStatesSame_lock_fields) simp_all
  have 3: "snd (performStateCheck w) = Inr None"
    if "isTemporaryState (JObj as)" "capture w = as'" "lastTemporaryState w = JObj as"
    using that 1 TemporaryStatesSame_refl [OF that(1)]
    by (simp add: performStateCheck_def Let_def)
  show ?thesis
    using TemporaryStatesSame_lock_fields [OF assms] 1 2 3 TemporaryStatesSame_refl [of "JObj as"]
    by auto
qed

theorem TemporaryStatesSame_ignores_lock_fields_witness:
  "TemporaryStatesSame
     (JObj [(key_protected, JBool True), (key_scroll, JNum (Fin 5)), (key_viewState, JObj []),
            (key_timestamp, JNum (Fin 1000))])
     (JObj [(key_scroll, JNum (Fin 5)), (key_viewState, JObj [])]) = Inr True
   \<and> snd (performStateCheck (world_editing\<lparr>capture :=
        [(key_protected, JBool True), (key_scroll, JNum (Fin 5)), (key_viewState, JObj []),
         (key_timestamp, JNum (Fin 1000))]\<rparr>)) = Inr None"
proof -
  let ?a = "[(key_scroll, JNum (Fin 5)), (key_viewState, JObj [])]"
  let ?a' = "[(key_protected, JBool True), (key_scroll, JNum (Fin 5)), (key_viewState, JObj []),
            (key_timestamp, JNum (Fin 1000))]"
  let ?w = "world_editing\<lparr>capture := ?a'\<rparr>"
  have h: "without_lock ?a' = without_lock ?a"
    by (simp add: without_lock_def)
  have t: "isTemporaryState (JObj ?a)"
    by (simp add: isTemporaryState_def prop_of_def isObject_def)
  have w: "capture ?w = ?a'" "lastTemporaryState ?w = JObj ?a"
    by (simp_all add: world_editing_def)
  show ?thesis
    using TemporaryStatesSame_ignores_lock_fields [OF h h, of ?w] t w by simp
qed

text \<open>
  C4. When the captured state is empty (it has no keys, or none of \<open>cursor\<close>, \<open>scroll\<close>,
  \<open>viewState\<close> is set), \<open>performStateCheck\<close> returns without calling
  \<open>saveTemporaryState\<close> and changes nothing; and when \<open>TemporaryStatesSame\<close> judges the
  capture equal to \<open>lastTemporaryState\<close>, it starts no save either.
\<close>

theorem performStateCheck_suppresses_save:
  "(capture w = []
      \<or> (\<not> truthy (prop_of (JObj (capture w)) key_cursor)
          \<and> \<not> truthy (prop_of (JObj (capture w)) key_scroll)
          \<and> \<not> truthy (prop_of (JObj (capture w)) key_viewState))
      \<longrightarrow> performStateCheck w = (w, Inr None))
   \<and> (TemporaryStatesSame (JObj (capture w)) (lastTemporaryState w) = Inr True
      \<longrightarrow> performStateCheck w = (w, Inr None))"
proof -
  have 1: "performStateCheck w = (w, Inr None)"
    if "capture w = []
      \<or> (\<not> truthy (prop_of (JObj (capture w)) key_cursor)
          \<and> \<not> truthy (prop_of (JObj (capture w)) key_scroll)
          \<and> \<not> truthy (prop_of (JObj (capture w)) key_viewState))"
  proof -
    have "isEmptyState (JObj (capture w))"
      using that by (auto simp: isEmptyState_def)
    then show ?thesis by (simp add: performStateCheck_def Let_def)
  qed
  have 2: "performStateCheck w = (w, Inr None)"
    if "TemporaryStatesSame (JObj (capture w)) (lastTemporaryState w) = Inr True"
  proof -
    have "truthy (lastTemporaryState w)"
      using that by (cases "truthy (lastTemporaryState w)") (simp_all add: TemporaryStatesSame_def)
    then show ?thesis using that by (simp add: performStateCheck_def Let_def)
  qed
  show ?thesis using 1 2 by blast
qed

theorem performStateCheck_suppresses_save_witness:
  "performStateCheck world_editing = (world_editing, Inr None)
   \<and> performStateCheck (world_editing\<lparr>capture := [(key_protected, JBool True)]\<rparr>)
       = (world_editing\<lparr>capture := [(key_protected, JBool True)]\<rparr>, Inr None)
   \<and> performStateCheck (world_editing\<lparr>capture :=
         [(key_scroll, JNum (Fin 5)), (key_viewState, JObj [])]\<rparr>)
       = (world_editing\<lparr>capture := [(key_scroll, JNum (Fin 5)), (key_viewState, JObj [])]\<rparr>,
          Inr None)"
proof -
  let ?c = "[(key_scroll, JNum (Fin 5)), (key_viewState, JObj [])]"
  have 1: "capture world_editing = []"
    by (simp add: world_editing_def world0_def)
  have 2: "\<not> truthy (prop_of (JObj (capture (world_editing\<lparr>capture := [(key_protected, JBool True)]\<rparr>))) key_cursor)
      \<and> \<not> truthy (prop_of (JObj (capture (world_editing\<lparr>capture := [(key_protected, JBool True)]\<rparr>))) key_scroll)
      \<and> \<not> truthy (prop_of (JObj (capture (world_editing\<lparr>capture := [(key_protected, JBool True)]\<rparr>))) key_viewState)"
    by (simp add: prop_of_def)
  have t: "isTemporaryState (JObj ?c)"
    by (simp add: isTemporaryState_def prop_of_def isObject_def)
  have 3: "TemporaryStatesSame (JObj (capture (world_editing\<lparr>capture := ?c\<rparr>)))
             (lastTemporaryState (world_editing\<lparr>capture := ?c\<rparr>)) = Inr True"
    using TemporaryStatesSame_refl [OF t] by (simp add: world_editing_def)
  show ?thesis
    using performStateCheck_suppresses_save [of world_editing] 1
      performStateCheck_suppresses_save [of "world_editing\<lparr>capture := [(key_protected, JBool True)]\<rparr>"] 2
      performStateCheck_suppresses_save [of "world_editing\<lparr>capture := ?c\<rparr>"] 3
    by blast
qed

section \<open>What \<open>readFileState\<close> returns\<close>

lemma decimal_digits: "list_all (\<lambda>c. 48 \<le> unat c \<and> unat c \<le> 57) (decimal n)"
proof (induction n rule: decimal.induct)
  case (1 n)
  have d: "48 \<le> unat (of_nat (48 + m) :: 16 word) \<and> unat (of_nat (48 + m) :: 16 word) \<le> 57"
    if "m < 10" for m
    using that by (simp add: unat_of_nat del: of_nat_add)
  show ?case
  proof (cases "n < 10")
    case True
    then show ?thesis using d [of n] by (subst decimal.simps) simp
  next
    case False
    then have "list_all (\<lambda>c. 48 \<le> unat c \<and> unat c \<le> 57) (decimal (n div 10))" by (rule "1.IH")
    with False show ?thesis using d [of "n mod 10"] by (subst decimal.simps) simp
  qed
qed

lemma map_of_indexed_named:
  assumes "\<not> list_all (\<lambda>c. 48 \<le> unat c \<and> unat c \<le> 57) k"
  shows "map_of (indexed xs) k = None"
proof -
  have "k \<notin> fst ` set (indexed xs)"
  proof
    assume "k \<in> fst ` set (indexed xs)"
    then obtain v where "(k, v) \<in> set (zip (map decimal [0..<length xs]) xs)"
      unfolding indexed_def by force
    then have "k \<in> set (map decimal [0..<length xs])" by (rule set_zip_leftD)
    then obtain i where "k = decimal i" by force
    then show False using assms decimal_digits [of i] by simp
  qed
  then show ?thesis by (simp add: map_of_eq_None_iff)
qed

lemma key_file_named: "\<not> list_all (\<lambda>c. 48 \<le> unat c \<and> unat c \<le> 57) key_file"
  by (simp add: key_file_def js_def)

lemma prop_of_JArr_file [simp]: "prop_of (JArr xs []) key_file = JUndefined"
  by (simp add: prop_of_def map_of_indexed_named [OF key_file_named])

lemma readFileState_absent:
  "map_of (files w) (getDbFilePath (dbDir w) p) = None \<Longrightarrow> readFileState w p = (w, JNull)"
  by (simp add: readFileState_def readFileState_try_def adapter_exists_def adapter_read_def Let_def)

lemma adapter_write_frame:
  "adapter_write w p t = Inr w' \<Longrightarrow> w' = w\<lparr>files := AList.update p t (files w)\<rparr>"
  by (auto simp: adapter_write_def split: if_splits)

lemma readFileState_try_frame:
  "readFileState_try w p = Inr (w', r) \<Longrightarrow> w' = w\<lparr>files := files w'\<rparr>"
  unfolding readFileState_try_def Let_def
  by (auto split: sum.splits prod.splits if_splits dest!: adapter_write_frame)

lemma readFileState_frame: "fst (readFileState w p) = w\<lparr>files := files (fst (readFileState w p))\<rparr>"
proof (cases "readFileState_try w p")
  case (Inl e)
  then show ?thesis by (simp add: readFileState_def)
next
  case (Inr x)
  then show ?thesis
    using readFileState_try_frame [of w p "fst x" "snd x"] by (simp add: readFileState_def)
qed

lemma isObject_truthy: "isObject v \<Longrightarrow> truthy v"
  by (cases v) (simp_all add: isObject_def)

lemma invalid_viewState_truthy:
  "\<not> validateViewStateFile pd p \<Longrightarrow> truthy (prop_of pd key_viewState)"
  by (auto simp: validateViewStateFile_def isParsedStateMinimal_def Let_def isObject_truthy
      split: if_splits)

lemma readFileState_rejected:
  "rejects w OpExists (getDbFilePath (dbDir w) p) \<or> rejects w OpRead (getDbFilePath (dbDir w) p)
   \<Longrightarrow> readFileState w p = (w, JNull)"
  by (auto simp: readFileState_def readFileState_try_def adapter_exists_def adapter_read_def Let_def)

lemma readFileState_unparsable:
  "map_of (files w) (getDbFilePath (dbDir w) p) = Some Unparsable \<Longrightarrow> readFileState w p = (w, JNull)"
  by (simp add: readFileState_def readFileState_try_def adapter_exists_def adapter_read_def
      JSON_parse_def Let_def)

lemma readFileState_present:
  assumes "map_of (files w) (getDbFilePath (dbDir w) p) = Some (Json parsed)"
    and "\<not> rejects w OpExists (getDbFilePath (dbDir w) p)"
    and "\<not> rejects w OpRead (getDbFilePath (dbDir w) p)"
  shows "readFileState w p =
     (let pd = fst (ensureLockDefaults parsed);
          cr = set_prop pd key_viewState (set_prop (prop_of pd key_viewState) key_file (JStr p))
      in if \<not> validateViewStateFile pd p then
           (if rejects w OpWrite (getDbFilePath (dbDir w) p) then (w, JNull)
            else (w\<lparr>files := AList.update (getDbFilePath (dbDir w) p) (JSON_stringify cr) (files w)\<rparr>, cr))
         else if flashing w then (w, JNull)
         else if snd (ensureLockDefaults parsed) then
           (if rejects w OpWrite (getDbFilePath (dbDir w) p) then (w, JNull)
            else (w\<lparr>files := AList.update (getDbFilePath (dbDir w) p) (JSON_stringify pd) (files w)\<rparr>, pd))
         else (w, pd))"
  using assms invalid_viewState_truthy [of "fst (ensureLockDefaults parsed)" p]
  by (simp add: readFileState_def readFileState_try_def adapter_exists_def adapter_read_def
      adapter_write_def JSON_parse_def Let_def case_prod_beta)

lemma is_json_props_update:
  "is_json_props ps \<Longrightarrow> is_json v \<Longrightarrow> is_json_props (AList.update k v ps)"
  by (induction ps) auto

lemma is_json_props_lookup:
  "is_json_props ps \<Longrightarrow> map_of ps k = Some v \<Longrightarrow> is_json v"
  by (induction ps) (auto split: if_splits)

lemma is_json_prop_of:
  "is_json_props ps \<Longrightarrow> prop_of (JObj ps) k \<noteq> JUndefined \<Longrightarrow> is_json (prop_of (JObj ps) k)"
  by (auto simp: prop_of_def split: option.splits dest: is_json_props_lookup)

lemma ensureLockDefaults_is_json:
  "is_json_props ps \<Longrightarrow> \<exists>qs. fst (ensureLockDefaults (JObj ps)) = JObj qs \<and> is_json_props qs"
  by (simp add: ensureLockDefaults_def Let_def is_json_props_update split: prod.splits if_splits)

lemma ensureLockDefaults_has_lock_fields:
  "has_lock_fields (fst (ensureLockDefaults (JObj ps)))"
  unfolding has_lock_fields_def ensureLockDefaults_protected ensureLockDefaults_timestamp
  by (cases "prop_of (JObj ps) key_timestamp") simp_all

lemma ensureLockDefaults_changed:
  "snd (ensureLockDefaults (JObj ps)) = (\<not> has_lock_fields (JObj ps))"
  by (auto simp: ensureLockDefaults_def has_lock_fields_def Let_def prop_of_update
      split: prod.splits if_splits)

lemma validateViewStateFile_viewState:
  "prop_of (JObj ps) key_viewState = prop_of (JObj qs) key_viewState \<Longrightarrow>
   validateViewStateFile (JObj ps) p = validateViewStateFile (JObj qs) p"
  by (simp add: validateViewStateFile_def isParsedStateMinimal_def Let_def)

lemma validateViewStateFile_corrected:
  assumes "prop_of (JObj qs) key_viewState = JObj vs" "prop_of (JObj vs) key_file = JStr p"
  shows "validateViewStateFile (JObj qs) p"
  using assms by (simp add: validateViewStateFile_def isParsedStateMinimal_def Let_def)

text \<open>In a JSON object that fails the check, \<open>viewState\<close> is a plain object.\<close>

lemma invalid_viewState_JObj:
  assumes "is_json_props qs" "\<not> validateViewStateFile (JObj qs) p"
  shows "\<exists>vs. prop_of (JObj qs) key_viewState = JObj vs \<and> is_json_props vs"
proof -
  have u: "prop_of (JObj qs) key_viewState \<noteq> JUndefined"
    using assms(2) by (auto simp: validateViewStateFile_def isParsedStateMinimal_def Let_def)
  then have j: "is_json (prop_of (JObj qs) key_viewState)"
    using assms(1) by (rule is_json_prop_of [rotated])
  have f: "typeof (prop_of (prop_of (JObj qs) key_viewState) key_file) = TString"
    using assms(2) by (auto simp: validateViewStateFile_def isParsedStateMinimal_def Let_def split: if_splits)
  show ?thesis
  proof (cases "prop_of (JObj qs) key_viewState")
    case (JObj vs)
    then show ?thesis using j by simp
  next
    case (JArr xs ps)
    then show ?thesis using j f by simp
  next
    case (JStr s)
    then show ?thesis using assms(2)
      by (simp add: validateViewStateFile_def isParsedStateMinimal_def Let_def isObject_def)
  qed (use assms(2) in \<open>simp_all add: validateViewStateFile_def isParsedStateMinimal_def Let_def isObject_def\<close>)
qed

lemma readFileState_returned_cases:
  assumes F: "map_of (files w) (getDbFilePath (dbDir w) p) = Some (Json parsed)"
    and T: "truthy (snd (readFileState w p))"
  shows "(validateViewStateFile (fst (ensureLockDefaults parsed)) p
          \<and> snd (readFileState w p) = fst (ensureLockDefaults parsed)
          \<and> (\<not> snd (ensureLockDefaults parsed) \<and> fst (readFileState w p) = w
              \<or> fst (readFileState w p) = w\<lparr>files := AList.update (getDbFilePath (dbDir w) p)
                     (JSON_stringify (fst (ensureLockDefaults parsed))) (files w)\<rparr>))
     \<or> (\<not> validateViewStateFile (fst (ensureLockDefaults parsed)) p
          \<and> snd (readFileState w p)
               = set_prop (fst (ensureLockDefaults parsed)) key_viewState
                   (set_prop (prop_of (fst (ensureLockDefaults parsed)) key_viewState) key_file (JStr p))
          \<and> fst (readFileState w p) = w\<lparr>files := AList.update (getDbFilePath (dbDir w) p)
                (JSON_stringify (set_prop (fst (ensureLockDefaults parsed)) key_viewState
                   (set_prop (prop_of (fst (ensureLockDefaults parsed)) key_viewState) key_file (JStr p))))
                (files w)\<rparr>)"
proof -
  have r: "\<not> rejects w OpExists (getDbFilePath (dbDir w) p)" "\<not> rejects w OpRead (getDbFilePath (dbDir w) p)"
    using T readFileState_rejected [of w p] by auto
  show ?thesis
    using T unfolding readFileState_present [OF F r] Let_def
    by (auto split: if_splits)
qed

lemma prop_of_set_prop_JObj:
  "prop_of (set_prop (JObj ps) k x) k' = (if k' = k then x else prop_of (JObj ps) k')"
  by (simp add: prop_of_update)

lemma readFileState_returned_lock:
  assumes F: "map_of (files w) (getDbFilePath (dbDir w) p) = Some (Json (JObj ps))"
    and T: "truthy (snd (readFileState w p))"
  shows "\<exists>qs. snd (readFileState w p) = JObj qs
     \<and> prop_of (JObj qs) key_protected = JBool (prop_of (JObj ps) key_protected = JBool True)
     \<and> prop_of (JObj qs) key_timestamp
          = (case prop_of (JObj ps) key_timestamp of JNum n \<Rightarrow> JNum n | _ \<Rightarrow> JNull)
     \<and> (\<forall>k. k \<noteq> key_protected \<and> k \<noteq> key_timestamp \<and> k \<noteq> key_viewState
            \<longrightarrow> prop_of (JObj qs) k = prop_of (JObj ps) k)"
proof -
  obtain qs where qs: "fst (ensureLockDefaults (JObj ps)) = JObj qs"
    using ensureLockDefaults_JObj by blast
  have p1: "prop_of (JObj qs) key_protected = JBool (prop_of (JObj ps) key_protected = JBool True)"
    using ensureLockDefaults_protected [of ps] qs by simp
  have p2: "prop_of (JObj qs) key_timestamp
          = (case prop_of (JObj ps) key_timestamp of JNum n \<Rightarrow> JNum n | _ \<Rightarrow> JNull)"
    using ensureLockDefaults_timestamp [of ps] qs by simp
  have p3: "prop_of (JObj qs) k = prop_of (JObj ps) k"
    if "k \<noteq> key_protected \<and> k \<noteq> key_timestamp" for k
    using ensureLockDefaults_other [of k ps] qs that by simp
  from readFileState_returned_cases [OF F T]
  consider "snd (readFileState w p) = JObj qs"
    | x where "snd (readFileState w p) = JObj (AList.update key_viewState x qs)"
    unfolding qs by auto
  then show ?thesis
  proof cases
    case 1
    then show ?thesis using p1 p2 p3 by auto
  next
    case 2
    then show ?thesis using p1 p2 p3 by (auto simp: prop_of_update)
  qed
qed

section \<open>\<open>saveTemporaryState\<close>\<close>

lemma getDbFilePath_neq_dir [simp]: "getDbFilePath d p \<noteq> d" "d \<noteq> getDbFilePath d p"
proof -
  have "length (getDbFilePath d p) > length d"
    by (simp add: getDbFilePath_def js_def)
  then show "getDbFilePath d p \<noteq> d" "d \<noteq> getDbFilePath d p" by auto
qed

lemma prop_of_assign:
  "prop_of (JObj (assign t s)) k = (case map_of s k of None \<Rightarrow> prop_of (JObj t) k | Some v \<Rightarrow> v)"
  by (simp add: prop_of_def map_of_assign split: option.splits)

lemma merge_state_existing:
  assumes "has_lock_fields (JObj qs)"
  shows "prop_of (merge_state (JObj qs) lastState state) key_protected = prop_of (JObj qs) key_protected"
    and "prop_of (merge_state (JObj qs) lastState state) key_timestamp = prop_of (JObj qs) key_timestamp"
    and "k \<noteq> key_protected \<Longrightarrow> k \<noteq> key_timestamp \<Longrightarrow>
         prop_of (merge_state (JObj qs) lastState state) k
           = (case map_of (own_props state) k of None \<Rightarrow> prop_of (JObj qs) k | Some v \<Rightarrow> v)"
  using assms
  by (auto simp: merge_state_def has_lock_fields_def Let_def prop_of_update prop_of_assign)

lemma merge_state_fallback:
  assumes "\<not> truthy existing" "truthy lastState"
  shows "prop_of (merge_state existing lastState state) key_protected = prop_of lastState key_protected"
    and "prop_of (merge_state existing lastState state) key_timestamp = prop_of lastState key_timestamp"
    and "k \<noteq> key_protected \<Longrightarrow> k \<noteq> key_timestamp \<Longrightarrow>
         prop_of (merge_state existing lastState state) k = prop_of state k"
  using assms
  by (auto simp: merge_state_def prop_of_update prop_of_own_props)

lemma readFileState_lastTemporaryState:
  "lastTemporaryState (fst (readFileState w p)) = lastTemporaryState w"
  by (subst readFileState_frame) simp

lemma saveTemporaryState_debounced:
  assumes "activeFile w = Some p" "p \<noteq> []" "lastLoadedFileName w = Some p"
  shows "debounced (saveTemporaryState w state)
         = Some (p, merge_state (snd (readFileState w p)) (lastTemporaryState w) state)"
  using assms readFileState_lastTemporaryState [of w p]
  by (simp add: saveTemporaryState_def case_prod_beta)

text \<open>
  The merge as the comment in \<open>saveTemporaryState\<close> describes it. Let \<open>path\<close> be the active
  and loaded note. When its stored record is an object with \<open>protected\<close> true and
  \<open>timestamp\<close> a number \<open>t\<close>, and \<open>readFileState\<close> returns the record, the merged record
  handed to the debounced write has \<open>protected\<close> true and \<open>timestamp\<close> \<open>t\<close>, whatever lock
  fields the fresh capture carries. When no record is stored and \<open>lastTemporaryState\<close> is
  set, the merged record takes \<open>protected\<close> and \<open>timestamp\<close> from \<open>lastTemporaryState\<close>.
\<close>

lemma saveTemporaryState_merge:
  assumes "activeFile w = Some p" "p \<noteq> []" "lastLoadedFileName w = Some p"
  shows "(map_of (files w) (getDbFilePath (dbDir w) p) = Some (Json (JObj ps))
          \<and> prop_of (JObj ps) key_protected = JBool True
          \<and> prop_of (JObj ps) key_timestamp = JNum t
          \<and> truthy (snd (readFileState w p))
          \<longrightarrow> (\<exists>merged. debounced (saveTemporaryState w state) = Some (p, merged)
                 \<and> prop_of merged key_protected = JBool True
                 \<and> prop_of merged key_timestamp = JNum t
                 \<and> (\<forall>k v. k \<noteq> key_protected \<and> k \<noteq> key_timestamp
                          \<and> map_of (own_props state) k = Some v \<longrightarrow> prop_of merged k = v)))
     \<and> (map_of (files w) (getDbFilePath (dbDir w) p) = None \<and> truthy (lastTemporaryState w)
          \<longrightarrow> (\<exists>merged. debounced (saveTemporaryState w state) = Some (p, merged)
                 \<and> prop_of merged key_protected = prop_of (lastTemporaryState w) key_protected
                 \<and> prop_of merged key_timestamp = prop_of (lastTemporaryState w) key_timestamp
                 \<and> (\<forall>k. k \<noteq> key_protected \<and> k \<noteq> key_timestamp
                          \<longrightarrow> prop_of merged k = prop_of state k)))"
proof -
  note d = saveTemporaryState_debounced [OF assms, of state]
  have 1: "\<exists>merged. debounced (saveTemporaryState w state) = Some (p, merged)
                 \<and> prop_of merged key_protected = JBool True
                 \<and> prop_of merged key_timestamp = JNum t
                 \<and> (\<forall>k v. k \<noteq> key_protected \<and> k \<noteq> key_timestamp
                          \<and> map_of (own_props state) k = Some v \<longrightarrow> prop_of merged k = v)"
    if F: "map_of (files w) (getDbFilePath (dbDir w) p) = Some (Json (JObj ps))"
      and P: "prop_of (JObj ps) key_protected = JBool True"
      and S: "prop_of (JObj ps) key_timestamp = JNum t"
      and T: "truthy (snd (readFileState w p))"
  proof -
    obtain qs where qs: "snd (readFileState w p) = JObj qs"
      "prop_of (JObj qs) key_protected = JBool True" "prop_of (JObj qs) key_timestamp = JNum t"
      using readFileState_returned_lock [OF F T] P S by auto
    have h: "has_lock_fields (JObj qs)"
      by (simp add: has_lock_fields_def qs(2,3))
    let ?m = "merge_state (JObj qs) (lastTemporaryState w) state"
    have "debounced (saveTemporaryState w state) = Some (p, ?m)" using d qs(1) by simp
    moreover have "prop_of ?m key_protected = JBool True"
      using merge_state_existing(1) [OF h] qs(2) by simp
    moreover have "prop_of ?m key_timestamp = JNum t"
      using merge_state_existing(2) [OF h] qs(3) by simp
    moreover have "prop_of ?m k = v"
      if "k \<noteq> key_protected \<and> k \<noteq> key_timestamp \<and> map_of (own_props state) k = Some v" for k v
      using merge_state_existing(3) [OF h, of k] that by simp
    ultimately show ?thesis by blast
  qed
  have 2: "\<exists>merged. debounced (saveTemporaryState w state) = Some (p, merged)
                 \<and> prop_of merged key_protected = prop_of (lastTemporaryState w) key_protected
                 \<and> prop_of merged key_timestamp = prop_of (lastTemporaryState w) key_timestamp
                 \<and> (\<forall>k. k \<noteq> key_protected \<and> k \<noteq> key_timestamp
                          \<longrightarrow> prop_of merged k = prop_of state k)"
    if F: "map_of (files w) (getDbFilePath (dbDir w) p) = None" and L: "truthy (lastTemporaryState w)"
  proof -
    have r: "snd (readFileState w p) = JNull"
      using readFileState_absent [OF F] by simp
    have n: "\<not> truthy JNull" by simp
    let ?m = "merge_state JNull (lastTemporaryState w) state"
    have "debounced (saveTemporaryState w state) = Some (p, ?m)" using d r by simp
    then show ?thesis
      using merge_state_fallback [OF n L] by blast
  qed
  show ?thesis using 1 2 by blast
qed

text \<open>
  The stored record of \<open>note.md\<close> in the example states, as \<open>readFileState\<close> returns it
  and as the debounced write replaces it.
\<close>

lemma locked_record_read:
  assumes f: "files w = files world_flashing" and d: "dbDir w = js ''db''"
    and r: "rejects w = (\<lambda>opn p. False)"
  shows "readFileState w (js ''note.md'')
     = (w, if flashing w then JNull
           else JObj [(key_scroll, JNum (Fin 1)), (key_protected, JBool True),
                      (key_timestamp, JNum (Fin 1000))])"
proof -
  let ?ps = "[(key_scroll, JNum (Fin 1)), (key_protected, JBool True),
              (key_timestamp, JNum (Fin 1000))]"
  have F: "map_of (files w) (getDbFilePath (dbDir w) (js ''note.md'')) = Some (Json (JObj ?ps))"
    by (simp add: f d world_flashing_def world0_def)
  have rj: "\<not> rejects w OpExists (getDbFilePath (dbDir w) (js ''note.md''))"
    "\<not> rejects w OpRead (getDbFilePath (dbDir w) (js ''note.md''))"
    by (simp_all add: r)
  have e: "ensureLockDefaults (JObj ?ps) = (JObj ?ps, False)"
    by (simp add: ensureLockDefaults_def prop_of_def Let_def)
  have v: "validateViewStateFile (JObj ?ps) (js ''note.md'')"
    by (simp add: validateViewStateFile_def isParsedStateMinimal_def prop_of_def Let_def)
  show ?thesis
    unfolding readFileState_present [OF F rj] Let_def e using v by simp
qed

lemma locked_record_write:
  assumes f: "files w = files world_flashing" and d: "dbDir w = js ''db''"
    and r: "rejects w = (\<lambda>opn p. False)" and dn: "debounced w = None"
    and j: "JSON_stringify (stateToSave state) = Json t"
  shows "files (debounce_fire (w\<lparr>debounced := Some (js ''note.md'', state)\<rparr>))
     = [(getDbFilePath (js ''db'') (js ''note.md''), Json t)]"
  by (simp add: debounce_fire_def writeFileState_def adapter_exists_def adapter_mkdir_def
      adapter_write_def f d r j world_flashing_def world0_def Let_def)

text \<open>
  In \<open>world_flashing_scrolled\<close> the editor has scrolled from 1 to 5, so
  \<open>performStateCheck\<close> starts \<open>saveTemporaryState\<close> with the fresh capture and records the
  capture as the last snapshot before the body of the call resumes.
\<close>

lemma performStateCheck_flashing_scrolled:
  "performStateCheck world_flashing_scrolled
     = (world_flashing_scrolled\<lparr>lastTemporaryState := JObj [(key_scroll, JNum (Fin 5))]\<rparr>,
        Inr (Some (JObj [(key_scroll, JNum (Fin 5))])))"
  by (simp add: performStateCheck_def world_flashing_scrolled_def world_flashing_def world0_def
      isEmptyState_def TemporaryStatesSame_def prop_of_def Let_def js_def)

text \<open>
  C1. A locked record, \<open>protected\<close> true and \<open>timestamp\<close> 1000, is stored for the active and
  loaded note, and \<open>saveTemporaryState\<close> is called with the fresh capture \<open>{scroll: 5}\<close>,
  which has no lock fields, in the state \<open>performStateCheck\<close> leaves. The merged record
  should keep \<open>protected\<close> true and \<open>timestamp\<close> 1000, and it does when no flashing span is
  shown (last conjunct). While a flashing span is shown, \<open>readFileState\<close> returns \<open>null\<close>
  for the well-formed record, the fallback takes the lock fields of the last snapshot,
  which by then is the capture itself, the merged record has both lock fields undefined,
  and the debounced write stores \<open>protected: false, timestamp: null\<close> over the locked
  record.
\<close>

theorem saveTemporaryState_flashing_overwrites_lock:
  "map_of (files world_flashing_scrolled)
       (getDbFilePath (dbDir world_flashing_scrolled) (js ''note.md''))
     = Some (Json (JObj [(key_scroll, JNum (Fin 1)), (key_protected, JBool True),
                         (key_timestamp, JNum (Fin 1000))]))
   \<and> debounced (saveTemporaryState
         (world_flashing_scrolled\<lparr>lastTemporaryState := JObj [(key_scroll, JNum (Fin 5))]\<rparr>)
         (JObj [(key_scroll, JNum (Fin 5))]))
       = Some (js ''note.md'', JObj [(key_scroll, JNum (Fin 5)), (key_protected, JUndefined),
                                     (key_timestamp, JUndefined)])
   \<and> files (debounce_fire (saveTemporaryState
         (world_flashing_scrolled\<lparr>lastTemporaryState := JObj [(key_scroll, JNum (Fin 5))]\<rparr>)
         (JObj [(key_scroll, JNum (Fin 5))])))
       = [(getDbFilePath (js ''db'') (js ''note.md''),
           Json (JObj [(key_scroll, JNum (Fin 5)), (key_protected, JBool False),
                       (key_timestamp, JNull)]))]
   \<and> debounced (saveTemporaryState
         (world_locked_scrolled\<lparr>lastTemporaryState := JObj [(key_scroll, JNum (Fin 5))]\<rparr>)
         (JObj [(key_scroll, JNum (Fin 5))]))
       = Some (js ''note.md'', JObj [(key_scroll, JNum (Fin 5)), (key_protected, JBool True),
                                     (key_timestamp, JNum (Fin 1000))])"
proof -
  let ?st = "JObj [(key_scroll, JNum (Fin 5))]"
  let ?wf = "world_flashing_scrolled\<lparr>lastTemporaryState := ?st\<rparr>"
  let ?wl = "world_locked_scrolled\<lparr>lastTemporaryState := ?st\<rparr>"
  let ?m = "JObj [(key_scroll, JNum (Fin 5)), (key_protected, JUndefined),
                  (key_timestamp, JUndefined)]"
  have a: "files ?wf = files world_flashing" "dbDir ?wf = js ''db''"
    "rejects ?wf = (\<lambda>opn p. False)" "flashing ?wf" "debounced ?wf = None"
    "activeFile ?wf = Some (js ''note.md'')" "lastLoadedFileName ?wf = Some (js ''note.md'')"
    "lastTemporaryState ?wf = ?st"
    by (simp_all add: world_flashing_scrolled_def world_flashing_def world0_def)
  have b: "files ?wl = files world_flashing" "dbDir ?wl = js ''db''"
    "rejects ?wl = (\<lambda>opn p. False)" "\<not> flashing ?wl"
    "activeFile ?wl = Some (js ''note.md'')" "lastLoadedFileName ?wl = Some (js ''note.md'')"
    by (simp_all add: world_locked_scrolled_def world_flashing_scrolled_def world_flashing_def
        world0_def)
  have n: "js ''note.md'' \<noteq> []" by (simp add: js_def)
  have F: "map_of (files world_flashing_scrolled)
       (getDbFilePath (dbDir world_flashing_scrolled) (js ''note.md''))
     = Some (Json (JObj [(key_scroll, JNum (Fin 1)), (key_protected, JBool True),
                         (key_timestamp, JNum (Fin 1000))]))"
    by (simp add: world_flashing_scrolled_def world_flashing_def world0_def)
  have s: "saveTemporaryState ?wf ?st = ?wf\<lparr>debounced := Some (js ''note.md'', ?m)\<rparr>"
    using n a(4)
    by (simp add: saveTemporaryState_def a(6,7,8) locked_record_read [OF a(1-3)] merge_state_def
        prop_of_def del: One_nat_def)
  have st: "JSON_stringify (stateToSave ?m)
      = Json (JObj [(key_scroll, JNum (Fin 5)), (key_protected, JBool False),
                    (key_timestamp, JNull)])"
    by (simp add: stateToSave_def prop_of_def Let_def JSON_stringify_def)
  have w: "files (debounce_fire (?wf\<lparr>debounced := Some (js ''note.md'', ?m)\<rparr>))
      = [(getDbFilePath (js ''db'') (js ''note.md''),
          Json (JObj [(key_scroll, JNum (Fin 5)), (key_protected, JBool False),
                      (key_timestamp, JNull)]))]"
    by (rule locked_record_write [OF a(1-3) a(5) st])
  have l: "debounced (saveTemporaryState ?wl ?st)
      = Some (js ''note.md'', JObj [(key_scroll, JNum (Fin 5)), (key_protected, JBool True),
                                    (key_timestamp, JNum (Fin 1000))])"
    using n b(4)
    by (simp add: saveTemporaryState_def b(5,6) locked_record_read [OF b(1-3)] merge_state_def
        prop_of_def assign_def Let_def)
  show ?thesis
    using F l unfolding s w by simp
qed

section \<open>\<open>renameFile\<close>\<close>

lemma prop_of_JStr_file [simp]: "prop_of (JStr s) key_file = JUndefined"
  by (simp add: prop_of_def map_of_indexed_named [OF key_file_named])

lemma prop_of_JArr_named_file:
  "prop_of (JArr xs ps) key_file = prop_of (JObj ps) key_file"
  by (simp add: prop_of_def map_of_indexed_named [OF key_file_named] map_add_def split: option.splits)

lemma validateViewStateFile_file:
  assumes "validateViewStateFile (JObj qs) p"
    and "prop_of (prop_of (JObj qs) key_viewState) key_file = JStr f"
  shows "f = p"
proof (cases "prop_of (JObj qs) key_viewState")
  case (JObj vs)
  then show ?thesis using assms
    by (auto simp: validateViewStateFile_def isParsedStateMinimal_def Let_def isObject_def
        split: if_splits)
next
  case (JArr xs ps)
  then show ?thesis using assms
    by (auto simp: validateViewStateFile_def isParsedStateMinimal_def Let_def isObject_def
        split: if_splits)
qed (use assms(2) in simp_all)

lemma is_json_JSON_stringify: "is_json v \<Longrightarrow> JSON_stringify v = Json v"
  by (simp add: JSON_stringify_def is_json_to_json)

lemma stateToSave_settled: "has_lock_fields (JObj qs) \<Longrightarrow> stateToSave (JObj qs) = JObj qs"
  by (auto simp: stateToSave_def has_lock_fields_def Let_def)

lemma has_lock_fields_update:
  "k \<noteq> key_protected \<Longrightarrow> k \<noteq> key_timestamp \<Longrightarrow>
   has_lock_fields (JObj (AList.update k x qs)) = has_lock_fields (JObj qs)"
  by (simp add: has_lock_fields_def prop_of_update)

lemma readFileState_returned_json:
  assumes F: "map_of (files w) (getDbFilePath (dbDir w) p) = Some (Json (JObj ps))"
    and J: "is_json_props ps"
    and T: "truthy (snd (readFileState w p))"
  shows "\<exists>qs. snd (readFileState w p) = JObj qs \<and> is_json_props qs
     \<and> has_lock_fields (JObj qs) \<and> validateViewStateFile (JObj qs) p
     \<and> map_of (files (fst (readFileState w p))) (getDbFilePath (dbDir w) p) = Some (Json (JObj qs))
     \<and> (\<forall>q. q \<noteq> getDbFilePath (dbDir w) p
            \<longrightarrow> map_of (files (fst (readFileState w p))) q = map_of (files w) q)
     \<and> (\<forall>vs f. prop_of (JObj ps) key_viewState = JObj vs \<and> prop_of (JObj vs) key_file = JStr f
            \<longrightarrow> prop_of (prop_of (JObj qs) key_viewState) key_file = JStr p)"
proof -
  let ?db = "getDbFilePath (dbDir w) p"
  obtain qs where qs: "fst (ensureLockDefaults (JObj ps)) = JObj qs" "is_json_props qs"
    using ensureLockDefaults_is_json [OF J] by blast
  have h: "has_lock_fields (JObj qs)"
    using ensureLockDefaults_has_lock_fields [of ps] qs(1) by simp
  have vsq: "prop_of (JObj qs) key_viewState = prop_of (JObj ps) key_viewState"
    using ensureLockDefaults_other [of key_viewState ps] qs(1) by simp
  from readFileState_returned_cases [OF F T]
  consider (same) "validateViewStateFile (JObj qs) p" "snd (readFileState w p) = JObj qs"
      "\<not> snd (ensureLockDefaults (JObj ps))" "fst (readFileState w p) = w"
    | (defaults) "validateViewStateFile (JObj qs) p" "snd (readFileState w p) = JObj qs"
      "fst (readFileState w p) = w\<lparr>files := AList.update ?db (JSON_stringify (JObj qs)) (files w)\<rparr>"
    | (corrected) "\<not> validateViewStateFile (JObj qs) p"
      "snd (readFileState w p) = set_prop (JObj qs) key_viewState
          (set_prop (prop_of (JObj qs) key_viewState) key_file (JStr p))"
      "fst (readFileState w p) = w\<lparr>files := AList.update ?db
          (JSON_stringify (set_prop (JObj qs) key_viewState
             (set_prop (prop_of (JObj qs) key_viewState) key_file (JStr p)))) (files w)\<rparr>"
    unfolding qs(1) by blast
  then show ?thesis
  proof cases
    case same
    have "JObj qs = JObj ps"
      using ensureLockDefaults_unchanged [OF same(3)] qs(1) by simp
    then have st: "map_of (files (fst (readFileState w p))) ?db = Some (Json (JObj qs))"
      using F same(4) by simp
    have fl: "prop_of (prop_of (JObj qs) key_viewState) key_file = JStr p"
      if "prop_of (JObj ps) key_viewState = JObj vs \<and> prop_of (JObj vs) key_file = JStr f" for vs f
      using validateViewStateFile_file [OF same(1), of f] that vsq by simp
    show ?thesis
      using same(1,2,4) qs(2) h st fl by (intro exI [of _ qs]) auto
  next
    case defaults
    have st: "map_of (files (fst (readFileState w p))) ?db = Some (Json (JObj qs))"
      using defaults(3) qs(2) by (simp add: is_json_JSON_stringify update_conv')
    have ot: "map_of (files (fst (readFileState w p))) q = map_of (files w) q" if "q \<noteq> ?db" for q
      using defaults(3) that by (simp add: update_conv')
    have fl: "prop_of (prop_of (JObj qs) key_viewState) key_file = JStr p"
      if "prop_of (JObj ps) key_viewState = JObj vs \<and> prop_of (JObj vs) key_file = JStr f" for vs f
      using validateViewStateFile_file [OF defaults(1), of f] that vsq by simp
    show ?thesis
      using defaults(1,2) qs(2) h st ot fl by (intro exI [of _ qs]) auto
  next
    case corrected
    obtain vs where vs: "prop_of (JObj qs) key_viewState = JObj vs" "is_json_props vs"
      using invalid_viewState_JObj [OF qs(2) corrected(1)] by blast
    let ?qs' = "AList.update key_viewState (JObj (AList.update key_file (JStr p) vs)) qs"
    have r: "snd (readFileState w p) = JObj ?qs'"
      using corrected(2) vs(1) by simp
    have j: "is_json_props ?qs'"
      using qs(2) vs(2) by (simp add: is_json_props_update)
    have h': "has_lock_fields (JObj ?qs')"
      using h by (simp add: has_lock_fields_update)
    have v': "validateViewStateFile (JObj ?qs') p"
      by (rule validateViewStateFile_corrected [where vs = "AList.update key_file (JStr p) vs"])
         (simp_all add: prop_of_update)
    have w1: "fst (readFileState w p) = w\<lparr>files := AList.update ?db (Json (JObj ?qs')) (files w)\<rparr>"
      using corrected(3) vs(1) j by (simp add: is_json_JSON_stringify)
    have st: "map_of (files (fst (readFileState w p))) ?db = Some (Json (JObj ?qs'))"
      using w1 by (simp add: update_conv')
    have ot: "map_of (files (fst (readFileState w p))) q = map_of (files w) q" if "q \<noteq> ?db" for q
      using w1 that by (simp add: update_conv')
    have fl: "prop_of (prop_of (JObj ?qs') key_viewState) key_file = JStr p"
      by (simp add: prop_of_update)
    show ?thesis
      using r j h' v' st ot fl by (intro exI [of _ ?qs']) auto
  qed
qed

lemma readFileState_fields:
  "rejects (fst (readFileState w p)) = rejects w"
  "dbDir (fst (readFileState w p)) = dbDir w"
  "directories (fst (readFileState w p)) = directories w"
  "flashing (fst (readFileState w p)) = flashing w"
  by (subst readFileState_frame, simp)+

lemma writeFileState_fields:
  "rejects (writeFileState w p s) = rejects w"
  "dbDir (writeFileState w p s) = dbDir w"
  "flashing (writeFileState w p s) = flashing w"
  by (auto simp: writeFileState_def adapter_exists_def adapter_mkdir_def adapter_write_def Let_def
      split: sum.splits if_splits)

lemma renameFile_absent:
  "map_of (files w) (getDbFilePath (dbDir w) oldPath) = None \<Longrightarrow> renameFile w newPath oldPath = w"
  by (simp add: renameFile_def readFileState_absent)

lemma renameFile_present:
  assumes F: "map_of (files w) (getDbFilePath (dbDir w) oldPath) = Some (Json (JObj ps))"
    and J: "is_json_props ps"
    and R: "readFileState w oldPath = (w1, r)" and T: "truthy r"
    and rej: "\<not> rejects w OpExists (dbDir w)" "\<not> rejects w OpMkdir (dbDir w)"
      "\<not> rejects w OpWrite (getDbFilePath (dbDir w) newPath)"
      "\<not> rejects w OpExists (getDbFilePath (dbDir w) oldPath)"
      "\<not> rejects w OpRemove (getDbFilePath (dbDir w) oldPath)"
  shows "files (renameFile w newPath oldPath)
           = AList.delete (getDbFilePath (dbDir w) oldPath)
               (AList.update (getDbFilePath (dbDir w) newPath) (Json r) (files w1))"
    and "has_lock_fields r"
    and "\<forall>vs f. prop_of (JObj ps) key_viewState = JObj vs \<and> prop_of (JObj vs) key_file = JStr f
            \<longrightarrow> prop_of (prop_of r key_viewState) key_file = JStr oldPath"
    and "\<forall>q. q \<noteq> getDbFilePath (dbDir w) oldPath
            \<longrightarrow> map_of (files w1) q = map_of (files w) q"
proof -
  let ?old = "getDbFilePath (dbDir w) oldPath"
  let ?new = "getDbFilePath (dbDir w) newPath"
  have T': "truthy (snd (readFileState w oldPath))" using R T by simp
  from readFileState_returned_json [OF F J T'] R
  obtain qs where qs: "r = JObj qs" "is_json_props qs" "has_lock_fields (JObj qs)"
    "map_of (files w1) ?old = Some (Json (JObj qs))"
    "\<forall>q. q \<noteq> ?old \<longrightarrow> map_of (files w1) q = map_of (files w) q"
    "\<forall>vs f. prop_of (JObj ps) key_viewState = JObj vs \<and> prop_of (JObj vs) key_file = JStr f
            \<longrightarrow> prop_of (prop_of (JObj qs) key_viewState) key_file = JStr oldPath"
    by auto
  have w1: "rejects w1 = rejects w" "dbDir w1 = dbDir w"
    using readFileState_fields [of w oldPath] R by simp_all
  have s: "JSON_stringify (stateToSave r) = Json r"
    using qs(1-3) by (simp add: stateToSave_settled is_json_JSON_stringify)
  have f2: "files (writeFileState w1 newPath r) = AList.update ?new (Json r) (files w1)"
    using writeFileState_files [of w1 newPath r] rej(1-3) w1 s by simp
  have w2: "rejects (writeFileState w1 newPath r) = rejects w" "dbDir (writeFileState w1 newPath r) = dbDir w"
    using writeFileState_fields [of w1 newPath r] w1 by simp_all
  have pr: "map_of (files (writeFileState w1 newPath r)) ?old \<noteq> None"
    using qs(4) by (simp add: f2 update_conv')
  show "files (renameFile w newPath oldPath) = AList.delete ?old (AList.update ?new (Json r) (files w1))"
    using R T rej(4,5) w2 pr f2
    by (simp add: renameFile_def adapter_exists_def adapter_remove_def Let_def)
  show "has_lock_fields r" using qs(1,3) by simp
  show "\<forall>vs f. prop_of (JObj ps) key_viewState = JObj vs \<and> prop_of (JObj vs) key_file = JStr f
            \<longrightarrow> prop_of (prop_of r key_viewState) key_file = JStr oldPath"
    using qs(1,6) by simp
  show "\<forall>q. q \<noteq> ?old \<longrightarrow> map_of (files w1) q = map_of (files w) q"
    using qs(5) by simp
qed

text \<open>
  C10. When a JSON object is stored for \<open>oldPath\<close>, \<open>readFileState\<close> returns the record
  \<open>r\<close>, and the adapter accepts the calls, \<open>renameFile\<close> writes \<open>r\<close> as it is under the
  key of \<open>newPath\<close> and then removes the location of \<open>oldPath\<close>: no record remains
  under the old key, the new key holds \<open>r\<close> when the two keys differ, and no other file
  changes. \<open>r\<close> has the cursor and scroll of the stored record and its lock fields are
  filled; where the stored \<open>viewState.file\<close> is a string, \<open>viewState.file\<close> of \<open>r\<close> is
  \<open>oldPath\<close>, not \<open>newPath\<close>. When nothing is stored for \<open>oldPath\<close>, nothing changes.
\<close>

theorem renameFile_migrates:
  "(map_of (files w) (getDbFilePath (dbDir w) oldPath) = Some (Json (JObj ps))
      \<and> is_json_props ps
      \<and> readFileState w oldPath = (w1, r) \<and> truthy r
      \<and> \<not> rejects w OpExists (dbDir w) \<and> \<not> rejects w OpMkdir (dbDir w)
      \<and> \<not> rejects w OpWrite (getDbFilePath (dbDir w) newPath)
      \<and> \<not> rejects w OpExists (getDbFilePath (dbDir w) oldPath)
      \<and> \<not> rejects w OpRemove (getDbFilePath (dbDir w) oldPath)
    \<longrightarrow> files (renameFile w newPath oldPath)
           = AList.delete (getDbFilePath (dbDir w) oldPath)
               (AList.update (getDbFilePath (dbDir w) newPath) (Json r) (files w1))
      \<and> map_of (files (renameFile w newPath oldPath)) (getDbFilePath (dbDir w) oldPath) = None
      \<and> (getDbFilePath (dbDir w) newPath \<noteq> getDbFilePath (dbDir w) oldPath
           \<longrightarrow> map_of (files (renameFile w newPath oldPath)) (getDbFilePath (dbDir w) newPath)
                 = Some (Json r))
      \<and> (\<forall>q. q \<noteq> getDbFilePath (dbDir w) oldPath \<and> q \<noteq> getDbFilePath (dbDir w) newPath
            \<longrightarrow> map_of (files (renameFile w newPath oldPath)) q = map_of (files w) q)
      \<and> has_lock_fields r
      \<and> prop_of r key_cursor = prop_of (JObj ps) key_cursor
      \<and> prop_of r key_scroll = prop_of (JObj ps) key_scroll
      \<and> (\<forall>vs f. prop_of (JObj ps) key_viewState = JObj vs \<and> prop_of (JObj vs) key_file = JStr f
            \<longrightarrow> prop_of (prop_of r key_viewState) key_file = JStr oldPath))
   \<and> (map_of (files w) (getDbFilePath (dbDir w) oldPath) = None
    \<longrightarrow> renameFile w newPath oldPath = w)"
proof -
  let ?old = "getDbFilePath (dbDir w) oldPath"
  let ?new = "getDbFilePath (dbDir w) newPath"
  have 1: "files (renameFile w newPath oldPath) = AList.delete ?old (AList.update ?new (Json r) (files w1))
      \<and> map_of (files (renameFile w newPath oldPath)) ?old = None
      \<and> (?new \<noteq> ?old \<longrightarrow> map_of (files (renameFile w newPath oldPath)) ?new = Some (Json r))
      \<and> (\<forall>q. q \<noteq> ?old \<and> q \<noteq> ?new
            \<longrightarrow> map_of (files (renameFile w newPath oldPath)) q = map_of (files w) q)
      \<and> has_lock_fields r
      \<and> prop_of r key_cursor = prop_of (JObj ps) key_cursor
      \<and> prop_of r key_scroll = prop_of (JObj ps) key_scroll
      \<and> (\<forall>vs f. prop_of (JObj ps) key_viewState = JObj vs \<and> prop_of (JObj vs) key_file = JStr f
            \<longrightarrow> prop_of (prop_of r key_viewState) key_file = JStr oldPath)"
    if F: "map_of (files w) ?old = Some (Json (JObj ps))" and J: "is_json_props ps"
      and R: "readFileState w oldPath = (w1, r)" and T: "truthy r"
      and rej: "\<not> rejects w OpExists (dbDir w)" "\<not> rejects w OpMkdir (dbDir w)"
        "\<not> rejects w OpWrite ?new" "\<not> rejects w OpExists ?old" "\<not> rejects w OpRemove ?old"
  proof -
    note p = renameFile_present [OF F J R T rej]
    have T': "truthy (snd (readFileState w oldPath))" using R T by simp
    have c: "prop_of r key_cursor = prop_of (JObj ps) key_cursor"
      "prop_of r key_scroll = prop_of (JObj ps) key_scroll"
      using readFileState_returned_lock [OF F T'] R by auto
    have a: "map_of (files (renameFile w newPath oldPath)) ?old = None"
      by (simp add: p(1) delete_conv')
    have b: "map_of (files (renameFile w newPath oldPath)) ?new = Some (Json r)" if "?new \<noteq> ?old"
      using that by (simp add: p(1) delete_conv' update_conv')
    have d: "map_of (files (renameFile w newPath oldPath)) q = map_of (files w) q"
      if "q \<noteq> ?old \<and> q \<noteq> ?new" for q
      using that p(4) by (simp add: p(1) delete_conv' update_conv')
    show ?thesis using p(1,2,3) a b c d by blast
  qed
  show ?thesis using 1 renameFile_absent [of w oldPath newPath] by blast
qed

lemma old_new_keys:
  "getDbFilePath (js ''db'') (js ''new.md'') \<noteq> getDbFilePath (js ''db'') (js ''old.md'')"
  by (simp add: getDbFilePath_def hash_eval)

theorem renameFile_migrates_witness:
  "files (renameFile world_rename (js ''new.md'') (js ''old.md''))
     = [(getDbFilePath (js ''db'') (js ''new.md''),
         Json (JObj [(key_scroll, JNum (Fin 250)),
                     (key_viewState, JObj [(key_file, JStr (js ''old.md''))]),
                     (key_protected, JBool False), (key_timestamp, JNull)]))]
   \<and> renameFile world0 (js ''new.md'') (js ''old.md'') = world0"
proof -
  let ?ps = "[(key_scroll, JNum (Fin 250)),
              (key_viewState, JObj [(key_file, JStr (js ''old.md''))]),
              (key_protected, JBool False), (key_timestamp, JNull)]"
  have d: "dbDir world_rename = js ''db''" by (simp add: world_rename_def world0_def)
  have F: "map_of (files world_rename) (getDbFilePath (dbDir world_rename) (js ''old.md''))
      = Some (Json (JObj ?ps))"
    by (simp add: world_rename_def world0_def)
  have J: "is_json_props ?ps" by simp
  have rj: "\<not> rejects world_rename OpExists (getDbFilePath (dbDir world_rename) (js ''old.md''))"
    "\<not> rejects world_rename OpRead (getDbFilePath (dbDir world_rename) (js ''old.md''))"
    by (simp_all add: world_rename_def world0_def)
  have e: "ensureLockDefaults (JObj ?ps) = (JObj ?ps, False)"
    by (simp add: ensureLockDefaults_def prop_of_def Let_def)
  have v: "validateViewStateFile (JObj ?ps) (js ''old.md'')"
    by (simp add: validateViewStateFile_def isParsedStateMinimal_def prop_of_def Let_def)
  have fl: "\<not> flashing world_rename" by (simp add: world_rename_def world0_def)
  have R: "readFileState world_rename (js ''old.md'') = (world_rename, JObj ?ps)"
    unfolding readFileState_present [OF F rj] Let_def e using v fl by simp
  have T: "truthy (JObj ?ps)" by simp
  have rej: "\<not> rejects world_rename OpExists (dbDir world_rename)"
    "\<not> rejects world_rename OpMkdir (dbDir world_rename)"
    "\<not> rejects world_rename OpWrite (getDbFilePath (dbDir world_rename) (js ''new.md''))"
    "\<not> rejects world_rename OpRemove (getDbFilePath (dbDir world_rename) (js ''old.md''))"
    by (simp_all add: world_rename_def world0_def)
  from renameFile_migrates [of world_rename "js ''old.md''" ?ps world_rename "JObj ?ps" "js ''new.md''"]
    F J R T rej rj(1)
  have "files (renameFile world_rename (js ''new.md'') (js ''old.md''))
      = AList.delete (getDbFilePath (dbDir world_rename) (js ''old.md''))
          (AList.update (getDbFilePath (dbDir world_rename) (js ''new.md'')) (Json (JObj ?ps))
             (files world_rename))"
    by blast
  then have 1: "files (renameFile world_rename (js ''new.md'') (js ''old.md''))
      = [(getDbFilePath (js ''db'') (js ''new.md''), Json (JObj ?ps))]"
    using old_new_keys by (simp add: world_rename_def world0_def)
  have "map_of (files world0) (getDbFilePath (dbDir world0) (js ''old.md'')) = None"
    by (simp add: world0_def)
  with renameFile_migrates [of world0 "js ''old.md''" "[]" world0 JNull "js ''new.md''"]
  have 2: "renameFile world0 (js ''new.md'') (js ''old.md'') = world0"
    by blast
  show ?thesis using 1 2 by simp
qed

section \<open>\<open>validateDatabase\<close>\<close>

lemma key_viewState_named: "\<not> list_all (\<lambda>c. 48 \<le> unat c \<and> unat c \<le> 57) key_viewState"
  by (simp add: key_viewState_def js_def)

lemma prop_of_JStr_viewState [simp]: "prop_of (JStr s) key_viewState = JUndefined"
  by (simp add: prop_of_def map_of_indexed_named [OF key_viewState_named])

lemma prop_of_undefined_key [simp]: "prop_of JUndefined k = JUndefined"
  by (simp add: prop_of_def)

lemma notePath_of_no_string:
  "typeof (prop_of (prop_of v key_viewState) key_file) \<noteq> TString \<Longrightarrow> notePath_of v = None"
  by (cases "prop_of (prop_of v key_viewState) key_file") (simp_all add: notePath_of_def)

lemma has_file_isObject:
  "prop_of x key_file = JStr np \<Longrightarrow> isObject x"
  by (cases x) (simp_all add: isObject_def)

lemma has_viewState_isObject:
  "prop_of v key_viewState \<noteq> JUndefined \<Longrightarrow> isObject v"
  by (cases v) (simp_all add: isObject_def)

lemma notePath_of_string:
  assumes "prop_of (prop_of v key_viewState) key_file = JStr np"
  shows "notePath_of v = Some np" and "isParsedStateMinimal v"
proof -
  have o: "isObject (prop_of v key_viewState)"
    using assms by (rule has_file_isObject)
  then have d: "prop_of v key_viewState \<noteq> JUndefined"
    by (auto simp: isObject_def)
  then have "isObject v" by (rule has_viewState_isObject)
  then show m: "isParsedStateMinimal v"
    using o d assms by (simp add: isParsedStateMinimal_def Let_def)
  then show "notePath_of v = Some np"
    using assms by (simp add: notePath_of_def)
qed

lemma validate_entry_unparsable:
  assumes "map_of (files w) f = Some Unparsable" "\<not> rejects w OpRead f" "\<not> rejects w OpRemove f"
  shows "validate_entry w f = Inr (removed w f, RemovedInvalid)"
  using assms
  by (simp add: validate_entry_def adapter_read_def adapter_remove_def JSON_parse_def removed_def)

lemma validate_entry_no_path:
  assumes "map_of (files w) f = Some (Json v)" "\<not> rejects w OpRead f" "\<not> rejects w OpRemove f"
    and "typeof (prop_of (prop_of v key_viewState) key_file) \<noteq> TString
         \<or> prop_of (prop_of v key_viewState) key_file = JStr []"
  shows "validate_entry w f = Inr (removed w f, RemovedInvalid)"
proof -
  have "notePath_of v = None \<or> notePath_of v = Some []"
    using assms(4) notePath_of_no_string [of v] notePath_of_string(1) [of v "[]"] by blast
  then show ?thesis
    using assms(1-3)
    by (auto simp: validate_entry_def adapter_read_def adapter_remove_def JSON_parse_def removed_def)
qed

lemma validate_entry_path:
  assumes "map_of (files w) f = Some (Json v)" "\<not> rejects w OpRead f"
    and "prop_of (prop_of v key_viewState) key_file = JStr np" "np \<noteq> []"
    and "\<not> rejects w OpExists np"
  shows "validate_entry w f =
     (if map_of (files w) np \<noteq> None \<or> np \<in> set (directories w) then Inr (w, Kept)
      else if rejects w OpRemove f then Inl AdapterError
      else Inr (removed w f, RemovedMissing))"
  using assms notePath_of_string [OF assms(3)]
  by (simp add: validate_entry_def adapter_read_def adapter_remove_def adapter_exists_def
      JSON_parse_def removed_def)

lemma validate_entry_never_fixed: "validate_entry w f \<noteq> Inr (w', Fixed)"
proof (cases "validate_entry w f")
  case (Inl e)
  then show ?thesis by simp
next
  case (Inr x)
  have n: "\<not> (isParsedStateMinimal v
           \<and> \<not> strict_eq (prop_of (prop_of v key_viewState) key_file) (JStr np))"
    if "notePath_of v = Some np" for v np
    using that by (auto simp: notePath_of_def split: if_splits jsval.splits)
  show ?thesis
    unfolding validate_entry_def
    by (auto simp: n Let_def split: sum.splits option.splits if_splits)
qed

lemma count_outcome_fields:
  "total_count (count_outcome out r) = total_count r"
  "out \<noteq> Fixed \<Longrightarrow> fixedViewStatePath (count_outcome out r) = fixedViewStatePath r"
  "removedInvalidEntry (count_outcome out r) + removedMissingNote (count_outcome out r)
     + errors_count (count_outcome out r)
   \<le> removedInvalidEntry r + removedMissingNote r + errors_count r + 1"
  by (cases out; simp add: count_outcome_def)+

lemma validate_loop_total:
  "total_count (snd (validate_loop fs w r)) = total_count r + length fs"
proof (induction fs arbitrary: w r)
  case Nil
  show ?case by simp
next
  case (Cons f fs)
  show ?case
    by (cases "validate_entry w f") (auto simp: Let_def Cons.IH count_outcome_fields)
qed

lemma validate_loop_fixed:
  "fixedViewStatePath (snd (validate_loop fs w r)) = fixedViewStatePath r"
proof (induction fs arbitrary: w r)
  case Nil
  show ?case by simp
next
  case (Cons f fs)
  show ?case
  proof (cases "validate_entry w f")
    case (Inl e)
    then show ?thesis by (simp add: Let_def Cons.IH)
  next
    case (Inr x)
    obtain w' out where x: "x = (w', out)" by (cases x)
    have "out \<noteq> Fixed" using Inr x validate_entry_never_fixed [of w f w'] by auto
    then show ?thesis using Inr x by (simp add: Let_def Cons.IH count_outcome_fields)
  qed
qed

lemma validate_loop_once:
  "removedInvalidEntry (snd (validate_loop fs w r)) + removedMissingNote (snd (validate_loop fs w r))
     + errors_count (snd (validate_loop fs w r))
   \<le> removedInvalidEntry r + removedMissingNote r + errors_count r + length fs"
proof (induction fs arbitrary: w r)
  case Nil
  show ?case by simp
next
  case (Cons f fs)
  show ?case
  proof (cases "validate_entry w f")
    case (Inl e)
    show ?thesis
      using Cons.IH [of w "r\<lparr>total_count := total_count r + 1, errors_count := errors_count r + 1\<rparr>"] Inl
      by (simp add: Let_def)
  next
    case (Inr x)
    obtain w' out where x: "x = (w', out)" by (cases x)
    show ?thesis
      using Cons.IH [of w' "count_outcome out (r\<lparr>total_count := total_count r + 1\<rparr>)"] Inr x
        count_outcome_fields(3) [of out "r\<lparr>total_count := total_count r + 1\<rparr>"]
      by (simp add: Let_def)
  qed
qed

lemma validate_loop_exception:
  "validate_entry w f = Inl e \<Longrightarrow>
   validate_loop (f # fs) w r
     = validate_loop fs w (r\<lparr>total_count := total_count r + 1, errors_count := errors_count r + 1\<rparr>)"
  by (simp add: Let_def)

lemma validateDatabase_completed:
  assumes "\<not> rejects w OpExists (dbDir w)"
    "map_of (files w) (dbDir w) \<noteq> None \<or> dbDir w \<in> set (directories w)"
    "\<not> rejects w OpList (dbDir w)"
  shows "validateDatabase w
         = (fst (validate_loop (stored_entries w) w report0),
            Completed (snd (validate_loop (stored_entries w) w report0)))"
  using assms
  by (simp add: validateDatabase_def adapter_exists_def adapter_list_def stored_entries_def
      case_prod_beta)

text \<open>
  C3, amended. For an entry that the adapter lets \<open>validateDatabase\<close> read, and remove
  where it removes: unparsable JSON is deleted and counted as removed-invalid; parsable JSON
  without a non-empty string \<open>viewState.file\<close> is deleted and counted as removed-invalid; an
  entry whose \<open>viewState.file\<close> is a non-empty string naming nothing that exists is deleted
  and counted as removed-missing; one naming something that exists is left as it is. The
  owning path is \<open>viewState.file\<close> itself, so no entry is counted as fixed. An exception in
  one entry adds one to the total and to the errors and the loop goes on with the next
  entry; every other entry adds one to the total and at most one to another counter. When
  the storage root exists and can be listed, the notice carries the counters of the loop
  over its \<open>.json\<close> entries: the total is their number, fixed is 0, and removed-invalid,
  removed-missing and errors together do not exceed the total.
\<close>

theorem validateDatabase_classifies:
  "(map_of (files w) f = Some Unparsable \<and> \<not> rejects w OpRead f \<and> \<not> rejects w OpRemove f
      \<longrightarrow> validate_entry w f = Inr (removed w f, RemovedInvalid))
   \<and> (map_of (files w) f = Some (Json v) \<and> \<not> rejects w OpRead f \<and> \<not> rejects w OpRemove f
       \<and> (typeof (prop_of (prop_of v key_viewState) key_file) \<noteq> TString
            \<or> prop_of (prop_of v key_viewState) key_file = JStr [])
      \<longrightarrow> validate_entry w f = Inr (removed w f, RemovedInvalid))
   \<and> (map_of (files w) f = Some (Json v) \<and> \<not> rejects w OpRead f \<and> \<not> rejects w OpRemove f
       \<and> prop_of (prop_of v key_viewState) key_file = JStr np \<and> np \<noteq> []
       \<and> \<not> rejects w OpExists np \<and> map_of (files w) np = None \<and> np \<notin> set (directories w)
      \<longrightarrow> validate_entry w f = Inr (removed w f, RemovedMissing))
   \<and> (map_of (files w) f = Some (Json v) \<and> \<not> rejects w OpRead f
       \<and> prop_of (prop_of v key_viewState) key_file = JStr np \<and> np \<noteq> []
       \<and> \<not> rejects w OpExists np \<and> (map_of (files w) np \<noteq> None \<or> np \<in> set (directories w))
      \<longrightarrow> validate_entry w f = Inr (w, Kept))
   \<and> validate_entry w f \<noteq> Inr (w', Fixed)
   \<and> (validate_entry w f = Inl e
      \<longrightarrow> validate_loop (f # fs) w r
          = validate_loop fs w (r\<lparr>total_count := total_count r + 1,
                                   errors_count := errors_count r + 1\<rparr>))
   \<and> (validate_entry w f = Inr (w', out)
      \<longrightarrow> validate_loop (f # fs) w r
          = validate_loop fs w' (count_outcome out (r\<lparr>total_count := total_count r + 1\<rparr>)))
   \<and> (\<not> rejects w OpExists (dbDir w)
       \<and> (map_of (files w) (dbDir w) \<noteq> None \<or> dbDir w \<in> set (directories w))
       \<and> \<not> rejects w OpList (dbDir w)
      \<longrightarrow> validateDatabase w
            = (fst (validate_loop (stored_entries w) w report0),
               Completed (snd (validate_loop (stored_entries w) w report0)))
        \<and> total_count (snd (validate_loop (stored_entries w) w report0)) = length (stored_entries w)
        \<and> fixedViewStatePath (snd (validate_loop (stored_entries w) w report0)) = 0
        \<and> removedInvalidEntry (snd (validate_loop (stored_entries w) w report0))
            + removedMissingNote (snd (validate_loop (stored_entries w) w report0))
            + errors_count (snd (validate_loop (stored_entries w) w report0))
           \<le> length (stored_entries w))"
proof -
  have 3: "validate_entry w f = Inr (removed w f, RemovedMissing)"
    if "map_of (files w) f = Some (Json v)" "\<not> rejects w OpRead f" "\<not> rejects w OpRemove f"
      "prop_of (prop_of v key_viewState) key_file = JStr np" "np \<noteq> []"
      "\<not> rejects w OpExists np" "map_of (files w) np = None" "np \<notin> set (directories w)"
    using validate_entry_path [OF that(1,2,4,5,6)] that(3,7,8) by simp
  have 4: "validate_entry w f = Inr (w, Kept)"
    if "map_of (files w) f = Some (Json v)" "\<not> rejects w OpRead f"
      "prop_of (prop_of v key_viewState) key_file = JStr np" "np \<noteq> []"
      "\<not> rejects w OpExists np" "map_of (files w) np \<noteq> None \<or> np \<in> set (directories w)"
    using validate_entry_path [OF that(1,2,3,4,5)] that(6) by auto
  have 7: "validate_loop (f # fs) w r
          = validate_loop fs w' (count_outcome out (r\<lparr>total_count := total_count r + 1\<rparr>))"
    if "validate_entry w f = Inr (w', out)"
    using that by (simp add: Let_def)
  have 8: "total_count (snd (validate_loop (stored_entries w) w report0)) = length (stored_entries w)"
    "fixedViewStatePath (snd (validate_loop (stored_entries w) w report0)) = 0"
    "removedInvalidEntry (snd (validate_loop (stored_entries w) w report0))
            + removedMissingNote (snd (validate_loop (stored_entries w) w report0))
            + errors_count (snd (validate_loop (stored_entries w) w report0))
           \<le> length (stored_entries w)"
    using validate_loop_total [of "stored_entries w" w report0]
      validate_loop_fixed [of "stored_entries w" w report0]
      validate_loop_once [of "stored_entries w" w report0]
    by (simp_all add: report0_def)
  show ?thesis
    using validate_entry_unparsable [of w f] validate_entry_no_path [of w f v] 3 4
      validate_entry_never_fixed [of w f w'] validate_loop_exception [of w f e fs r] 7 8
      validateDatabase_completed [of w]
    by blast
qed

lemmas world_four_eval = world_four_def world0_def removed_def js_def

lemma world_four_entries:
  "stored_entries world_four = [js ''db/a.json'', js ''db/b.json'', js ''db/c.json'', js ''db/d.json'']"
  by (simp add: stored_entries_def in_directory_def endsWith_json_def lower_ascii_def
      world_four_def world0_def js_def)

text \<open>
  The four-record scenario: total 4, removed-missing 1, removed-invalid 2, errors 0, and
  only the valid record (and the note) remain.
\<close>

theorem validateDatabase_classifies_witness:
  "validateDatabase world_four
     = (world_four\<lparr>files :=
          [(js ''db/a.json'',
            Json (JObj [(key_viewState, JObj [(key_file, JStr (js ''valid.md''))]),
                        (key_scroll, JNum (Fin 1))])),
           (js ''valid.md'', Unparsable)],
          directories := [js ''db'']\<rparr>,
        Completed \<lparr>total_count = 4, fixedViewStatePath = 0, removedMissingNote = 1,
                   removedInvalidEntry = 2, errors_count = 0\<rparr>)"
proof -
  let ?a = "js ''db/a.json''" and ?b = "js ''db/b.json''" and ?c = "js ''db/c.json''"
    and ?d = "js ''db/d.json''"
  let ?va = "JObj [(key_viewState, JObj [(key_file, JStr (js ''valid.md''))]), (key_scroll, JNum (Fin 1))]"
  let ?vb = "JObj [(key_viewState, JObj [(key_file, JStr (js ''missing.md''))])]"
  let ?vd = "JObj [(key_scroll, JNum (Fin 100))]"
  let ?w1 = "removed world_four ?b"
  let ?w2 = "removed ?w1 ?c"
  let ?w3 = "removed ?w2 ?d"
  note T = validateDatabase_classifies
  have a: "validate_entry world_four ?a = Inr (world_four, Kept)"
  proof -
    have "map_of (files world_four) ?a = Some (Json ?va)" "\<not> rejects world_four OpRead ?a"
      "prop_of (prop_of ?va key_viewState) key_file = JStr (js ''valid.md'')" "js ''valid.md'' \<noteq> []"
      "\<not> rejects world_four OpExists (js ''valid.md'')"
      "map_of (files world_four) (js ''valid.md'') \<noteq> None"
      by (simp_all add: world_four_eval prop_of_def)
    then show ?thesis
      using T [where w = world_four and f = ?a and v = ?va and np = "js ''valid.md''"] by blast
  qed
  have b: "validate_entry world_four ?b = Inr (?w1, RemovedMissing)"
  proof -
    have "map_of (files world_four) ?b = Some (Json ?vb)" "\<not> rejects world_four OpRead ?b"
      "\<not> rejects world_four OpRemove ?b"
      "prop_of (prop_of ?vb key_viewState) key_file = JStr (js ''missing.md'')" "js ''missing.md'' \<noteq> []"
      "\<not> rejects world_four OpExists (js ''missing.md'')"
      "map_of (files world_four) (js ''missing.md'') = None"
      "js ''missing.md'' \<notin> set (directories world_four)"
      by (simp_all add: world_four_eval prop_of_def)
    then show ?thesis
      using T [where w = world_four and f = ?b and v = ?vb and np = "js ''missing.md''"] by blast
  qed
  have c: "validate_entry ?w1 ?c = Inr (?w2, RemovedInvalid)"
  proof -
    have "map_of (files ?w1) ?c = Some Unparsable" "\<not> rejects ?w1 OpRead ?c"
      "\<not> rejects ?w1 OpRemove ?c"
      by (simp_all add: world_four_eval)
    then show ?thesis
      using T [where w = ?w1 and f = ?c] by blast
  qed
  have d: "validate_entry ?w2 ?d = Inr (?w3, RemovedInvalid)"
  proof -
    have "map_of (files ?w2) ?d = Some (Json ?vd)" "\<not> rejects ?w2 OpRead ?d"
      "\<not> rejects ?w2 OpRemove ?d"
      "typeof (prop_of (prop_of ?vd key_viewState) key_file) \<noteq> TString"
      by (simp_all add: world_four_eval prop_of_def)
    then show ?thesis
      using T [where w = ?w2 and f = ?d and v = ?vd] by blast
  qed
  have l: "validate_loop [?a, ?b, ?c, ?d] world_four report0
      = (?w3, \<lparr>total_count = 4, fixedViewStatePath = 0, removedMissingNote = 1,
                   removedInvalidEntry = 2, errors_count = 0\<rparr>)"
    by (simp add: a b c d Let_def count_outcome_def report0_def)
  have h: "\<not> rejects world_four OpExists (dbDir world_four)"
    "dbDir world_four \<in> set (directories world_four)"
    "\<not> rejects world_four OpList (dbDir world_four)"
    by (simp_all add: world_four_def world0_def)
  have v: "validateDatabase world_four
      = (?w3, Completed \<lparr>total_count = 4, fixedViewStatePath = 0, removedMissingNote = 1,
                   removedInvalidEntry = 2, errors_count = 0\<rparr>)"
  proof -
    have "validateDatabase world_four
         = (fst (validate_loop (stored_entries world_four) world_four report0),
            Completed (snd (validate_loop (stored_entries world_four) world_four report0)))"
      using T [where w = world_four] h by blast
    then show ?thesis by (simp only: world_four_entries l fst_conv snd_conv)
  qed
  have w3: "?w3 = world_four\<lparr>files := [(?a, Json ?va), (js ''valid.md'', Unparsable)],
                 directories := [js ''db'']\<rparr>"
    by (simp add: world_four_eval)
  show ?thesis using v w3 by simp
qed

text \<open>
  C3 as stated fails for a record whose \<open>viewState.file\<close> is the empty string: it has a
  string \<open>viewState.file\<close>, nothing exists at that path, and it is counted as
  removed-invalid, not as removed-missing.
\<close>

theorem validateDatabase_empty_path_counterexample:
  "map_of (files world_empty_path) (js ''db/e.json'')
     = Some (Json (JObj [(key_viewState, JObj [(key_file, JStr [])])]))
   \<and> typeof (prop_of (prop_of (JObj [(key_viewState, JObj [(key_file, JStr [])])]) key_viewState)
        key_file) = TString
   \<and> adapter_exists world_empty_path [] = Inr False
   \<and> snd (validateDatabase world_empty_path)
       = Completed \<lparr>total_count = 1, fixedViewStatePath = 0, removedMissingNote = 0,
                    removedInvalidEntry = 1, errors_count = 0\<rparr>"
proof -
  let ?e = "js ''db/e.json''"
  let ?v = "JObj [(key_viewState, JObj [(key_file, JStr [])])]"
  have s: "stored_entries world_empty_path = [?e]"
    by (simp add: stored_entries_def in_directory_def endsWith_json_def lower_ascii_def
        world_empty_path_def world0_def js_def)
  have f: "map_of (files world_empty_path) ?e = Some (Json ?v)"
    by (simp add: world_empty_path_def world0_def)
  have p: "prop_of (prop_of ?v key_viewState) key_file = JStr []"
    by (simp add: prop_of_def)
  have r: "\<not> rejects world_empty_path OpRead ?e" "\<not> rejects world_empty_path OpRemove ?e"
    by (simp_all add: world_empty_path_def world0_def)
  have e: "validate_entry world_empty_path ?e = Inr (removed world_empty_path ?e, RemovedInvalid)"
    using validate_entry_no_path [OF f r] p by simp
  have x: "adapter_exists world_empty_path [] = Inr False"
    by (simp add: adapter_exists_def world_empty_path_def world0_def js_def)
  have h: "\<not> rejects world_empty_path OpExists (dbDir world_empty_path)"
    "dbDir world_empty_path \<in> set (directories world_empty_path)"
    "\<not> rejects world_empty_path OpList (dbDir world_empty_path)"
    by (simp_all add: world_empty_path_def world0_def)
  have "snd (validateDatabase world_empty_path)
       = Completed \<lparr>total_count = 1, fixedViewStatePath = 0, removedMissingNote = 0,
                    removedInvalidEntry = 1, errors_count = 0\<rparr>"
  proof -
    have l: "validate_loop [?e] world_empty_path report0
        = (removed world_empty_path ?e,
           \<lparr>total_count = 1, fixedViewStatePath = 0, removedMissingNote = 0,
                    removedInvalidEntry = 1, errors_count = 0\<rparr>)"
      by (simp add: e Let_def count_outcome_def report0_def)
    have "validateDatabase world_empty_path
         = (fst (validate_loop (stored_entries world_empty_path) world_empty_path report0),
            Completed (snd (validate_loop (stored_entries world_empty_path) world_empty_path report0)))"
      using h by (intro validateDatabase_completed) simp_all
    then show ?thesis by (simp only: s l fst_conv snd_conv)
  qed
  then show ?thesis using f p x by simp
qed

section \<open>\<open>toggleLockState\<close>\<close>

lemma setTemporaryState_files: "files (setTemporaryState w s) = files w"
  by (simp add: setTemporaryState_def Let_def split: option.splits)

lemma enforceReadOnlyMode_files:
  "files (enforceReadOnlyMode w p) = files w
   \<or> files (enforceReadOnlyMode w p) = files (fst (readFileState w p))"
proof (cases "activeView w")
  case None
  then show ?thesis by (simp add: enforceReadOnlyMode_def)
next
  case (Some active)
  show ?thesis
  proof (cases "view_file active = Some p")
    case False
    then show ?thesis using Some by (simp add: enforceReadOnlyMode_def)
  next
    case True
    have "files (enforceReadOnlyMode w p) = files (fst (readFileState w p))"
      using Some True
      by (simp add: enforceReadOnlyMode_def isFileLocked_def Let_def case_prod_beta
          setTemporaryState_files)
    then show ?thesis by simp
  qed
qed

lemma readFileState_settled:
  assumes F: "map_of (files w) (getDbFilePath (dbDir w) p) = Some (Json (JObj qs))"
    and H: "has_lock_fields (JObj qs)" and V: "validateViewStateFile (JObj qs) p"
  shows "fst (readFileState w p) = w"
proof (cases "rejects w OpExists (getDbFilePath (dbDir w) p) \<or> rejects w OpRead (getDbFilePath (dbDir w) p)")
  case True
  then show ?thesis using readFileState_rejected [of w p] by simp
next
  case False
  then have r: "\<not> rejects w OpExists (getDbFilePath (dbDir w) p)"
    "\<not> rejects w OpRead (getDbFilePath (dbDir w) p)" by simp_all
  have c: "\<not> snd (ensureLockDefaults (JObj qs))"
    using H by (simp add: ensureLockDefaults_changed)
  then have u: "fst (ensureLockDefaults (JObj qs)) = JObj qs"
    by (rule ensureLockDefaults_unchanged)
  show ?thesis
    unfolding readFileState_present [OF F r] Let_def u using c V by simp
qed

lemma to_json_props_update:
  "is_json_props cs \<Longrightarrow> to_json v = Some j \<Longrightarrow>
   to_json_props (AList.update k v cs) = AList.update k j cs"
  by (induction cs) (auto simp: is_json_to_json)

lemma getFileTimestamp_fields:
  "stats w' = stats w \<Longrightarrow> rejects w' = rejects w \<Longrightarrow> getFileTimestamp w' p = getFileTimestamp w p"
  by (simp add: getFileTimestamp_def adapter_stat_def)

lemma getFileTimestamp_Inr:
  "getFileTimestamp w p = Inr t \<Longrightarrow> \<exists>n. t = JNum n"
proof -
  assume a: "getFileTimestamp w p = Inr t"
  then have "typeof t = TNumber"
    by (auto simp: getFileTimestamp_def adapter_stat_def split: if_splits)
  then show ?thesis by (cases t) simp_all
qed

lemma getFileTimestamp_no_mtime:
  "rejects w OpStat p \<or> \<not> truthy (stats w p) \<or> typeof (prop_of (stats w p) key_mtime) \<noteq> TNumber
   \<Longrightarrow> \<exists>e. getFileTimestamp w p = Inl e"
  by (auto simp: getFileTimestamp_def adapter_stat_def)

lemma readFileState_stats: "stats (fst (readFileState w p)) = stats w"
  by (subst readFileState_frame) simp

lemma readFileState_lockStatusBar: "lockStatusBar (fst (readFileState w p)) = lockStatusBar w"
  by (subst readFileState_frame) simp

lemma to_json_timestamp:
  "t = JNull \<or> (\<exists>n. t = JNum n) \<Longrightarrow> to_json t = Some (json_number t)"
  by (auto simp: json_number_def split: jsnum.splits)

lemma toggleLockState_files:
  assumes rej: "\<not> rejects w OpExists (dbDir w)" "\<not> rejects w OpMkdir (dbDir w)"
      "\<not> rejects w OpWrite (getDbFilePath (dbDir w) p)"
    and cur: "(if truthy (snd (readFileState w p)) then snd (readFileState w p) else JObj []) = JObj cs"
    and J: "is_json_props cs" and V: "validateViewStateFile (JObj cs) p"
  shows "files (toggleLockState w p)
     = AList.update (getDbFilePath (dbDir w) p)
         (Json (JObj (AList.update key_timestamp
            (json_number (if \<not> truthy (prop_of (JObj cs) key_protected)
                          then (case getFileTimestamp w p of Inl e \<Rightarrow> JNull | Inr t \<Rightarrow> t)
                          else JNull))
            (AList.update key_protected (JBool (\<not> truthy (prop_of (JObj cs) key_protected))) cs))))
         (files (fst (readFileState w p)))"
proof -
  let ?db = "getDbFilePath (dbDir w) p"
  obtain w1 r where R: "readFileState w p = (w1, r)" by (cases "readFileState w p")
  have sr: "snd (readFileState w p) = r" using R by simp
  have c: "(if truthy r then r else JObj []) = JObj cs" using cur unfolding sr .
  have f1: "rejects w1 = rejects w" "dbDir w1 = dbDir w" "stats w1 = stats w"
    using readFileState_fields(1,2) [of w p] readFileState_stats [of w p] R by simp_all
  define np where "np = (\<not> truthy (prop_of (JObj cs) key_protected))"
  define w2 where "w2 = (case lockStatusBar w1 of None \<Rightarrow> w1
      | Some i \<Rightarrow> w1\<lparr>lockStatusBar := Some (if np then Locked else Unlocked)\<rparr>)"
  have f2: "files w2 = files w1" "rejects w2 = rejects w" "dbDir w2 = dbDir w" "stats w2 = stats w"
    using f1 by (simp_all add: w2_def split: option.splits)
  define T where "T = (if np then (case getFileTimestamp w2 p of Inl e \<Rightarrow> JNull | Inr t \<Rightarrow> t) else JNull)"
  have gt: "getFileTimestamp w2 p = getFileTimestamp w p"
    using f2(2,4) by (intro getFileTimestamp_fields) simp_all
  have Tn: "T = JNull \<or> (\<exists>n. T = JNum n)"
    using getFileTimestamp_Inr [of w2 p] by (auto simp: T_def split: sum.splits)
  define ns where "ns = AList.update key_timestamp T (AList.update key_protected (JBool np) cs)"
  define js where "js = AList.update key_timestamp (json_number T) (AList.update key_protected (JBool np) cs)"
  have hl: "has_lock_fields (JObj ns)"
    using Tn by (auto simp: has_lock_fields_def ns_def prop_of_update)
  have ss: "stateToSave (JObj ns) = JObj ns"
    using hl by (rule stateToSave_settled)
  have j1: "is_json_props (AList.update key_protected (JBool np) cs)"
    using J by (simp add: is_json_props_update)
  have tj: "to_json_props ns = js"
    unfolding ns_def js_def using j1 to_json_timestamp [OF Tn] by (rule to_json_props_update)
  have st: "JSON_stringify (stateToSave (JObj ns)) = Json (JObj js)"
    by (simp add: ss JSON_stringify_def tj)
  define w3 where "w3 = writeFileState w2 p (JObj ns)"
  have f3: "files w3 = AList.update ?db (Json (JObj js)) (files w1)"
    using writeFileState_files [of w2 p "JObj ns"] rej f2 st by (simp add: w3_def)
  have d3: "dbDir w3 = dbDir w"
    using writeFileState_fields(2) [of w2 p "JObj ns"] f2(3) by (simp add: w3_def)
  define w4 where "w4 = w3\<lparr>lastTemporaryState :=
      JObj (assign (own_props (if truthy (lastTemporaryState w3) then lastTemporaryState w3 else JObj []))
                   (own_props (JObj ns)))\<rparr>"
  have f4: "files w4 = files w3" "dbDir w4 = dbDir w" by (simp_all add: w4_def d3)
  have tg: "toggleLockState w p = (if np then enforceReadOnlyMode w4 p else w4)"
    using c by (simp add: toggleLockState_def R Let_def np_def w2_def T_def ns_def w3_def w4_def)
  have jn: "is_json (json_number T)"
    by (auto simp: json_number_def split: jsval.splits jsnum.splits)
  have jj: "is_json_props js"
    using is_json_props_update [OF j1 jn] by (simp add: js_def)
  have hj: "has_lock_fields (JObj js)"
    using Tn by (auto simp: has_lock_fields_def js_def prop_of_update json_number_def split: jsnum.splits)
  have vj: "validateViewStateFile (JObj js) p"
    using V validateViewStateFile_viewState [of js cs p] by (simp add: js_def prop_of_update)
  have F4: "map_of (files w4) (getDbFilePath (dbDir w4) p) = Some (Json (JObj js))"
    by (simp add: f4 f3 update_conv')
  have "fst (readFileState w4 p) = w4"
    using F4 hj vj by (rule readFileState_settled)
  then have "files (enforceReadOnlyMode w4 p) = files w4"
    using enforceReadOnlyMode_files [of w4 p] by auto
  then have "files (toggleLockState w p) = AList.update ?db (Json (JObj js)) (files w1)"
    by (simp add: tg f4 f3)
  then show ?thesis
    using R by (simp add: js_def T_def np_def gt)
qed

lemma readFileState_try_files:
  "readFileState_try w p = Inr (w', r) \<Longrightarrow>
   files w' = files w \<or> (\<exists>t. files w' = AList.update (getDbFilePath (dbDir w) p) t (files w))"
  unfolding readFileState_try_def Let_def
  by (auto split: sum.splits prod.splits if_splits dest!: adapter_write_frame)

lemma readFileState_other_files:
  assumes "q \<noteq> getDbFilePath (dbDir w) p"
  shows "map_of (files (fst (readFileState w p))) q = map_of (files w) q"
proof (cases "readFileState_try w p")
  case (Inl e)
  then show ?thesis by (simp add: readFileState_def)
next
  case (Inr x)
  then show ?thesis
    using readFileState_try_files [of w p "fst x" "snd x"] assms
    by (auto simp: readFileState_def update_conv')
qed

lemma validateViewStateFile_empty: "validateViewStateFile (JObj []) p"
  by (simp add: validateViewStateFile_def isParsedStateMinimal_def Let_def prop_of_def)

lemma toggle_current:
  assumes "map_of (files w) (getDbFilePath (dbDir w) p) = None
      \<or> map_of (files w) (getDbFilePath (dbDir w) p) = Some Unparsable
      \<or> (\<exists>ps. map_of (files w) (getDbFilePath (dbDir w) p) = Some (Json (JObj ps)) \<and> is_json_props ps)"
  shows "\<exists>cs. (if truthy (snd (readFileState w p)) then snd (readFileState w p) else JObj []) = JObj cs
     \<and> is_json_props cs \<and> validateViewStateFile (JObj cs) p"
proof (cases "truthy (snd (readFileState w p))")
  case False
  then show ?thesis using validateViewStateFile_empty by auto
next
  case True
  have "map_of (files w) (getDbFilePath (dbDir w) p) \<noteq> None"
  proof
    assume "map_of (files w) (getDbFilePath (dbDir w) p) = None"
    then have "snd (readFileState w p) = JNull" using readFileState_absent [of w p] by simp
    then show False using True by simp
  qed
  moreover have "map_of (files w) (getDbFilePath (dbDir w) p) \<noteq> Some Unparsable"
  proof
    assume "map_of (files w) (getDbFilePath (dbDir w) p) = Some Unparsable"
    then have "snd (readFileState w p) = JNull" using readFileState_unparsable [of w p] by simp
    then show False using True by simp
  qed
  ultimately obtain ps where ps: "map_of (files w) (getDbFilePath (dbDir w) p) = Some (Json (JObj ps))"
    "is_json_props ps" using assms by auto
  show ?thesis
    using readFileState_returned_json [OF ps True] True by auto
qed

text \<open>
  Let \<open>current\<close> be what \<open>readFileState\<close> returns for the path, or the empty object
  when it returns nothing. When the adapter accepts the write, \<open>toggleLockState\<close> leaves
  at the derived location a record whose \<open>protected\<close> is the negation of
  \<open>current.protected\<close> (so \<open>true\<close> when no record was stored) and which keeps the other
  properties of \<open>current\<close>. When it locks and the timestamp cannot be captured (\<open>stat\<close>
  is rejected or resolves to a value without a numeric \<open>mtime\<close>, so that
  \<open>getFileTimestamp\<close> throws), the record is persisted all the same, with \<open>protected\<close>
  true and \<open>timestamp\<close> \<open>null\<close>; when it locks and the capture gives a finite number,
  that is the timestamp; when it unlocks, the timestamp is \<open>null\<close>. No other file changes.
  The stored text, if any, is assumed to be unparsable or a JSON object. Nothing here
  relates \<open>current\<close> to the stored record: \<open>readFileState\<close> returns nothing for a stored
  record while a flashing span is shown.
\<close>

lemma toggleLockState_of_read:
  assumes "\<not> rejects w OpExists (dbDir w)" "\<not> rejects w OpMkdir (dbDir w)"
      "\<not> rejects w OpWrite (getDbFilePath (dbDir w) p)"
    and "map_of (files w) (getDbFilePath (dbDir w) p) = None
      \<or> map_of (files w) (getDbFilePath (dbDir w) p) = Some Unparsable
      \<or> (\<exists>ps. map_of (files w) (getDbFilePath (dbDir w) p) = Some (Json (JObj ps)) \<and> is_json_props ps)"
    and "current = (if truthy (snd (readFileState w p)) then snd (readFileState w p) else JObj [])"
  shows "\<exists>rs. map_of (files (toggleLockState w p)) (getDbFilePath (dbDir w) p) = Some (Json (JObj rs))
     \<and> map_of rs key_protected = Some (JBool (\<not> truthy (prop_of current key_protected)))
     \<and> (map_of (files w) (getDbFilePath (dbDir w) p) = None
          \<longrightarrow> map_of rs key_protected = Some (JBool True))
     \<and> (truthy (prop_of current key_protected) \<longrightarrow> map_of rs key_timestamp = Some JNull)
     \<and> (\<not> truthy (prop_of current key_protected)
          \<and> (rejects w OpStat p \<or> \<not> truthy (stats w p)
               \<or> typeof (prop_of (stats w p) key_mtime) \<noteq> TNumber)
          \<longrightarrow> (\<exists>e. getFileTimestamp w p = Inl e) \<and> map_of rs key_timestamp = Some JNull)
     \<and> (\<forall>t. \<not> truthy (prop_of current key_protected) \<and> getFileTimestamp w p = Inr (JNum (Fin t))
          \<longrightarrow> map_of rs key_timestamp = Some (JNum (Fin t)))
     \<and> (\<forall>k. k \<noteq> key_protected \<and> k \<noteq> key_timestamp
          \<longrightarrow> map_of rs k = map_of (own_props current) k)
     \<and> (\<forall>q. q \<noteq> getDbFilePath (dbDir w) p
          \<longrightarrow> map_of (files (toggleLockState w p)) q = map_of (files w) q)"
proof -
  let ?db = "getDbFilePath (dbDir w) p"
  obtain cs where cs: "current = JObj cs" "is_json_props cs" "validateViewStateFile (JObj cs) p"
    using toggle_current [OF assms(4)] assms(5) by auto
  have cur: "(if truthy (snd (readFileState w p)) then snd (readFileState w p) else JObj []) = JObj cs"
    using cs(1) assms(5) by simp
  define np where "np = (\<not> truthy (prop_of (JObj cs) key_protected))"
  define T where "T = json_number (if np then (case getFileTimestamp w p of Inl e \<Rightarrow> JNull | Inr t \<Rightarrow> t)
                          else JNull)"
  define rs where "rs = AList.update key_timestamp T (AList.update key_protected (JBool np) cs)"
  have fl: "files (toggleLockState w p) = AList.update ?db (Json (JObj rs)) (files (fst (readFileState w p)))"
    using toggleLockState_files [OF assms(1-3) cur cs(2,3)] by (simp add: rs_def T_def np_def)
  have 0: "map_of (files (toggleLockState w p)) ?db = Some (Json (JObj rs))"
    by (simp add: fl update_conv')
  have 1: "map_of rs key_protected = Some (JBool (\<not> truthy (prop_of current key_protected)))"
    by (simp add: rs_def update_conv' np_def cs(1))
  have 2: "map_of rs key_protected = Some (JBool True)" if "map_of (files w) ?db = None"
  proof -
    have "snd (readFileState w p) = JNull" using readFileState_absent [OF that] by simp
    then have "current = JObj []" using assms(5) by simp
    then show ?thesis using 1 by (simp add: prop_of_def)
  qed
  have 3: "map_of rs key_timestamp = Some JNull" if "truthy (prop_of current key_protected)"
    using that by (simp add: rs_def update_conv' T_def np_def cs(1) json_number_def)
  have 4: "(\<exists>e. getFileTimestamp w p = Inl e) \<and> map_of rs key_timestamp = Some JNull"
    if h: "\<not> truthy (prop_of current key_protected)
          \<and> (rejects w OpStat p \<or> \<not> truthy (stats w p)
               \<or> typeof (prop_of (stats w p) key_mtime) \<noteq> TNumber)"
  proof -
    obtain e where e: "getFileTimestamp w p = Inl e"
      using getFileTimestamp_no_mtime [of w p] h by blast
    then show ?thesis
      by (auto simp: rs_def update_conv' T_def json_number_def)
  qed
  have 5: "map_of rs key_timestamp = Some (JNum (Fin t))"
    if "\<not> truthy (prop_of current key_protected) \<and> getFileTimestamp w p = Inr (JNum (Fin t))" for t
    using that by (simp add: rs_def update_conv' T_def np_def cs(1) json_number_def)
  have 6: "map_of rs k = map_of (own_props current) k"
    if "k \<noteq> key_protected \<and> k \<noteq> key_timestamp" for k
    using that by (simp add: rs_def update_conv' cs(1))
  have 7: "map_of (files (toggleLockState w p)) q = map_of (files w) q" if "q \<noteq> ?db" for q
    using that readFileState_other_files [of q w p] by (simp add: fl update_conv')
  show ?thesis
    using 0 1 2 3 4 5 6 7 by (intro exI [of _ rs]) blast
qed

lemma toggleLockState_of_read_examples:
  "(\<exists>rs. map_of (files (toggleLockState world0 (js ''note.md'')))
             (getDbFilePath (js ''db'') (js ''note.md'')) = Some (Json (JObj rs))
      \<and> map_of rs key_protected = Some (JBool True) \<and> map_of rs key_timestamp = Some JNull)
   \<and> (\<exists>rs. map_of (files (toggleLockState world_mtime (js ''note.md'')))
             (getDbFilePath (js ''db'') (js ''note.md'')) = Some (Json (JObj rs))
      \<and> map_of rs key_protected = Some (JBool True)
      \<and> map_of rs key_timestamp = Some (JNum (Fin 42)))
   \<and> (\<exists>rs. map_of (files (toggleLockState world_locked (js ''note.md'')))
             (getDbFilePath (js ''db'') (js ''note.md'')) = Some (Json (JObj rs))
      \<and> map_of rs key_protected = Some (JBool False) \<and> map_of rs key_timestamp = Some JNull
      \<and> map_of rs key_scroll = Some (JNum (Fin 1)))"
proof -
  let ?p = "js ''note.md''"
  have a: "\<not> rejects world0 OpExists (dbDir world0)" "\<not> rejects world0 OpMkdir (dbDir world0)"
    "\<not> rejects world0 OpWrite (getDbFilePath (dbDir world0) ?p)"
    "map_of (files world0) (getDbFilePath (dbDir world0) ?p) = None"
    "\<not> truthy (stats world0 ?p)" "dbDir world0 = js ''db''"
    by (simp_all add: world0_def)
  have ra: "snd (readFileState world0 ?p) = JNull"
    using readFileState_absent [OF a(4)] by simp
  have ca: "prop_of (if truthy (snd (readFileState world0 ?p)) then snd (readFileState world0 ?p)
                     else JObj []) key_protected = JUndefined"
    by (simp add: ra prop_of_def)
  from toggleLockState_of_read [OF a(1-3) _ refl] a(4,5) ca
  have 1: "\<exists>rs. map_of (files (toggleLockState world0 ?p)) (getDbFilePath (dbDir world0) ?p)
        = Some (Json (JObj rs))
      \<and> map_of rs key_protected = Some (JBool True) \<and> map_of rs key_timestamp = Some JNull"
    by auto
  have b: "\<not> rejects world_mtime OpExists (dbDir world_mtime)"
    "\<not> rejects world_mtime OpMkdir (dbDir world_mtime)"
    "\<not> rejects world_mtime OpWrite (getDbFilePath (dbDir world_mtime) ?p)"
    "map_of (files world_mtime) (getDbFilePath (dbDir world_mtime) ?p) = None"
    "dbDir world_mtime = js ''db''"
    by (simp_all add: world_mtime_def world0_def)
  have gb: "getFileTimestamp world_mtime ?p = Inr (JNum (Fin 42))"
    by (simp add: getFileTimestamp_def adapter_stat_def world_mtime_def world0_def prop_of_def)
  have rb: "snd (readFileState world_mtime ?p) = JNull"
    using readFileState_absent [OF b(4)] by simp
  have cb: "prop_of (if truthy (snd (readFileState world_mtime ?p)) then snd (readFileState world_mtime ?p)
                     else JObj []) key_protected = JUndefined"
    by (simp add: rb prop_of_def)
  from toggleLockState_of_read [OF b(1-3) _ refl] b(4) gb cb
  have 2: "\<exists>rs. map_of (files (toggleLockState world_mtime ?p)) (getDbFilePath (dbDir world_mtime) ?p)
        = Some (Json (JObj rs))
      \<and> map_of rs key_protected = Some (JBool True)
      \<and> map_of rs key_timestamp = Some (JNum (Fin 42))"
    by auto
  let ?ps = "[(key_scroll, JNum (Fin 1)), (key_protected, JBool True),
              (key_timestamp, JNum (Fin 1000))]"
  have c: "\<not> rejects world_locked OpExists (dbDir world_locked)"
    "\<not> rejects world_locked OpMkdir (dbDir world_locked)"
    "\<not> rejects world_locked OpWrite (getDbFilePath (dbDir world_locked) ?p)"
    "dbDir world_locked = js ''db''"
    by (simp_all add: world_locked_def world_flashing_def world0_def)
  have F: "map_of (files world_locked) (getDbFilePath (dbDir world_locked) ?p) = Some (Json (JObj ?ps))"
    by (simp add: world_locked_def world_flashing_def world0_def)
  have J: "is_json_props ?ps" by simp
  have rj: "\<not> rejects world_locked OpExists (getDbFilePath (dbDir world_locked) ?p)"
    "\<not> rejects world_locked OpRead (getDbFilePath (dbDir world_locked) ?p)"
    by (simp_all add: world_locked_def world_flashing_def world0_def)
  have e: "ensureLockDefaults (JObj ?ps) = (JObj ?ps, False)"
    by (simp add: ensureLockDefaults_def prop_of_def Let_def)
  have v: "validateViewStateFile (JObj ?ps) ?p"
    by (simp add: validateViewStateFile_def isParsedStateMinimal_def prop_of_def Let_def)
  have fl: "\<not> flashing world_locked" by (simp add: world_locked_def world_flashing_def world0_def)
  have rc: "snd (readFileState world_locked ?p) = JObj ?ps"
    unfolding readFileState_present [OF F rj] Let_def e using v fl by simp
  have cc: "(if truthy (snd (readFileState world_locked ?p)) then snd (readFileState world_locked ?p)
             else JObj []) = JObj ?ps"
    by (simp add: rc)
  have st: "\<exists>ps. map_of (files world_locked) (getDbFilePath (dbDir world_locked) ?p)
                = Some (Json (JObj ps)) \<and> is_json_props ps"
    using F J by blast
  from toggleLockState_of_read [OF c(1-3) _ cc [symmetric]] st
  obtain rs where rs: "map_of (files (toggleLockState world_locked ?p)) (getDbFilePath (dbDir world_locked) ?p)
        = Some (Json (JObj rs))"
    "map_of rs key_protected = Some (JBool (\<not> truthy (prop_of (JObj ?ps) key_protected)))"
    "truthy (prop_of (JObj ?ps) key_protected) \<longrightarrow> map_of rs key_timestamp = Some JNull"
    "\<forall>k. k \<noteq> key_protected \<and> k \<noteq> key_timestamp \<longrightarrow> map_of rs k = map_of (own_props (JObj ?ps)) k"
    by blast
  have pp: "prop_of (JObj ?ps) key_protected = JBool True" by (simp add: prop_of_def)
  have 3: "\<exists>rs. map_of (files (toggleLockState world_locked ?p)) (getDbFilePath (dbDir world_locked) ?p)
        = Some (Json (JObj rs))
      \<and> map_of rs key_protected = Some (JBool False) \<and> map_of rs key_timestamp = Some JNull
      \<and> map_of rs key_scroll = Some (JNum (Fin 1))"
    using rs pp by (intro exI [of _ rs]) simp
  show ?thesis
    using 1 2 3 unfolding a(6) b(5) c(4) by blast
qed

text \<open>
  C7. \<open>toggleLockState\<close> should flip the \<open>protected\<close> flag of the record stored for the
  path, and it does when no flashing span is shown: the locked record of \<open>note.md\<close>
  becomes unlocked with \<open>timestamp\<close> \<open>null\<close> and keeps its scroll (last conjunct). While
  a flashing span is shown, \<open>readFileState\<close> returns \<open>null\<close> for the same record, the
  toggle starts from the empty object, and the record it persists is still locked,
  \<open>protected: true\<close> with \<open>timestamp: null\<close> since \<open>stat\<close> reports no modification time,
  and has lost its scroll.
\<close>

theorem toggleLockState_flashing_keeps_lock:
  "map_of (files world_flashing) (getDbFilePath (dbDir world_flashing) (js ''note.md''))
     = Some (Json (JObj [(key_scroll, JNum (Fin 1)), (key_protected, JBool True),
                         (key_timestamp, JNum (Fin 1000))]))
   \<and> files (toggleLockState world_flashing (js ''note.md''))
       = [(getDbFilePath (js ''db'') (js ''note.md''),
           Json (JObj [(key_protected, JBool True), (key_timestamp, JNull)]))]
   \<and> files (toggleLockState world_locked (js ''note.md''))
       = [(getDbFilePath (js ''db'') (js ''note.md''),
           Json (JObj [(key_scroll, JNum (Fin 1)), (key_protected, JBool False),
                       (key_timestamp, JNull)]))]"
proof -
  have a: "files world_flashing = files world_flashing" "dbDir world_flashing = js ''db''"
    "rejects world_flashing = (\<lambda>opn p. False)" "flashing world_flashing"
    "lockStatusBar world_flashing = None" "activeView world_flashing = None"
    by (simp_all add: world_flashing_def world0_def)
  have b: "files world_locked = files world_flashing" "dbDir world_locked = js ''db''"
    "rejects world_locked = (\<lambda>opn p. False)" "\<not> flashing world_locked"
    "lockStatusBar world_locked = None" "activeView world_locked = None"
    by (simp_all add: world_locked_def world_flashing_def world0_def)
  have F: "map_of (files world_flashing) (getDbFilePath (dbDir world_flashing) (js ''note.md''))
     = Some (Json (JObj [(key_scroll, JNum (Fin 1)), (key_protected, JBool True),
                         (key_timestamp, JNum (Fin 1000))]))"
    by (simp add: world_flashing_def world0_def)
  have c: "stats world_flashing = (\<lambda>p. JNull)" "files world_flashing
      = [(getDbFilePath (js ''db'') (js ''note.md''),
          Json (JObj [(key_scroll, JNum (Fin 1)), (key_protected, JBool True),
                      (key_timestamp, JNum (Fin 1000))]))]"
    by (simp_all add: world_flashing_def world0_def)
  have 1: "files (toggleLockState world_flashing (js ''note.md''))
       = [(getDbFilePath (js ''db'') (js ''note.md''),
           Json (JObj [(key_protected, JBool True), (key_timestamp, JNull)]))]"
    using a(4)
    by (simp add: toggleLockState_def locked_record_read [OF a(1-3)] a(2,3,5,6) c prop_of_def
        Let_def getFileTimestamp_def adapter_stat_def
        enforceReadOnlyMode_def writeFileState_def adapter_exists_def adapter_mkdir_def
        adapter_write_def stateToSave_def JSON_stringify_def)
  have d: "files world_locked
      = [(getDbFilePath (js ''db'') (js ''note.md''),
          Json (JObj [(key_scroll, JNum (Fin 1)), (key_protected, JBool True),
                      (key_timestamp, JNum (Fin 1000))]))]"
    by (simp add: world_locked_def world_flashing_def world0_def)
  have 2: "files (toggleLockState world_locked (js ''note.md''))
       = [(getDbFilePath (js ''db'') (js ''note.md''),
           Json (JObj [(key_scroll, JNum (Fin 1)), (key_protected, JBool False),
                       (key_timestamp, JNull)]))]"
    using b(4)
    by (simp add: toggleLockState_def locked_record_read [OF b(1-3)] b(2,3,5,6) d prop_of_def
        Let_def writeFileState_def adapter_exists_def adapter_mkdir_def
        adapter_write_def stateToSave_def JSON_stringify_def)
  show ?thesis using F 1 2 by simp
qed

end
